theory Spec2Isabelle
  imports Complex_Main "HOL-Library.Sublist"
begin

section \<open>Numbers\<close>

text \<open>
  The program is TypeScript; every \<open>number\<close> is an IEEE double. Prices, timestamps
  (milliseconds) and the indicators EMA, RSI and ATR are read as reals, with exact
  arithmetic. The position size and the MACD triple are computed in double arithmetic:
  every operation returns the double nearest to the exact result, a tie going to the
  even mantissa (\<open>roundDouble\<close>), with gradual underflow and with overflow to an
  infinity. A value that need not be a finite number is a \<open>jsnum\<close>. The sign of zero is
  not modelled.
\<close>

datatype jsnum = Finite real | PosInfinity | NegInfinity | NaN

subsection \<open>Rounding to the nearest double\<close>

text \<open>
  The binade of a positive number: the integer \<open>k\<close> with \<open>2^k \<le> x < 2^(k+1)\<close>, found
  by halving a number from 2 on and by doubling a number below 1.
\<close>

function binadeUp :: "real \<Rightarrow> int" where
  "binadeUp x = (if x < 2 then 0 else binadeUp (x / 2) + 1)"
  by pat_completeness auto
termination
proof (relation "measure (\<lambda>x. nat \<lfloor>x\<rfloor>)")
  show "wf (measure (\<lambda>x. nat \<lfloor>x\<rfloor>))" by simp
next
  fix x :: real
  assume "\<not> x < 2"
  then have "2 \<le> x" by simp
  then have "\<lfloor>x / 2\<rfloor> < \<lfloor>x\<rfloor>" and "0 < \<lfloor>x\<rfloor>"
    by linarith+
  then show "(x / 2, x) \<in> measure (\<lambda>x. nat \<lfloor>x\<rfloor>)" by simp
qed

function binadeDown :: "real \<Rightarrow> int" where
  "binadeDown x = (if x \<le> 0 \<or> 1 \<le> x then 0 else binadeDown (2 * x) - 1)"
  by pat_completeness auto
termination
proof (relation "measure (\<lambda>x. nat \<lfloor>1 / x\<rfloor>)")
  show "wf (measure (\<lambda>x. nat \<lfloor>1 / x\<rfloor>))" by simp
next
  fix x :: real
  assume "\<not> (x \<le> 0 \<or> 1 \<le> x)"
  then have x: "0 < x" "x < 1" by simp_all
  then have y: "1 < 1 / x" by simp
  have h: "1 / (2 * x) = (1 / x) / 2" by simp
  have c: "\<lfloor>y / 2\<rfloor> < \<lfloor>y\<rfloor> \<and> 0 < \<lfloor>y\<rfloor>" if "1 < y" for y :: real
  proof -
    from that have one: "1 \<le> \<lfloor>y\<rfloor>" by (simp add: le_floor_iff)
    have "y < of_int \<lfloor>y\<rfloor> + 1" by linarith
    with one have "y / 2 < of_int \<lfloor>y\<rfloor>" by linarith
    then have "\<lfloor>y / 2\<rfloor> < \<lfloor>y\<rfloor>" by (simp add: floor_less_iff)
    with one show ?thesis by simp
  qed
  from c [OF y] show "(2 * x, x) \<in> measure (\<lambda>x. nat \<lfloor>1 / x\<rfloor>)" by (simp add: h)
qed

declare binadeUp.simps [simp del] binadeDown.simps [simp del]

definition binade :: "real \<Rightarrow> int" where
  "binade x = (if 1 \<le> x then binadeUp x else binadeDown x)"

text \<open>The integer nearest to a number; a tie goes to the even one.\<close>

definition roundHalfEven :: "real \<Rightarrow> int" where
  "roundHalfEven r =
     (let f = \<lfloor>r\<rfloor>; d = r - of_int f in
      if d < 1 / 2 then f else if 1 / 2 < d then f + 1 else if even f then f else f + 1)"

text \<open>
  The exponent of the unit in the last place of a positive number: 52 below its
  binade, and \<open>-1074\<close> throughout the subnormal range, below \<open>2^-1022\<close>.
\<close>

definition ulpExponent :: "real \<Rightarrow> int" where
  "ulpExponent a = max (binade a) (- 1022) - 52"

definition roundMagnitude :: "real \<Rightarrow> real" where
  "roundMagnitude a = of_int (roundHalfEven (a / 2 powi ulpExponent a)) * 2 powi ulpExponent a"

text \<open>
  The double nearest to a real: the rounded magnitude with the sign of the number, an
  infinity when the rounded magnitude reaches \<open>2^1024\<close>.
\<close>

definition roundDouble :: "real \<Rightarrow> jsnum" where
  "roundDouble x =
     (if x = 0 then Finite 0
      else
        (let y = roundMagnitude \<bar>x\<bar> in
         if 2 ^ 1024 \<le> y then (if 0 < x then PosInfinity else NegInfinity)
         else Finite (if 0 < x then y else - y)))"

subsection \<open>Operations\<close>

text \<open>\<open>a * b\<close> of two numbers.\<close>

fun js_times :: "jsnum \<Rightarrow> jsnum \<Rightarrow> jsnum" where
  "js_times (Finite a) (Finite b) = roundDouble (a * b)"
| "js_times NaN _ = NaN"
| "js_times _ NaN = NaN"
| "js_times (Finite a) PosInfinity =
     (if a = 0 then NaN else if 0 < a then PosInfinity else NegInfinity)"
| "js_times (Finite a) NegInfinity =
     (if a = 0 then NaN else if 0 < a then NegInfinity else PosInfinity)"
| "js_times PosInfinity (Finite b) =
     (if b = 0 then NaN else if 0 < b then PosInfinity else NegInfinity)"
| "js_times NegInfinity (Finite b) =
     (if b = 0 then NaN else if 0 < b then NegInfinity else PosInfinity)"
| "js_times PosInfinity PosInfinity = PosInfinity"
| "js_times PosInfinity NegInfinity = NegInfinity"
| "js_times NegInfinity PosInfinity = NegInfinity"
| "js_times NegInfinity NegInfinity = PosInfinity"

text \<open>\<open>a / b\<close> of two numbers; a finite number over zero is an infinity, \<open>0 / 0\<close> is NaN.\<close>

fun js_divide :: "jsnum \<Rightarrow> jsnum \<Rightarrow> jsnum" where
  "js_divide (Finite a) (Finite b) =
     (if b \<noteq> 0 then roundDouble (a / b)
      else if 0 < a then PosInfinity else if a < 0 then NegInfinity else NaN)"
| "js_divide NaN _ = NaN"
| "js_divide _ NaN = NaN"
| "js_divide (Finite a) PosInfinity = Finite 0"
| "js_divide (Finite a) NegInfinity = Finite 0"
| "js_divide PosInfinity (Finite b) = (if 0 \<le> b then PosInfinity else NegInfinity)"
| "js_divide NegInfinity (Finite b) = (if 0 \<le> b then NegInfinity else PosInfinity)"
| "js_divide PosInfinity PosInfinity = NaN"
| "js_divide PosInfinity NegInfinity = NaN"
| "js_divide NegInfinity PosInfinity = NaN"
| "js_divide NegInfinity NegInfinity = NaN"

text \<open>\<open>a - b\<close> of two numbers.\<close>

fun js_minus :: "jsnum \<Rightarrow> jsnum \<Rightarrow> jsnum" where
  "js_minus (Finite a) (Finite b) = roundDouble (a - b)"
| "js_minus NaN _ = NaN"
| "js_minus _ NaN = NaN"
| "js_minus (Finite a) PosInfinity = NegInfinity"
| "js_minus (Finite a) NegInfinity = PosInfinity"
| "js_minus PosInfinity (Finite b) = PosInfinity"
| "js_minus NegInfinity (Finite b) = NegInfinity"
| "js_minus PosInfinity PosInfinity = NaN"
| "js_minus PosInfinity NegInfinity = PosInfinity"
| "js_minus NegInfinity PosInfinity = NegInfinity"
| "js_minus NegInfinity NegInfinity = NaN"

text \<open>\<open>Math.floor\<close>: the infinities and NaN are returned as they are.\<close>

fun js_floor :: "jsnum \<Rightarrow> jsnum" where
  "js_floor (Finite a) = Finite (of_int \<lfloor>a\<rfloor>)"
| "js_floor x = x"

text \<open>\<open>a <= b\<close> and \<open>a < b\<close>: every comparison with NaN is false.\<close>

fun js_le :: "jsnum \<Rightarrow> jsnum \<Rightarrow> bool" where
  "js_le (Finite a) (Finite b) = (a \<le> b)"
| "js_le NaN _ = False"
| "js_le _ NaN = False"
| "js_le NegInfinity _ = True"
| "js_le _ PosInfinity = True"
| "js_le _ _ = False"

fun js_less :: "jsnum \<Rightarrow> jsnum \<Rightarrow> bool" where
  "js_less (Finite a) (Finite b) = (a < b)"
| "js_less NaN _ = False"
| "js_less _ NaN = False"
| "js_less PosInfinity _ = False"
| "js_less _ NegInfinity = False"
| "js_less _ _ = True"

section \<open>Signal detector (signal-detector.ts)\<close>

subsection \<open>Data\<close>

record candle =
  c_open :: real
  c_high :: real
  c_low :: real
  c_close :: real
  c_volume :: real
  c_timestamp :: real

datatype signal_type = LONG | SHORT

text \<open>
  The source joins the contributing factors into one string, with the RSI printed by
  \<open>toFixed(1)\<close>. The model keeps the factors as a list, in evaluation order, and the RSI
  as a number.
\<close>

datatype reason =
    TrendUp | TrendDown | RsiFavourable real | MacdBullish | MacdBearish
  | MomentumPositive | MomentumNegative | StrongTrend

record signal =
  sig_type :: signal_type
  sig_entryPrice :: real
  sig_stopLoss :: real
  sig_takeProfit1 :: real
  sig_takeProfit2 :: real
  sig_takeProfit3 :: real
  sig_score :: nat
  sig_reason :: "reason list"
  sig_timestamp :: real

text \<open>
  Timers of the event loop: \<open>setInterval\<close> and \<open>setTimeout\<close> return a handle and leave a
  pending timer behind; \<open>clearInterval\<close> removes the timer of a handle. A timeout is
  removed when it fires, an interval stays.
\<close>

datatype timer_kind =
    Heartbeat | ReconnectBackoff | ReconnectCooldown | PeriodicAnalysis | FirstAnalysis

record timer =
  t_handle :: nat
  t_kind :: timer_kind
  t_delay :: real

definition setTimer :: "timer list \<Rightarrow> nat \<Rightarrow> timer_kind \<Rightarrow> real \<Rightarrow> timer list" where
  "setTimer ts h k d = ts @ [\<lparr>t_handle = h, t_kind = k, t_delay = d\<rparr>]"

definition clearTimer :: "timer list \<Rightarrow> nat \<Rightarrow> timer list" where
  "clearTimer ts h = filter (\<lambda>t. t_handle t \<noteq> h) ts"

text \<open>
  The fields of \<open>ServerSignalDetector\<close>. \<open>callbacks\<close> holds the subscribers by an
  identifier. The last three fields are the detector's footprint outside the object:
  the timers it has pending in the event loop, the next free timer handle, and the number
  of price handlers it has registered with the price monitor.
\<close>

record detector =
  candles :: "candle list"
  lastCandleTime :: real
  currentCandle :: "candle option"
  callbacks :: "nat list"
  lastSignalTime :: real
  isRunning :: bool
  analysisInterval :: "nat option"
  historyLoaded :: bool
  sd_timers :: "timer list"
  sd_nextHandle :: nat
  sd_priceHandlers :: nat

definition maxCandles :: nat where
  "maxCandles = 200"

definition candleInterval :: real where
  "candleInterval = 5 * 60 * 1000"

definition minSignalInterval :: real where
  "minSignalInterval = 5 * 60 * 1000"

definition newDetector :: detector where
  "newDetector =
     \<lparr>candles = [], lastCandleTime = 0, currentCandle = None, callbacks = [],
      lastSignalTime = 0, isRunning = False, analysisInterval = None,
      historyLoaded = False, sd_timers = [], sd_nextHandle = 0, sd_priceHandlers = 0\<rparr>"

subsection \<open>Bar aggregation: processPrice\<close>

text \<open>\<open>Math.floor(timestamp / this.candleInterval) * this.candleInterval\<close>\<close>

definition candleTimeOf :: "real \<Rightarrow> real" where
  "candleTimeOf ts = of_int \<lfloor>ts / candleInterval\<rfloor> * candleInterval"

text \<open>\<open>this.candles.push(c); if (this.candles.length > this.maxCandles) this.candles.shift()\<close>\<close>

definition pushCandle :: "candle list \<Rightarrow> candle \<Rightarrow> candle list" where
  "pushCandle cs c = (let cs' = cs @ [c] in if length cs' > maxCandles then tl cs' else cs')"

definition processPrice :: "detector \<Rightarrow> real \<Rightarrow> real \<Rightarrow> detector" where
  "processPrice s price ts =
     (let candleTime = candleTimeOf ts in
      if candleTime > lastCandleTime s then
        s\<lparr>candles := (case currentCandle s of
                        None \<Rightarrow> candles s
                      | Some c \<Rightarrow> pushCandle (candles s) c),
          currentCandle := Some \<lparr>c_open = price, c_high = price, c_low = price,
                                 c_close = price, c_volume = 0, c_timestamp = candleTime\<rparr>,
          lastCandleTime := candleTime\<rparr>
      else (case currentCandle s of
              None \<Rightarrow> s
            | Some c \<Rightarrow>
                s\<lparr>currentCandle :=
                    Some (c\<lparr>c_high := max (c_high c) price,
                            c_low := min (c_low c) price,
                            c_close := price\<rparr>)\<rparr>))"

text \<open>A sequence of ticks (price, event time), delivered in order.\<close>

definition processTicks :: "detector \<Rightarrow> (real \<times> real) list \<Rightarrow> detector" where
  "processTicks s ticks = foldl (\<lambda>s (price, ts). processPrice s price ts) s ticks"

subsection \<open>Historical seeding: loadHistoricalCandles\<close>

text \<open>
  The REST call either fails (any exception of \<open>fetch\<close>, a status that is not ok) or
  yields the rows of the response, here already converted to candles.
\<close>

definition loadHistoricalCandles :: "detector \<Rightarrow> string + candle list \<Rightarrow> detector" where
  "loadHistoricalCandles s response =
     (case response of
        Inl err \<Rightarrow> s
      | Inr data \<Rightarrow>
          s\<lparr>candles := data,
            lastCandleTime := (if data \<noteq> [] then c_timestamp (last data) else lastCandleTime s),
            historyLoaded := True\<rparr>)"

subsection \<open>Indicators\<close>

text \<open>
  \<open>calculateEMA\<close>. With fewer than \<open>period\<close> points the source returns
  \<open>data[data.length - 1]\<close>, which is \<open>undefined\<close> for the empty series; with
  \<open>period = 0\<close> the seed is \<open>0 / 0\<close>. \<open>None\<close> stands for both (not a number): every
  comparison with it is false in the source.
\<close>

definition calculateEMA :: "real list \<Rightarrow> nat \<Rightarrow> real option" where
  "calculateEMA data period =
     (if length data < period then (if data = [] then None else Some (last data))
      else if period = 0 then None
      else
        (let k = 2 / (real period + 1);
             seed = foldl (\<lambda>a b. a + b) 0 (take period data) / real period
         in Some (foldl (\<lambda>ema x. x * k + ema * (1 - k)) seed (drop period data))))"

text \<open>
  \<open>calculateRSI\<close>. The loop runs over the indices \<open>length - period ..< length\<close>; each
  index and its predecessor are in range, since \<open>length \<ge> period + 1\<close> there. The only
  caller passes the period 14; at period 0 the source yields NaN, which a \<open>real\<close> does not
  show.
\<close>

definition rsiStep :: "real list \<Rightarrow> real \<times> real \<Rightarrow> nat \<Rightarrow> real \<times> real" where
  "rsiStep data acc i =
     (let change = data ! i - data ! (i - 1) in
      if change > 0 then (fst acc + change, snd acc) else (fst acc, snd acc - change))"

definition calculateRSI :: "real list \<Rightarrow> nat \<Rightarrow> real" where
  "calculateRSI data period =
     (if length data < period + 1 then 50
      else
        (let gl = foldl (rsiStep data) (0, 0) [length data - period ..< length data];
             avgGain = fst gl / real period;
             avgLoss = snd gl / real period
         in if avgLoss = 0 then 100
            else (let rs = avgGain / avgLoss in 100 - (100 / (1 + rs)))))"

record macd_result =
  macd :: jsnum
  signal :: jsnum
  histogram :: jsnum

text \<open>
  \<open>calculateMACD\<close>, in double arithmetic: the difference of the EMAs, its product with
  the literal \<open>0.9\<close> (the double nearest to 0.9) and the difference of the two are each
  rounded. \<open>None\<close> when an EMA is not a number (all three fields are NaN).
\<close>

definition calculateMACD :: "real list \<Rightarrow> macd_result option" where
  "calculateMACD data =
     (case (calculateEMA data 12, calculateEMA data 26) of
        (Some ema12, Some ema26) \<Rightarrow>
          (let m = js_minus (Finite ema12) (Finite ema26);
               sg = js_times m (roundDouble 0.9);
               h = js_minus m sg
           in Some \<lparr>macd = m, signal = sg, histogram = h\<rparr>)
      | _ \<Rightarrow> None)"

text \<open>
  \<open>calculateATR(period = 14)\<close>, over the closed bars. \<open>slice(-period - 1)\<close> keeps the last
  \<open>period + 1\<close> bars; the loop starts at index 1. The only caller uses the default period.
\<close>

definition trueRange :: "candle \<Rightarrow> candle \<Rightarrow> real" where
  "trueRange current previous =
     max (max (c_high current - c_low current) \<bar>c_high current - c_close previous\<bar>)
         \<bar>c_low current - c_close previous\<bar>"

definition calculateATR :: "detector \<Rightarrow> nat \<Rightarrow> real" where
  "calculateATR s period =
     (if length (candles s) < period + 1 then
        (let price = (case currentCandle s of
                        None \<Rightarrow> 50000
                      | Some c \<Rightarrow> if c_close c \<noteq> 0 then c_close c else 50000)
         in price * 0.01)
      else
        (let recentCandles = drop (length (candles s) - (period + 1)) (candles s);
             atrSum = foldl (\<lambda>acc i. acc + trueRange (recentCandles ! i) (recentCandles ! (i - 1)))
                        0 [1 ..< length recentCandles]
         in atrSum / real period))"

subsection \<open>Scoring: detectSignal\<close>

text \<open>
  The scoring part of \<open>detectSignal\<close>: the direction, the composite score and the
  contributing factors, before the final threshold. The divisions by \<open>ema20\<close> and
  \<open>ema50\<close> are written with the source's outcome at a zero divisor: a momentum of
  \<open>\<plusminus>Infinity\<close> is in neither band, and a trend strength of \<open>\<plusminus>Infinity\<close> exceeds 0.5
  while NaN (\<open>0 / 0\<close>) does not.
\<close>

record scoring =
  sc_type :: "signal_type option"
  sc_score :: nat
  sc_reasons :: "reason list"

definition scoreTrend :: "real \<Rightarrow> real \<Rightarrow> real \<Rightarrow> scoring" where
  "scoreTrend price ema20 ema50 =
     (if price > ema20 \<and> ema20 > ema50 then
        \<lparr>sc_type = Some LONG, sc_score = 25, sc_reasons = [TrendUp]\<rparr>
      else if price < ema20 \<and> ema20 < ema50 then
        \<lparr>sc_type = Some SHORT, sc_score = 25, sc_reasons = [TrendDown]\<rparr>
      else \<lparr>sc_type = None, sc_score = 0, sc_reasons = []\<rparr>)"

definition addFactor :: "scoring \<Rightarrow> nat \<Rightarrow> reason \<Rightarrow> scoring" where
  "addFactor sc n r = sc\<lparr>sc_score := sc_score sc + n, sc_reasons := sc_reasons sc @ [r]\<rparr>"

definition scoreRSI :: "real \<Rightarrow> scoring \<Rightarrow> scoring" where
  "scoreRSI rsi sc =
     (if sc_type sc = Some LONG \<and> rsi > 40 \<and> rsi < 70 then addFactor sc 20 (RsiFavourable rsi)
      else if sc_type sc = Some SHORT \<and> rsi < 60 \<and> rsi > 30 then
        addFactor sc 20 (RsiFavourable rsi)
      else sc)"

text \<open>The MACD condition of a direction, as \<open>detectSignal\<close> tests it.\<close>

definition macdAligned :: "signal_type \<Rightarrow> macd_result \<Rightarrow> bool" where
  "macdAligned ty m =
     (case ty of
        LONG \<Rightarrow> js_less (Finite 0) (histogram m) \<and> js_less (signal m) (macd m)
      | SHORT \<Rightarrow> js_less (histogram m) (Finite 0) \<and> js_less (macd m) (signal m))"

definition scoreMACD :: "macd_result \<Rightarrow> scoring \<Rightarrow> scoring" where
  "scoreMACD m sc =
     (if sc_type sc = Some LONG \<and> macdAligned LONG m then addFactor sc 25 MacdBullish
      else if sc_type sc = Some SHORT \<and> macdAligned SHORT m then addFactor sc 25 MacdBearish
      else sc)"

definition scoreMomentum :: "real \<Rightarrow> real \<Rightarrow> scoring \<Rightarrow> scoring" where
  "scoreMomentum price ema20 sc =
     (let distanceFromEMA = ((price - ema20) / ema20) * 100 in
      if sc_type sc = Some LONG \<and> ema20 \<noteq> 0 \<and> distanceFromEMA > 0.1 \<and> distanceFromEMA < 2 then
        addFactor sc 15 MomentumPositive
      else if sc_type sc = Some SHORT \<and> ema20 \<noteq> 0 \<and> distanceFromEMA < - 0.1
              \<and> distanceFromEMA > - 2 then
        addFactor sc 15 MomentumNegative
      else sc)"

definition scoreStrength :: "real \<Rightarrow> real \<Rightarrow> scoring \<Rightarrow> scoring" where
  "scoreStrength ema20 ema50 sc =
     (let emaDiff = ((ema20 - ema50) / ema50) * 100 in
      if (if ema50 = 0 then ema20 \<noteq> 0 else \<bar>emaDiff\<bar> > 0.5) then addFactor sc 15 StrongTrend
      else sc)"

definition scoreSignal :: "real \<Rightarrow> real \<Rightarrow> real \<Rightarrow> real \<Rightarrow> macd_result \<Rightarrow> scoring" where
  "scoreSignal price ema20 ema50 rsi m =
     scoreStrength ema20 ema50
       (scoreMomentum price ema20
         (scoreMACD m
           (scoreRSI rsi
             (scoreTrend price ema20 ema50))))"

text \<open>
  \<open>detectSignal\<close>: a signal only if a direction was set and the score is at least 60.
  \<open>now\<close> is the reading of \<open>Date.now()\<close>.
\<close>

definition detectSignal ::
  "detector \<Rightarrow> real \<Rightarrow> real \<Rightarrow> real \<Rightarrow> real \<Rightarrow> real \<Rightarrow> macd_result \<Rightarrow> signal option" where
  "detectSignal s now price ema20 ema50 rsi m =
     (let sc = scoreSignal price ema20 ema50 rsi m in
      case sc_type sc of
        None \<Rightarrow> None
      | Some ty \<Rightarrow>
          if sc_score sc \<ge> 60 then
            (let atr = calculateATR s 14;
                 stopDistance = atr * 1.5;
                 tpMultiplier = (if ty = LONG then 1 else - 1)
             in Some \<lparr>sig_type = ty,
                      sig_entryPrice = price,
                      sig_stopLoss = (if ty = LONG then price - stopDistance
                                      else price + stopDistance),
                      sig_takeProfit1 = price + (stopDistance * 1.5 * tpMultiplier),
                      sig_takeProfit2 = price + (stopDistance * 2.5 * tpMultiplier),
                      sig_takeProfit3 = price + (stopDistance * 4 * tpMultiplier),
                      sig_score = sc_score sc,
                      sig_reason = sc_reasons sc,
                      sig_timestamp = now\<rparr>)
          else None)"

subsection \<open>Periodic analysis: analyzeMarket\<close>

text \<open>\<open>const closes = this.candles.map(c => c.close)\<close>\<close>

definition analysisCloses :: "detector \<Rightarrow> real list" where
  "analysisCloses s = map c_close (candles s)"

text \<open>
  \<open>this.currentCandle?.close || closes[closes.length - 1]\<close>: the last close of History
  when there is no open bar or its close is 0. The analysis reads it with at least 50
  closes.
\<close>

definition currentPriceOf :: "detector \<Rightarrow> real" where
  "currentPriceOf s =
     (case currentCandle s of
        None \<Rightarrow> last (analysisCloses s)
      | Some c \<Rightarrow> if c_close c \<noteq> 0 then c_close c else last (analysisCloses s))"

record indicators =
  i_ema20 :: "real option"
  i_ema50 :: "real option"
  i_rsi :: real
  i_macd :: "macd_result option"

definition computeIndicators :: "detector \<Rightarrow> indicators" where
  "computeIndicators s =
     (let closes = analysisCloses s in
      \<lparr>i_ema20 = calculateEMA closes 20,
       i_ema50 = calculateEMA closes 50,
       i_rsi = calculateRSI closes 14,
       i_macd = calculateMACD closes\<rparr>)"

text \<open>
  One run of \<open>analyzeMarket\<close> at the clock reading \<open>now\<close>: the new state and the
  deliveries made, one (subscriber, signal) pair for each registered callback, in
  order. An indicator that is not a number makes every comparison of \<open>detectSignal\<close>
  false, so no direction is set and nothing is returned.
\<close>

definition analyzeMarket :: "detector \<Rightarrow> real \<Rightarrow> detector \<times> (nat \<times> signal) list" where
  "analyzeMarket s now =
     (if length (candles s) < 50 then (s, [])
      else if now - lastSignalTime s < minSignalInterval then (s, [])
      else
        (let currentPrice = currentPriceOf s;
             ind = computeIndicators s
         in case (i_ema20 ind, i_ema50 ind, i_macd ind) of
              (Some ema20, Some ema50, Some m) \<Rightarrow>
                (case detectSignal s now currentPrice ema20 ema50 (i_rsi ind) m of
                   None \<Rightarrow> (s, [])
                 | Some sg \<Rightarrow>
                     (s\<lparr>lastSignalTime := now\<rparr>,
                      map (\<lambda>cb. (cb, sg\<lparr>sig_timestamp := now\<rparr>)) (callbacks s)))
            | _ \<Rightarrow> (s, [])))"

subsection \<open>Lifecycle: start and stop\<close>

text \<open>
  \<open>start\<close>, with the response of the history request it awaits. It registers one more
  price handler with the price monitor, sets the periodic analysis interval (60 s) and
  the first-analysis timeout (5 s); only the interval's handle is kept.
\<close>

definition sd_start :: "detector \<Rightarrow> string + candle list \<Rightarrow> detector" where
  "sd_start s response =
     (if isRunning s then s
      else
        (let s1 = s\<lparr>isRunning := True\<rparr>;
             s2 = (if \<not> historyLoaded s1 then loadHistoricalCandles s1 response else s1);
             h = sd_nextHandle s2
         in s2\<lparr>sd_priceHandlers := sd_priceHandlers s2 + 1,
               analysisInterval := Some h,
               sd_timers := setTimer (setTimer (sd_timers s2) h PeriodicAnalysis (60 * 1000))
                              (h + 1) FirstAnalysis 5000,
               sd_nextHandle := h + 2\<rparr>))"

definition sd_stop :: "detector \<Rightarrow> detector" where
  "sd_stop s =
     (let s1 = s\<lparr>isRunning := False\<rparr> in
      case analysisInterval s1 of
        None \<Rightarrow> s1
      | Some h \<Rightarrow> s1\<lparr>sd_timers := clearTimer (sd_timers s1) h, analysisInterval := None\<rparr>)"

text \<open>
  A timer of the detector fires: both callbacks run \<open>analyzeMarket\<close>; the timeout is
  gone afterwards, the interval stays pending. A handle with no pending timer does
  nothing.
\<close>

definition sd_fire :: "detector \<Rightarrow> nat \<Rightarrow> real \<Rightarrow> detector \<times> (nat \<times> signal) list" where
  "sd_fire s h now =
     (case find (\<lambda>t. t_handle t = h) (sd_timers s) of
        None \<Rightarrow> (s, [])
      | Some t \<Rightarrow>
          (if t_kind t = FirstAnalysis then
             analyzeMarket (s\<lparr>sd_timers := clearTimer (sd_timers s) h\<rparr>) now
           else if t_kind t = PeriodicAnalysis then analyzeMarket s now
           else (s, [])))"

section \<open>Price monitor (price-monitor.ts): connection lifecycle\<close>

text \<open>
  The lifecycle fields of \<open>ServerPriceMonitor\<close>: the socket held (by an identifier), the
  reconnect counter, the running flag and the handle of the heartbeat interval; then
  the monitor's footprint outside the object: its pending timers, the next free timer
  handle and the number of sockets it has opened. The handling of feed messages is not
  part of this model.
\<close>

record monitor =
  ws :: "nat option"
  reconnectAttempts :: nat
  pm_isRunning :: bool
  pingInterval :: "nat option"
  pm_timers :: "timer list"
  pm_nextHandle :: nat
  pm_sockets :: nat

definition maxReconnectAttempts :: nat where
  "maxReconnectAttempts = 10"

definition reconnectDelay :: real where
  "reconnectDelay = 5000"

definition newMonitor :: monitor where
  "newMonitor =
     \<lparr>ws = None, reconnectAttempts = 0, pm_isRunning = False, pingInterval = None,
      pm_timers = [], pm_nextHandle = 0, pm_sockets = 0\<rparr>"

text \<open>\<open>connect\<close>: returns at once when the monitor is not running; else opens a socket.\<close>

definition pm_connect :: "monitor \<Rightarrow> monitor" where
  "pm_connect m =
     (if \<not> pm_isRunning m then m
      else m\<lparr>ws := Some (pm_sockets m), pm_sockets := pm_sockets m + 1\<rparr>)"

definition pm_start :: "monitor \<Rightarrow> monitor" where
  "pm_start m = (if pm_isRunning m then m else pm_connect (m\<lparr>pm_isRunning := True\<rparr>))"

text \<open>\<open>stop\<close>; the socket's close event arrives later, as \<open>pm_onClose\<close>.\<close>

definition pm_stop :: "monitor \<Rightarrow> monitor" where
  "pm_stop m =
     (let m1 = m\<lparr>pm_isRunning := False\<rparr>;
          m2 = (case pingInterval m1 of
                  None \<Rightarrow> m1
                | Some h \<Rightarrow> m1\<lparr>pm_timers := clearTimer (pm_timers m1) h, pingInterval := None\<rparr>)
      in case ws m2 of None \<Rightarrow> m2 | Some sock \<Rightarrow> m2\<lparr>ws := None\<rparr>)"

text \<open>The handler of the socket's \<open>open\<close> event.\<close>

definition pm_onOpen :: "monitor \<Rightarrow> monitor" where
  "pm_onOpen m =
     (let h = pm_nextHandle m in
      m\<lparr>reconnectAttempts := 0,
        pingInterval := Some h,
        pm_timers := setTimer (pm_timers m) h Heartbeat 30000,
        pm_nextHandle := h + 1\<rparr>)"

definition scheduleReconnect :: "monitor \<Rightarrow> monitor" where
  "scheduleReconnect m =
     (let h = pm_nextHandle m in
      if reconnectAttempts m \<ge> maxReconnectAttempts then
        m\<lparr>pm_timers := setTimer (pm_timers m) h ReconnectCooldown 60000,
          pm_nextHandle := h + 1\<rparr>
      else
        (let delay = reconnectDelay * (1.5 ^ reconnectAttempts m) in
         m\<lparr>reconnectAttempts := reconnectAttempts m + 1,
           pm_timers := setTimer (pm_timers m) h ReconnectBackoff delay,
           pm_nextHandle := h + 1\<rparr>))"

text \<open>The handler of the socket's \<open>close\<close> event.\<close>

definition pm_onClose :: "monitor \<Rightarrow> monitor" where
  "pm_onClose m =
     (let m1 = (case pingInterval m of
                  None \<Rightarrow> m
                | Some h \<Rightarrow> m\<lparr>pm_timers := clearTimer (pm_timers m) h, pingInterval := None\<rparr>)
      in if pm_isRunning m1 then scheduleReconnect m1 else m1)"

text \<open>
  A timer of the monitor fires. The heartbeat sends a ping and changes nothing here;
  the backoff timeout calls \<open>connect\<close>; the cooldown timeout resets the counter and calls
  \<open>connect\<close>. A timeout is gone once it has fired.
\<close>

definition pm_fire :: "monitor \<Rightarrow> nat \<Rightarrow> monitor" where
  "pm_fire m h =
     (case find (\<lambda>t. t_handle t = h) (pm_timers m) of
        None \<Rightarrow> m
      | Some t \<Rightarrow>
          (if t_kind t = ReconnectBackoff then
             pm_connect (m\<lparr>pm_timers := clearTimer (pm_timers m) h\<rparr>)
           else if t_kind t = ReconnectCooldown then
             pm_connect (m\<lparr>pm_timers := clearTimer (pm_timers m) h, reconnectAttempts := 0\<rparr>)
           else m))"

section \<open>Order execution (binance-executor.ts)\<close>

record binanceConfig =
  apiKey :: string
  apiSecret :: string
  testnet :: bool

record orderResult =
  success :: bool
  orderId :: "string option"
  error :: "string option"
  executedQty :: "jsnum option"
  avgPrice :: "jsnum option"

text \<open>
  A position record of the venue. \<open>positionAmt\<close> is the number that \<open>parseFloat\<close> reads
  from the field (NaN when it reads none); the other fields stay strings.
\<close>

record position =
  p_symbol :: string
  positionAmt :: jsnum
  p_entryPrice :: string
  unRealizedProfit :: string
  p_leverage :: string
  p_marginType :: string

text \<open>
  A balance record: the asset and the number that \<open>parseFloat\<close> reads from
  \<open>availableBalance || '0'\<close>.
\<close>

record balance =
  asset :: string
  availableBalance :: jsnum

text \<open>
  The body of an order response: \<open>orderId\<close> may be missing (then \<open>toString\<close> throws);
  the quantities are the numbers \<open>parseFloat\<close> reads.
\<close>

record order_data =
  od_orderId :: "string option"
  od_executedQty :: jsnum
  od_avgPrice :: jsnum

datatype http_method = GET | POST | DELETE

datatype param = PStr string | PNum jsnum

text \<open>
  A request sent to the venue. The timestamp and the HMAC signature that \<open>request\<close>
  appends are not modelled, nor is the formatting of numbers.
\<close>

record http_request =
  r_method :: http_method
  r_endpoint :: string
  r_params :: "(string \<times> param) list"

text \<open>
  The venue, as seen by one operation: for each endpoint either the message of the
  error that \<open>request\<close> throws (a rejected \<open>fetch\<close>, a status that is not ok), or the
  data of the response.
\<close>

record venue =
  v_positionRisk :: "string + position list"
  v_leverage :: "string + unit"
  v_marginType :: "string + unit"
  v_balance :: "string + balance list"
  v_order :: "string + order_data"

text \<open>
  The messages of the source are Portuguese; they are written here without their
  diacritics.
\<close>

definition msgNotConfigured :: string where
  "msgNotConfigured = ''Binance nao configurada''"

definition msgPositionOpen :: string where
  "msgPositionOpen = ''Posicao ja aberta''"

definition msgInvalidQuantity :: string where
  "msgInvalidQuantity = ''Quantidade invalida''"

definition msgNoOrderId :: string where
  "msgNoOrderId = ''Cannot read properties of undefined (reading 'toString')''"

definition isConfigured :: "binanceConfig option \<Rightarrow> bool" where
  "isConfigured cfg =
     (case cfg of None \<Rightarrow> False | Some c \<Rightarrow> apiKey c \<noteq> [] \<and> apiSecret c \<noteq> [])"

text \<open>
  \<open>request\<close>: throws before anything is sent when there is no configuration; else sends
  the request and returns, or throws, what the venue answers. The result comes with
  the requests sent.
\<close>

definition request ::
  "binanceConfig option \<Rightarrow> string + 'a \<Rightarrow> http_method \<Rightarrow> string \<Rightarrow> (string \<times> param) list
     \<Rightarrow> (string + 'a) \<times> http_request list" where
  "request cfg answer method endpoint params =
     (case cfg of
        None \<Rightarrow> (Inl msgNotConfigured, [])
      | Some c \<Rightarrow> (answer, [\<lparr>r_method = method, r_endpoint = endpoint, r_params = params\<rparr>]))"

text \<open>\<open>String.prototype.includes\<close>\<close>

fun includes_str :: "string \<Rightarrow> string \<Rightarrow> bool" where
  "includes_str [] sub = (sub = [])"
| "includes_str (c # cs) sub = (prefix sub (c # cs) \<or> includes_str cs sub)"

definition setLeverage ::
  "binanceConfig option \<Rightarrow> venue \<Rightarrow> string \<Rightarrow> real \<Rightarrow> bool \<times> http_request list" where
  "setLeverage cfg v symbol leverage =
     (case request cfg (v_leverage v) POST ''/fapi/v1/leverage''
             [(''symbol'', PStr symbol), (''leverage'', PNum (Finite leverage))] of
        (Inr d, rs) \<Rightarrow> (True, rs)
      | (Inl msg, rs) \<Rightarrow> (if includes_str msg ''-4028'' then (True, rs) else (False, rs)))"

definition setMarginType ::
  "binanceConfig option \<Rightarrow> venue \<Rightarrow> string \<Rightarrow> string \<Rightarrow> bool \<times> http_request list" where
  "setMarginType cfg v symbol marginType =
     (case request cfg (v_marginType v) POST ''/fapi/v1/marginType''
             [(''symbol'', PStr symbol), (''marginType'', PStr marginType)] of
        (Inr d, rs) \<Rightarrow> (True, rs)
      | (Inl msg, rs) \<Rightarrow> (if includes_str msg ''-4046'' then (True, rs) else (False, rs)))"

definition getBalance :: "binanceConfig option \<Rightarrow> venue \<Rightarrow> jsnum \<times> http_request list" where
  "getBalance cfg v =
     (case request cfg (v_balance v) GET ''/fapi/v2/balance'' [] of
        (Inr d, rs) \<Rightarrow>
          (case find (\<lambda>b. asset b = ''USDT'') d of
             None \<Rightarrow> (Finite 0, rs)
           | Some usdtBalance \<Rightarrow> (availableBalance usdtBalance, rs))
      | (Inl msg, rs) \<Rightarrow> (Finite 0, rs))"

definition getOpenPositions ::
  "binanceConfig option \<Rightarrow> venue \<Rightarrow> position list \<times> http_request list" where
  "getOpenPositions cfg v =
     (case request cfg (v_positionRisk v) GET ''/fapi/v2/positionRisk'' [] of
        (Inr d, rs) \<Rightarrow> (filter (\<lambda>p. positionAmt p \<noteq> Finite 0) d, rs)
      | (Inl msg, rs) \<Rightarrow> ([], rs))"

text \<open>
  \<open>calculatePositionSize\<close>, in double arithmetic: each of the six operations is rounded,
  in the order in which the source writes them.
\<close>

definition calculatePositionSize ::
  "binanceConfig option \<Rightarrow> venue \<Rightarrow> real \<Rightarrow> real \<Rightarrow> real \<Rightarrow> jsnum \<times> http_request list" where
  "calculatePositionSize cfg v accountPercentage entryPrice leverage =
     (case getBalance cfg v of
        (balance, rs) \<Rightarrow>
          (let positionValue = js_times balance (js_divide (Finite accountPercentage) (Finite 100));
               leveragedValue = js_times positionValue (Finite leverage);
               quantity = js_divide leveragedValue (Finite entryPrice)
           in (js_divide (js_floor (js_times quantity (Finite 1000))) (Finite 1000), rs)))"

datatype order_side = BUY | SELL

definition sideName :: "order_side \<Rightarrow> string" where
  "sideName sd = (case sd of BUY \<Rightarrow> ''BUY'' | SELL \<Rightarrow> ''SELL'')"

definition orderEndpoint :: string where
  "orderEndpoint = ''/fapi/v1/order''"

definition openMarketOrder ::
  "binanceConfig option \<Rightarrow> venue \<Rightarrow> string \<Rightarrow> order_side \<Rightarrow> jsnum
     \<Rightarrow> orderResult \<times> http_request list" where
  "openMarketOrder cfg v symbol sd quantity =
     (case request cfg (v_order v) POST orderEndpoint
             [(''symbol'', PStr symbol), (''side'', PStr (sideName sd)),
              (''type'', PStr ''MARKET''), (''quantity'', PNum quantity)] of
        (Inr d, rs) \<Rightarrow>
          (case od_orderId d of
             Some oid \<Rightarrow>
               (\<lparr>success = True, orderId = Some oid, error = None,
                 executedQty = Some (od_executedQty d), avgPrice = Some (od_avgPrice d)\<rparr>, rs)
           | None \<Rightarrow>
               (\<lparr>success = False, orderId = None, error = Some msgNoOrderId,
                 executedQty = None, avgPrice = None\<rparr>, rs))
      | (Inl msg, rs) \<Rightarrow>
          (\<lparr>success = False, orderId = None, error = Some msg,
            executedQty = None, avgPrice = None\<rparr>, rs))"

text \<open>The argument of \<open>executeSignal\<close>.\<close>

record exec_signal =
  es_type :: signal_type
  es_entryPrice :: real
  es_stopLoss :: real
  es_takeProfit :: real
  es_accountPercentage :: real
  es_leverage :: real

definition failure :: "string \<Rightarrow> orderResult" where
  "failure msg =
     \<lparr>success = False, orderId = None, error = Some msg, executedQty = None, avgPrice = None\<rparr>"

text \<open>
  \<open>executeSignal\<close>: the result and the requests sent, in order. None of the operations
  it awaits throws, so its own \<open>catch\<close> is never entered.
\<close>

definition executeSignal ::
  "binanceConfig option \<Rightarrow> venue \<Rightarrow> exec_signal \<Rightarrow> orderResult \<times> http_request list" where
  "executeSignal cfg v sg =
     (let symbol = ''BTCUSDT'' in
      case getOpenPositions cfg v of
        (positions, r1) \<Rightarrow>
          (case find (\<lambda>p. p_symbol p = symbol) positions of
             Some existingPosition \<Rightarrow> (failure msgPositionOpen, r1)
           | None \<Rightarrow>
               (case setLeverage cfg v symbol (es_leverage sg) of
                  (ok1, r2) \<Rightarrow>
                    (case setMarginType cfg v symbol ''ISOLATED'' of
                       (ok2, r3) \<Rightarrow>
                         (case calculatePositionSize cfg v (es_accountPercentage sg)
                                 (es_entryPrice sg) (es_leverage sg) of
                            (quantity, r4) \<Rightarrow>
                              if js_le quantity (Finite 0) then
                                (failure msgInvalidQuantity, r1 @ r2 @ r3 @ r4)
                              else
                                (let sd = (if es_type sg = LONG then BUY else SELL) in
                                 case openMarketOrder cfg v symbol sd quantity of
                                   (result, r5) \<Rightarrow> (result, r1 @ r2 @ r3 @ r4 @ r5)))))))"

text \<open>An order-placement request: a POST to the order endpoint.\<close>

definition isOrderRequest :: "http_request \<Rightarrow> bool" where
  "isOrderRequest r = (r_method r = POST \<and> r_endpoint r = orderEndpoint)"

section \<open>Trading bot (trading-bot.ts): handleSignal\<close>

record botConfig =
  enabled :: bool
  bc_apiKey :: string
  bc_apiSecret :: string
  bc_testnet :: bool
  bc_leverage :: real
  bc_accountPercentage :: real
  minScore :: real
  bc_marginType :: string

datatype log_type = LInfo | LSignal | LOrder | LError

text \<open>
  The source formats each log message and notification as a string (prices by
  \<open>toFixed\<close>); the model keeps what the message is built from. The timestamp of a log
  entry, a clock reading of its own, is left out.
\<close>

datatype log_message =
    MsgSignalDetected signal_type nat real
  | MsgDisabled
  | MsgScoreBelowMinimum nat real
  | MsgWaitingInterval
  | MsgNotConfigured
  | MsgExecuting signal_type real
  | MsgExecuted signal_type orderResult
  | MsgExecutionError signal_type "string option"

record botLog =
  l_type :: log_type
  l_message :: log_message

datatype notification =
    NotifySignalOnly signal
  | NotifyExecuted signal orderResult
  | NotifyExecutionError signal "string option"

record bot =
  b_config :: "botConfig option"
  b_isRunning :: bool
  lastOrderTime :: real
  totalOrders :: nat
  logs :: "botLog list"
  b_currentPrice :: real

definition minOrderInterval :: real where
  "minOrderInterval = 5 * 60 * 1000"

definition maxLogs :: nat where
  "maxLogs = 100"

text \<open>\<open>addLog\<close>: newest first, cut to \<open>maxLogs\<close> entries.\<close>

definition addLog :: "bot \<Rightarrow> log_type \<Rightarrow> log_message \<Rightarrow> bot" where
  "addLog b ty msg =
     (let ls = \<lparr>l_type = ty, l_message = msg\<rparr> # logs b in
      b\<lparr>logs := (if length ls > maxLogs then take maxLogs ls else ls)\<rparr>)"

text \<open>The argument that \<open>handleSignal\<close> passes to \<open>executeSignal\<close>.\<close>

definition toExecSignal :: "botConfig \<Rightarrow> signal \<Rightarrow> exec_signal" where
  "toExecSignal cfg sg =
     \<lparr>es_type = sig_type sg,
      es_entryPrice = sig_entryPrice sg,
      es_stopLoss = sig_stopLoss sg,
      es_takeProfit = sig_takeProfit1 sg,
      es_accountPercentage =
        (if bc_accountPercentage cfg \<noteq> 0 then bc_accountPercentage cfg else 10),
      es_leverage = (if bc_leverage cfg \<noteq> 0 then bc_leverage cfg else 15)\<rparr>"

text \<open>
  \<open>handleSignal\<close>, run to completion, for the executor's configuration \<open>ex\<close>, the venue
  \<open>v\<close> and the clock reading \<open>now\<close> taken at the interval check: the new state of the
  bot, the notifications it asked for and the requests sent to the venue.
\<close>

definition handleSignal ::
  "bot \<Rightarrow> binanceConfig option \<Rightarrow> venue \<Rightarrow> real \<Rightarrow> signal
     \<Rightarrow> bot \<times> notification list \<times> http_request list" where
  "handleSignal b ex v now sg =
     (let b1 = addLog b LSignal
                 (MsgSignalDetected (sig_type sg) (sig_score sg) (sig_entryPrice sg)) in
      case b_config b1 of
        None \<Rightarrow> (addLog b1 LInfo MsgDisabled, [], [])
      | Some cfg \<Rightarrow>
          if \<not> enabled cfg then (addLog b1 LInfo MsgDisabled, [], [])
          else if real (sig_score sg) < (if minScore cfg \<noteq> 0 then minScore cfg else 60) then
            (addLog b1 LInfo (MsgScoreBelowMinimum (sig_score sg) (minScore cfg)), [], [])
          else if now - lastOrderTime b1 < minOrderInterval then
            (addLog b1 LInfo MsgWaitingInterval, [], [])
          else if \<not> isConfigured ex then
            (addLog b1 LInfo MsgNotConfigured, [NotifySignalOnly sg], [])
          else
            (let b2 = addLog b1 LOrder (MsgExecuting (sig_type sg) (sig_entryPrice sg)) in
             case executeSignal ex v (toExecSignal cfg sg) of
               (result, rs) \<Rightarrow>
                 if success result then
                   (addLog (b2\<lparr>lastOrderTime := now, totalOrders := totalOrders b2 + 1\<rparr>)
                      LOrder (MsgExecuted (sig_type sg) result),
                    [NotifyExecuted sg result], rs)
                 else
                   (addLog b2 LError (MsgExecutionError (sig_type sg) (error result)),
                    [NotifyExecutionError sg (error result)], rs)))"

text \<open>
  The policy gate of \<open>handleSignal\<close>: the four checks that come before the execution
  attempt, all passed.
\<close>

definition passesGate :: "bot \<Rightarrow> binanceConfig option \<Rightarrow> real \<Rightarrow> signal \<Rightarrow> botConfig \<Rightarrow> bool" where
  "passesGate b ex now sg cfg =
     (b_config b = Some cfg \<and> enabled cfg
      \<and> \<not> real (sig_score sg) < (if minScore cfg \<noteq> 0 then minScore cfg else 60)
      \<and> \<not> now - lastOrderTime b < minOrderInterval
      \<and> isConfigured ex)"

section \<open>Vocabulary of the properties\<close>

text \<open>
  The invariant of the aggregator: History is strictly increasing in its bucket starts
  and within its bound; the open bar, when there is one, starts at \<open>lastCandleTime\<close>,
  after every closed bar; without an open bar History is empty.
\<close>

definition aggInv :: "detector \<Rightarrow> bool" where
  "aggInv s =
     (sorted_wrt (<) (map c_timestamp (candles s)) \<and> length (candles s) \<le> maxCandles
      \<and> (case currentCandle s of
            None \<Rightarrow> candles s = []
          | Some c \<Rightarrow> c_timestamp c = lastCandleTime s
                     \<and> list_all (\<lambda>x. c_timestamp x < lastCandleTime s) (candles s)))"

text \<open>
  The directional EMA ordering and the composite score of an analysis run, on the
  price and the indicators that \<open>analyzeMarket\<close> computes in the state.
\<close>

definition emaOrderingHolds :: "detector \<Rightarrow> bool" where
  "emaOrderingHolds s =
     (case (i_ema20 (computeIndicators s), i_ema50 (computeIndicators s)) of
        (Some ema20, Some ema50) \<Rightarrow>
          (currentPriceOf s > ema20 \<and> ema20 > ema50) \<or> (currentPriceOf s < ema20 \<and> ema20 < ema50)
      | _ \<Rightarrow> False)"

definition compositeScore :: "detector \<Rightarrow> nat" where
  "compositeScore s =
     (let ind = computeIndicators s in
      case (i_ema20 ind, i_ema50 ind, i_macd ind) of
        (Some ema20, Some ema50, Some m) \<Rightarrow>
          sc_score (scoreSignal (currentPriceOf s) ema20 ema50 (i_rsi ind) m)
      | _ \<Rightarrow> 0)"

text \<open>
  The closing-price series in the words of the specification: History's closes with
  the close of the current open bar appended.
\<close>

definition specCloses :: "detector \<Rightarrow> real list" where
  "specCloses s =
     map c_close (candles s) @ (case currentCandle s of None \<Rightarrow> [] | Some c \<Rightarrow> [c_close c])"

definition flatCandle :: "real \<Rightarrow> real \<Rightarrow> candle" where
  "flatCandle price ts =
     \<lparr>c_open = price, c_high = price, c_low = price, c_close = price, c_volume = 0,
      c_timestamp = ts\<rparr>"

text \<open>Negation, and the numbers that an operation can return.\<close>

fun js_negate :: "jsnum \<Rightarrow> jsnum" where
  "js_negate (Finite a) = Finite (- a)"
| "js_negate PosInfinity = NegInfinity"
| "js_negate NegInfinity = PosInfinity"
| "js_negate NaN = NaN"

definition isDouble :: "real \<Rightarrow> bool" where
  "isDouble y = (roundDouble y = Finite y)"

definition isRounded :: "jsnum \<Rightarrow> bool" where
  "isRounded m = (case m of Finite y \<Rightarrow> isDouble y | NaN \<Rightarrow> False | _ \<Rightarrow> True)"

text \<open>The double nearest to 0.9, and the MACD triple built from the rounded difference.\<close>

definition doubleOfNineTenths :: real where
  "doubleOfNineTenths = 8106479329266893 / 2 ^ 53"

definition macdFrom :: "jsnum \<Rightarrow> macd_result" where
  "macdFrom m =
     (let sg = js_times m (roundDouble (9 / 10)); h = js_minus m sg
      in \<lparr>macd = m, signal = sg, histogram = h\<rparr>)"

text \<open>
  The quantity times 1000, before \<open>Math.floor\<close>, as \<open>calculatePositionSize\<close> computes it
  from a finite balance.
\<close>

definition scaledQuantity :: "real \<Rightarrow> real \<Rightarrow> real \<Rightarrow> real \<Rightarrow> jsnum" where
  "scaledQuantity balance accountPercentage leverage entryPrice =
     js_times
       (js_divide
         (js_times
           (js_times (Finite balance) (js_divide (Finite accountPercentage) (Finite 100)))
           (Finite leverage))
         (Finite entryPrice))
       (Finite 1000)"

text \<open>
  The formula in the words of the specification,
  \<open>balance * accountPercentage / 100 * leverage / entryPrice * 1000\<close>, evaluated from left
  to right in double arithmetic.
\<close>

definition specScaledQuantity :: "real \<Rightarrow> real \<Rightarrow> real \<Rightarrow> real \<Rightarrow> jsnum" where
  "specScaledQuantity balance accountPercentage leverage entryPrice =
     js_times
       (js_divide
         (js_times
           (js_divide (js_times (Finite balance) (Finite accountPercentage)) (Finite 100))
           (Finite leverage))
         (Finite entryPrice))
       (Finite 1000)"

section \<open>Example states\<close>

text \<open>A History of 200 flat bars with an open bar in the next bucket.\<close>

definition fullState :: detector where
  "fullState =
     newDetector\<lparr>candles := replicate 200 (flatCandle 7 0),
                 currentCandle := Some (flatCandle 8 300000),
                 lastCandleTime := 300000\<rparr>"

text \<open>The state after seeding with two bars, the last one starting at 600000.\<close>

definition seededState :: detector where
  "seededState =
     loadHistoricalCandles newDetector (Inr [flatCandle 100 300000, flatCandle 101 600000])"

text \<open>A History of 50 flat bars at price 1 with an open bar at price 2.\<close>

definition flat50 :: detector where
  "flat50 =
     newDetector\<lparr>candles := replicate 50 (flatCandle 1 0),
                 currentCandle := Some (flatCandle 2 300000),
                 lastCandleTime := 300000\<rparr>"

text \<open>Fifteen closed bars of range 1 to 3 closing at 2, one per bucket, and no open bar.\<close>

definition atr15 :: detector where
  "atr15 =
     newDetector\<lparr>candles :=
                   map (\<lambda>i. \<lparr>c_open = 2, c_high = 3, c_low = 1, c_close = 2, c_volume = 0,
                               c_timestamp = 300000 * real i\<rparr>) [1 ..< 16],
                 lastCandleTime := 4500000\<rparr>"

text \<open>The state after the first tick, at price 200: an open bar and no closed bar.\<close>

definition firstTick :: detector where
  "firstTick = processPrice newDetector 200 300000"

text \<open>
  A configured executor; a venue with 1000 USDT available and no open position, which
  fills an order; the same venue holding a BTCUSDT position.
\<close>

definition cfgOk :: "binanceConfig option" where
  "cfgOk = Some \<lparr>apiKey = ''key'', apiSecret = ''secret'', testnet = True\<rparr>"

definition btcPosition :: position where
  "btcPosition =
     \<lparr>p_symbol = ''BTCUSDT'', positionAmt = Finite 0.01, p_entryPrice = ''50000'',
      unRealizedProfit = ''0'', p_leverage = ''15'', p_marginType = ''isolated''\<rparr>"

definition orderFilled :: order_data where
  "orderFilled =
     \<lparr>od_orderId = Some ''12345'', od_executedQty = Finite 0.03, od_avgPrice = Finite 50000\<rparr>"

definition venueFree :: venue where
  "venueFree =
     \<lparr>v_positionRisk = Inr [], v_leverage = Inr (), v_marginType = Inr (),
      v_balance = Inr [\<lparr>asset = ''USDT'', availableBalance = Finite 1000\<rparr>],
      v_order = Inr orderFilled\<rparr>"

definition venueHeld :: venue where
  "venueHeld = venueFree\<lparr>v_positionRisk := Inr [btcPosition]\<rparr>"

text \<open>A LONG signal at 50000 with score 75, and a bot enabled with the default policy.\<close>

definition longSignal :: signal where
  "longSignal =
     \<lparr>sig_type = LONG, sig_entryPrice = 50000, sig_stopLoss = 49250,
      sig_takeProfit1 = 51125, sig_takeProfit2 = 51875, sig_takeProfit3 = 53000,
      sig_score = 75, sig_reason = [TrendUp, MacdBullish, MomentumPositive],
      sig_timestamp = 1000000\<rparr>"

definition botPolicy :: botConfig where
  "botPolicy =
     \<lparr>enabled = True, bc_apiKey = ''key'', bc_apiSecret = ''secret'', bc_testnet = True,
      bc_leverage = 15, bc_accountPercentage = 10, minScore = 60,
      bc_marginType = ''ISOLATED''\<rparr>"

definition botOn :: bot where
  "botOn =
     \<lparr>b_config = Some botPolicy, b_isRunning = True, lastOrderTime = 0, totalOrders = 0,
      logs = [], b_currentPrice = 50000\<rparr>"

text \<open>
  The monitor with its socket open and the heartbeat running, and the monitor after
  that socket has closed, with a reconnect pending. The detector after \<open>start\<close> with
  the history request failing.
\<close>

definition monitorOpen :: monitor where
  "monitorOpen = pm_onOpen (pm_start newMonitor)"

definition monitorReconnecting :: monitor where
  "monitorReconnecting = pm_onClose monitorOpen"

definition detectorStarted :: detector where
  "detectorStarted = sd_start newDetector (Inl ''fetch failed'')"

text \<open>
  A rally: 30 closed bars closing at 100, then 20 closing at 102, each with a range of
  one above and one below its close; an open bar at 103; one subscriber.
\<close>

definition rangeBar :: "real \<Rightarrow> nat \<Rightarrow> candle" where
  "rangeBar c i =
     \<lparr>c_open = c, c_high = c + 1, c_low = c - 1, c_close = c, c_volume = 0,
      c_timestamp = 300000 * real i\<rparr>"

definition rally :: detector where
  "rally =
     newDetector\<lparr>candles := map (rangeBar 100) [1 ..< 31] @ map (rangeBar 102) [31 ..< 51],
                 currentCandle := Some (flatCandle 103 15300000),
                 lastCandleTime := 15300000,
                 callbacks := [7]\<rparr>"

text \<open>The MACD triple of the rally and the signal it produces at time 20000000.\<close>

definition rallyMacd :: macd_result where
  "rallyMacd =
     macdFrom (roundDouble ((102 - 2 * (11 / 13) ^ 20) - (102 - 2 * (25 / 27) ^ 20)))"

definition rallySignal :: signal where
  "rallySignal =
     \<lparr>sig_type = LONG, sig_entryPrice = 103, sig_stopLoss = 100,
      sig_takeProfit1 = 107.5, sig_takeProfit2 = 110.5, sig_takeProfit3 = 115,
      sig_score = 80, sig_reason = [TrendUp, MacdBullish, MomentumPositive, StrongTrend],
      sig_timestamp = 20000000\<rparr>"

text \<open>The venue with 3000 USDT available.\<close>

definition venue3000 :: venue where
  "venue3000 = venueFree\<lparr>v_balance := Inr [\<lparr>asset = ''USDT'', availableBalance = Finite 3000\<rparr>]\<rparr>"

text \<open>
  Series of 12 closes, for which EMA(12) is the mean and EMA(26) the last close: eleven
  at 99 and a last one at 111, with EMA(12) = 100 below EMA(26) = 111; eleven at 101
  and a last one at 89, with EMA(12) = 100 above EMA(26) = 89; and, in units of the
  smallest positive double, a first close of 10, ten of 0 and a last one of 2, with
  EMA(12) one unit and EMA(26) two units.
\<close>

definition smallestDouble :: real where
  "smallestDouble = 2 powi (- 1074)"

definition seriesBelow :: "real list" where
  "seriesBelow = replicate 11 99 @ [111]"

definition seriesAbove :: "real list" where
  "seriesAbove = replicate 11 101 @ [89]"

definition tinySeries :: "real list" where
  "tinySeries = [10 * smallestDouble] @ replicate 10 0 @ [2 * smallestDouble]"

text \<open>The rally with its open bar replaced by one of a later bucket and the same close.\<close>

definition rallyLater :: detector where
  "rallyLater = rally\<lparr>currentCandle := Some (flatCandle 103 15600000)\<rparr>"

section \<open>Properties of the rounding\<close>

lemma binadeUp_bounds: "1 \<le> x \<Longrightarrow> 2 powi binadeUp x \<le> x \<and> x < 2 powi (binadeUp x + 1)"
proof (induction x rule: binadeUp.induct)
  case (1 x)
  show ?case
  proof (cases "x < 2")
    case True
    with "1.prems" show ?thesis by (simp add: binadeUp.simps)
  next
    case False
    then have "1 \<le> x / 2" by simp
    with False "1.IH" have ih: "2 powi binadeUp (x / 2) \<le> x / 2"
      "x / 2 < 2 powi (binadeUp (x / 2) + 1)" by simp_all
    have e: "binadeUp x = binadeUp (x / 2) + 1"
      using False by (subst binadeUp.simps) simp
    have p: "(2::real) powi (k + 1) = 2 * 2 powi k" for k
      by (simp add: power_int_add)
    from ih show ?thesis unfolding e p by (intro conjI; linarith)
  qed
qed

lemma binadeDown_bounds:
  "0 < x \<Longrightarrow> x < 1 \<Longrightarrow> 2 powi binadeDown x \<le> x \<and> x < 2 powi (binadeDown x + 1)"
proof (induction x rule: binadeDown.induct)
  case (1 x)
  show ?case
  proof (cases "2 * x < 1")
    case True
    from "1.prems" have g: "\<not> (x \<le> 0 \<or> 1 \<le> x)" by simp
    from "1.prems" True "1.IH" [OF g] have ih: "2 powi binadeDown (2 * x) \<le> 2 * x"
      "2 * x < 2 powi (binadeDown (2 * x) + 1)" by simp_all
    have e: "binadeDown x = binadeDown (2 * x) - 1"
      using g by (subst binadeDown.simps) simp
    have p: "2 powi (binadeDown (2 * x) - 1 + 1) = (2::real) powi binadeDown (2 * x)" by simp
    have q: "(2::real) powi (binadeDown (2 * x) - 1) = 2 powi binadeDown (2 * x) / 2"
      by (simp add: power_int_diff)
    have r: "(2::real) powi (binadeDown (2 * x) + 1) = 2 * 2 powi binadeDown (2 * x)"
      by (simp add: power_int_add)
    from ih show ?thesis unfolding e p q r by simp
  next
    case False
    from "1.prems" have g: "\<not> (x \<le> 0 \<or> 1 \<le> x)" by simp
    from False "1.prems" have h: "1 \<le> 2 * x" by simp
    have "binadeDown (2 * x) = 0" using h by (subst binadeDown.simps) simp
    then have e: "binadeDown x = - 1"
      using g by (subst binadeDown.simps) simp
    from h "1.prems" show ?thesis unfolding e by (simp add: power_int_minus)
  qed
qed

lemma binade_bounds: "0 < x \<Longrightarrow> 2 powi binade x \<le> x \<and> x < 2 powi (binade x + 1)"
  using binadeUp_bounds [of x] binadeDown_bounds [of x]
  by (cases "1 \<le> x") (simp_all add: binade_def)

lemma pow2_less_iff: "(2::real) powi k < 2 powi j \<longleftrightarrow> k < j"
proof
  assume l: "(2::real) powi k < 2 powi j"
  show "k < j"
  proof (rule ccontr)
    assume "\<not> k < j"
    then have "j \<le> k" by simp
    then have "(2::real) powi j \<le> 2 powi k" by (rule power_int_increasing) simp
    with l show False by simp
  qed
next
  assume "k < j"
  then show "(2::real) powi k < 2 powi j" by (rule power_int_strict_increasing) simp
qed

lemma pow2_le_iff: "(2::real) powi k \<le> 2 powi j \<longleftrightarrow> k \<le> j"
  using pow2_less_iff [of j k] by (auto simp: not_less [symmetric])

lemma binade_unique:
  assumes "0 < x" "2 powi k \<le> x" "x < 2 powi (k + 1)"
  shows "binade x = k"
proof -
  from binade_bounds [OF assms(1)] have b: "2 powi binade x \<le> x" "x < 2 powi (binade x + 1)"
    by simp_all
  have "(2::real) powi k < 2 powi (binade x + 1)" using assms(2) b(2) by linarith
  then have "k < binade x + 1" by (simp add: pow2_less_iff)
  moreover have "(2::real) powi binade x < 2 powi (k + 1)" using assms(3) b(1) by linarith
  then have "binade x < k + 1" by (simp add: pow2_less_iff)
  ultimately show ?thesis by simp
qed

lemma binade_mono:
  assumes "0 < a" "a \<le> b"
  shows "binade a \<le> binade b"
proof -
  from assms have pb: "0 < b" by simp
  have "(2::real) powi binade a \<le> a" using binade_bounds [OF assms(1)] by simp
  also have "a \<le> b" by fact
  also have "b < 2 powi (binade b + 1)" using binade_bounds [OF pb] by simp
  finally have "binade a < binade b + 1" by (simp add: pow2_less_iff)
  then show ?thesis by simp
qed

lemma roundHalfEven_of_int: "roundHalfEven (of_int n) = n"
  by (simp add: roundHalfEven_def)

lemma roundHalfEven_floor: "\<lfloor>r\<rfloor> \<le> roundHalfEven r \<and> roundHalfEven r \<le> \<lfloor>r\<rfloor> + 1"
  by (simp add: roundHalfEven_def Let_def)

lemma roundHalfEven_mono:
  assumes "r \<le> r'"
  shows "roundHalfEven r \<le> roundHalfEven r'"
proof (cases "\<lfloor>r\<rfloor> = \<lfloor>r'\<rfloor>")
  case True
  from assms True have "r - of_int \<lfloor>r\<rfloor> \<le> r' - of_int \<lfloor>r'\<rfloor>" by simp
  with True show ?thesis by (auto simp: roundHalfEven_def Let_def)
next
  case False
  from assms have "\<lfloor>r\<rfloor> \<le> \<lfloor>r'\<rfloor>" by (rule floor_mono)
  with False have "\<lfloor>r\<rfloor> + 1 \<le> \<lfloor>r'\<rfloor>" by simp
  with roundHalfEven_floor [of r] roundHalfEven_floor [of r'] show ?thesis by linarith
qed

lemma roundHalfEven_error: "\<bar>of_int (roundHalfEven r) - r\<bar> \<le> 1 / 2"
proof -
  have "of_int \<lfloor>r\<rfloor> \<le> r" "r < of_int \<lfloor>r\<rfloor> + 1" by linarith+
  then show ?thesis by (auto simp: roundHalfEven_def Let_def)
qed

lemma roundHalfEven_ge: "of_int n \<le> r \<Longrightarrow> n \<le> roundHalfEven r"
  using roundHalfEven_mono [of "of_int n" r] by (simp add: roundHalfEven_of_int)

lemma roundHalfEven_le: "r \<le> of_int n \<Longrightarrow> roundHalfEven r \<le> n"
  using roundHalfEven_mono [of r "of_int n"] by (simp add: roundHalfEven_of_int)

lemma pow2_pos: "0 < (2::real) powi k"
  by simp

lemma pow2_split: "(2::real) powi (k + j) = 2 powi k * 2 powi j"
  by (simp add: power_int_add)

lemma pow2_53: "(2::real) powi (k + 1) = of_int (2 ^ 53) * 2 powi (k - 52)"
proof -
  have "k + 1 = 53 + (k - 52)" by simp
  then have "(2::real) powi (k + 1) = 2 powi (53 + (k - 52))" by (rule arg_cong)
  also have "\<dots> = 2 powi 53 * 2 powi (k - 52)" by (rule pow2_split)
  finally show ?thesis by simp
qed

lemma pow2_52: "(2::real) powi k = of_int (2 ^ 52) * 2 powi (k - 52)"
proof -
  have "k = 52 + (k - 52)" by simp
  then have "(2::real) powi k = 2 powi (52 + (k - 52))" by (rule arg_cong)
  also have "\<dots> = 2 powi 52 * 2 powi (k - 52)" by (rule pow2_split)
  finally show ?thesis by simp
qed

text \<open>The magnitude of a normal number stays in its binade, up to the next power of two.\<close>

lemma roundMagnitude_upper:
  assumes "0 < a"
  shows "roundMagnitude a \<le> 2 powi (max (binade a) (- 1022) + 1)"
proof -
  let ?k = "max (binade a) (- 1022)"
  let ?s = "(2::real) powi (?k - 52)"
  have s: "0 < ?s" by simp
  have "a < 2 powi (binade a + 1)" using binade_bounds [OF assms] by simp
  also have "\<dots> \<le> 2 powi (?k + 1)" by (simp add: pow2_le_iff)
  also have "\<dots> = of_int (2 ^ 53) * ?s"
    by (rule pow2_53)
  finally have "a / ?s \<le> of_int (2 ^ 53)" using s by (simp add: field_simps)
  then have "roundHalfEven (a / ?s) \<le> 2 ^ 53" by (rule roundHalfEven_le)
  then have "(of_int (roundHalfEven (a / ?s)) :: real) \<le> of_int (2 ^ 53)"
    by (simp only: of_int_le_iff)
  then have "of_int (roundHalfEven (a / ?s)) * ?s \<le> of_int (2 ^ 53) * ?s"
    using s by (simp only: mult_le_cancel_right_pos)
  also have "of_int (2 ^ 53) * ?s = 2 powi (?k + 1)"
    by (rule pow2_53 [symmetric])
  finally show ?thesis by (simp add: roundMagnitude_def ulpExponent_def)
qed

lemma roundMagnitude_lower:
  assumes "0 < a" "- 1022 \<le> binade a"
  shows "2 powi binade a \<le> roundMagnitude a"
proof -
  let ?k = "binade a"
  let ?s = "(2::real) powi (?k - 52)"
  have k: "max ?k (- 1022) = ?k" using assms(2) by simp
  have s: "0 < ?s" by simp
  have p: "(2::real) powi ?k = of_int (2 ^ 52) * ?s"
    using pow2_split [of 52 "?k - 52"] by simp
  have "of_int (2 ^ 52) * ?s \<le> a" using binade_bounds [OF assms(1)] p by simp
  then have "of_int (2 ^ 52) \<le> a / ?s" using s by (simp add: field_simps)
  then have "2 ^ 52 \<le> roundHalfEven (a / ?s)" by (rule roundHalfEven_ge)
  then have "(of_int (2 ^ 52) :: real) \<le> of_int (roundHalfEven (a / ?s))"
    by (simp only: of_int_le_iff)
  then have "of_int (2 ^ 52) * ?s \<le> of_int (roundHalfEven (a / ?s)) * ?s"
    using s by (simp only: mult_le_cancel_right_pos)
  then show ?thesis unfolding p by (simp add: roundMagnitude_def ulpExponent_def k)
qed

lemma roundMagnitude_nonneg:
  assumes "0 < a"
  shows "0 \<le> roundMagnitude a"
proof -
  have "0 \<le> a / 2 powi ulpExponent a" using assms by simp
  then have "0 \<le> roundHalfEven (a / 2 powi ulpExponent a)"
    using roundHalfEven_ge [of 0] by simp
  then show ?thesis by (simp add: roundMagnitude_def)
qed

lemma roundMagnitude_mono:
  assumes "0 < a" "a \<le> b"
  shows "roundMagnitude a \<le> roundMagnitude b"
proof -
  from assms have pb: "0 < b" by simp
  let ?ka = "max (binade a) (- 1022)"
  let ?kb = "max (binade b) (- 1022)"
  have le: "?ka \<le> ?kb" using binade_mono [OF assms] by simp
  show ?thesis
  proof (cases "?ka = ?kb")
    case True
    then have e: "ulpExponent a = ulpExponent b" by (simp add: ulpExponent_def)
    have "a / 2 powi ulpExponent b \<le> b / 2 powi ulpExponent b"
      using assms(2) by (simp add: divide_right_mono)
    then have "roundHalfEven (a / 2 powi ulpExponent b) \<le> roundHalfEven (b / 2 powi ulpExponent b)"
      by (rule roundHalfEven_mono)
    then have "(of_int (roundHalfEven (a / 2 powi ulpExponent b)) :: real)
        \<le> of_int (roundHalfEven (b / 2 powi ulpExponent b))"
      by (simp only: of_int_le_iff)
    then show ?thesis
      unfolding roundMagnitude_def e by (simp only: mult_le_cancel_right_pos pow2_pos)
  next
    case False
    with le have lt: "?ka + 1 \<le> ?kb" by simp
    then have nb: "- 1022 \<le> binade b" and kb: "?kb = binade b" by auto
    have "roundMagnitude a \<le> 2 powi (?ka + 1)" by (rule roundMagnitude_upper [OF assms(1)])
    also have "\<dots> \<le> 2 powi ?kb" using lt by (simp only: pow2_le_iff)
    also have "\<dots> = 2 powi binade b" by (simp only: kb)
    also have "\<dots> \<le> roundMagnitude b" by (rule roundMagnitude_lower [OF pb nb])
    finally show ?thesis .
  qed
qed

lemma ulpExponent_mono: "0 < a \<Longrightarrow> a \<le> b \<Longrightarrow> ulpExponent a \<le> ulpExponent b"
  using binade_mono [of a b] by (simp add: ulpExponent_def)

lemma ulpExponent_ge: "- 1074 \<le> ulpExponent a"
  by (simp add: ulpExponent_def)

lemma roundMagnitude_on_grid:
  assumes "y = of_int m * 2 powi ulpExponent y"
  shows "roundMagnitude y = y"
proof -
  have "y / 2 powi ulpExponent y = of_int m"
    using assms by (metis nonzero_mult_div_cancel_right pow2_pos less_irrefl)
  then show ?thesis
    using assms by (simp add: roundMagnitude_def roundHalfEven_of_int)
qed

lemma roundMagnitude_error:
  assumes "0 < a"
  shows "\<bar>roundMagnitude a - a\<bar> \<le> 2 powi ulpExponent a / 2"
proof -
  let ?s = "(2::real) powi ulpExponent a"
  have s: "0 < ?s" by simp
  have "roundMagnitude a - a = (of_int (roundHalfEven (a / ?s)) - a / ?s) * ?s"
    using s by (simp add: roundMagnitude_def field_simps)
  then have "\<bar>roundMagnitude a - a\<bar> = \<bar>of_int (roundHalfEven (a / ?s)) - a / ?s\<bar> * ?s"
    using s by (simp add: abs_mult)
  also have "\<dots> \<le> (1 / 2) * ?s"
    using roundHalfEven_error [of "a / ?s"] s by (simp only: mult_le_cancel_right_pos)
  finally show ?thesis by simp
qed

text \<open>Rounding a rounded magnitude changes nothing.\<close>

lemma roundMagnitude_idem:
  assumes "0 < a"
  shows "roundMagnitude (roundMagnitude a) = roundMagnitude a"
proof (cases "roundMagnitude a = 0")
  case True
  have "roundMagnitude 0 = 0" by (simp add: roundMagnitude_def roundHalfEven_def)
  with True show ?thesis by simp
next
  case False
  let ?k = "max (binade a) (- 1022)"
  let ?e = "?k - 52"
  let ?m = "roundHalfEven (a / 2 powi ?e)"
  let ?y = "roundMagnitude a"
  have y: "?y = of_int ?m * 2 powi ?e"
    by (simp add: roundMagnitude_def ulpExponent_def)
  from False roundMagnitude_nonneg [OF assms] have py: "0 < ?y" by simp
  have up: "?y \<le> 2 powi (?k + 1)" by (rule roundMagnitude_upper [OF assms])
  show ?thesis
  proof (cases "?y = 2 powi (?k + 1)")
    case True
    have "binade ?y = ?k + 1"
    proof (rule binade_unique [OF py])
      show "2 powi (?k + 1) \<le> ?y" using True by simp
      show "?y < 2 powi (?k + 1 + 1)" unfolding True by (simp only: pow2_less_iff)
    qed
    then have u: "ulpExponent ?y = ?k + 1 - 52" by (simp add: ulpExponent_def)
    note True
    also have "(2::real) powi (?k + 1) = of_int (2 ^ 52) * 2 powi (?k + 1 - 52)"
      by (rule pow2_52)
    also have "?k + 1 - 52 = ulpExponent ?y" by (rule u [symmetric])
    finally have "?y = of_int (2 ^ 52) * 2 powi ulpExponent ?y" .
    then show ?thesis by (rule roundMagnitude_on_grid)
  next
    case neq: False
    with up have lt: "?y < 2 powi (?k + 1)" by simp
    have "max (binade ?y) (- 1022) = ?k"
    proof (cases "- 1022 \<le> binade a")
      case True
      then have k: "?k = binade a" by simp
      have "2 powi binade a \<le> ?y" by (rule roundMagnitude_lower [OF assms True])
      with lt have "binade ?y = binade a"
        unfolding k by (intro binade_unique [OF py]) simp_all
      with True show ?thesis by simp
    next
      case False
      then have k: "?k = - 1022" by simp
      from lt have "?y < 2 powi (- 1022 + 1)" unfolding k by simp
      moreover have "2 powi binade ?y \<le> ?y" using binade_bounds [OF py] by simp
      ultimately have "(2::real) powi binade ?y < 2 powi (- 1022 + 1)" by linarith
      then have "binade ?y < - 1022 + 1" by (simp only: pow2_less_iff)
      with k show ?thesis by simp
    qed
    then have "ulpExponent ?y = ?e" by (simp add: ulpExponent_def)
    with y have "?y = of_int ?m * 2 powi ulpExponent ?y" by simp
    then show ?thesis by (rule roundMagnitude_on_grid)
  qed
qed

lemma roundMagnitude_grid: "\<exists>n::int. roundMagnitude a = of_int n * 2 powi (- 1074)"
proof -
  let ?e = "ulpExponent a"
  have ge: "0 \<le> ?e + 1074" using ulpExponent_ge [of a] by simp
  have "(2::real) powi ?e = 2 powi (?e + 1074) * 2 powi (- 1074)"
    using pow2_split [of "?e + 1074" "- 1074"] by simp
  also have "(2::real) powi (?e + 1074) = of_int (2 ^ nat (?e + 1074))"
    using ge by (simp add: power_int_def)
  finally have "roundMagnitude a
      = of_int (roundHalfEven (a / 2 powi ?e) * 2 ^ nat (?e + 1074)) * 2 powi (- 1074)"
    by (simp add: roundMagnitude_def)
  then show ?thesis by blast
qed

lemma roundDouble_pos:
  "0 < x \<Longrightarrow> roundDouble x =
     (if 2 ^ 1024 \<le> roundMagnitude x then PosInfinity else Finite (roundMagnitude x))"
  by (simp add: roundDouble_def Let_def)

lemma roundDouble_neg:
  "x < 0 \<Longrightarrow> roundDouble x =
     (if 2 ^ 1024 \<le> roundMagnitude (- x) then NegInfinity else Finite (- roundMagnitude (- x)))"
  by (simp add: roundDouble_def Let_def)

lemma roundDouble_zero: "roundDouble 0 = Finite 0"
  by (simp add: roundDouble_def)

lemma roundDouble_not_NaN: "roundDouble x \<noteq> NaN"
  by (simp add: roundDouble_def Let_def)

lemma roundDouble_minus: "roundDouble (- x) = js_negate (roundDouble x)"
proof -
  consider "x = 0" | "0 < x" | "x < 0" by linarith
  then show ?thesis
  proof cases
    case 1
    then show ?thesis by (simp add: roundDouble_zero)
  next
    case 2
    then have "- x < 0" by simp
    from roundDouble_neg [OF this] roundDouble_pos [OF 2] show ?thesis by simp
  next
    case 3
    then have "0 < - x" by simp
    from roundDouble_pos [OF this] roundDouble_neg [OF 3] show ?thesis by simp
  qed
qed

lemma roundDouble_sign:
  "0 \<le> x \<Longrightarrow> js_le (Finite 0) (roundDouble x)"
  "x \<le> 0 \<Longrightarrow> js_le (roundDouble x) (Finite 0)"
proof -
  show "js_le (Finite 0) (roundDouble x)" if "0 \<le> x"
  proof (cases "x = 0")
    case True
    then show ?thesis by (simp add: roundDouble_zero)
  next
    case False
    with that have p: "0 < x" by simp
    from roundMagnitude_nonneg [OF p] show ?thesis by (simp add: roundDouble_pos [OF p])
  qed
  show "js_le (roundDouble x) (Finite 0)" if "x \<le> 0"
  proof (cases "x = 0")
    case True
    then show ?thesis by (simp add: roundDouble_zero)
  next
    case False
    with that have n: "x < 0" by simp
    then have p: "0 < - x" by simp
    from roundMagnitude_nonneg [OF p] show ?thesis by (simp add: roundDouble_neg [OF n])
  qed
qed

lemma js_le_trans: "js_le a b \<Longrightarrow> js_le b c \<Longrightarrow> js_le a c"
  by (cases a; cases b; cases c) simp_all

text \<open>Rounding is monotone.\<close>

lemma roundDouble_mono:
  assumes "x \<le> y"
  shows "js_le (roundDouble x) (roundDouble y)"
proof -
  consider "x \<le> 0 \<and> 0 \<le> y" | "0 < x" | "y < 0" using assms by linarith
  then show ?thesis
  proof cases
    case 1
    then show ?thesis
      using js_le_trans [OF roundDouble_sign(2) [of x] roundDouble_sign(1) [of y]] by simp
  next
    case 2
    with assms have py: "0 < y" by simp
    from roundMagnitude_mono [OF 2 assms] show ?thesis
      by (simp add: roundDouble_pos [OF 2] roundDouble_pos [OF py])
  next
    case 3
    with assms have nx: "x < 0" by simp
    from 3 assms have "0 < - y" "- y \<le> - x" by simp_all
    from roundMagnitude_mono [OF this] show ?thesis
      by (simp add: roundDouble_neg [OF 3] roundDouble_neg [OF nx])
  qed
qed

lemma roundDouble_idem:
  assumes "roundDouble x = Finite y"
  shows "roundDouble y = Finite y"
proof -
  consider "x = 0" | "0 < x" | "x < 0" by linarith
  then show ?thesis
  proof cases
    case 1
    with assms show ?thesis by (simp add: roundDouble_zero)
  next
    case 2
    from assms have y: "y = roundMagnitude x" and lt: "\<not> 2 ^ 1024 \<le> roundMagnitude x"
      by (simp_all add: roundDouble_pos [OF 2] split: if_splits)
    show ?thesis
    proof (cases "y = 0")
      case True
      then show ?thesis by (simp add: roundDouble_zero)
    next
      case False
      with y roundMagnitude_nonneg [OF 2] have py: "0 < y" by simp
      have rm: "roundMagnitude y = y" unfolding y by (rule roundMagnitude_idem [OF 2])
      from lt have lty: "\<not> 2 ^ 1024 \<le> y" unfolding y .
      from roundDouble_pos [OF py] lty show ?thesis by (simp only: rm if_False)
    qed
  next
    case 3
    then have p: "0 < - x" by simp
    from assms have y: "y = - roundMagnitude (- x)"
      and lt: "\<not> 2 ^ 1024 \<le> roundMagnitude (- x)"
      by (simp_all add: roundDouble_neg [OF 3] split: if_splits)
    show ?thesis
    proof (cases "y = 0")
      case True
      then show ?thesis by (simp add: roundDouble_zero)
    next
      case False
      with y roundMagnitude_nonneg [OF p] have ny: "y < 0" by simp
      have my: "- y = roundMagnitude (- x)" using y by simp
      have rm: "roundMagnitude (- y) = - y" unfolding my by (rule roundMagnitude_idem [OF p])
      from lt have lty: "\<not> 2 ^ 1024 \<le> - y" unfolding my .
      from roundDouble_neg [OF ny] lty show ?thesis by (simp only: rm if_False minus_minus)
    qed
  qed
qed

lemma roundDouble_grid:
  assumes "roundDouble x = Finite y"
  shows "\<exists>n::int. y = of_int n * 2 powi (- 1074)"
proof -
  consider "x = 0" | "0 < x" | "x < 0" by linarith
  then show ?thesis
  proof cases
    case 1
    with assms have "y = of_int 0 * 2 powi (- 1074)" by (simp add: roundDouble_zero)
    then show ?thesis by blast
  next
    case 2
    from assms have y: "y = roundMagnitude x"
      by (simp_all add: roundDouble_pos [OF 2] split: if_splits)
    with roundMagnitude_grid [of x] show ?thesis by simp
  next
    case 3
    from assms have y: "y = - roundMagnitude (- x)"
      by (simp_all add: roundDouble_neg [OF 3] split: if_splits)
    from roundMagnitude_grid [of "- x"] obtain n :: int
      where "roundMagnitude (- x) = of_int n * 2 powi (- 1074)" by blast
    with y have "y = of_int (- n) * 2 powi (- 1074)" by simp
    then show ?thesis by blast
  qed
qed

text \<open>Rounding a positive number whose binade is known, in the normal range.\<close>

lemma roundDouble_eval:
  assumes "2 powi k \<le> x" "x < 2 powi (k + 1)" "- 1022 \<le> k" "k \<le> 1022"
  shows "roundDouble x = Finite (of_int (roundHalfEven (x / 2 powi (k - 52))) * 2 powi (k - 52))"
proof -
  have px: "0 < x" using assms(1) pow2_pos [of k] by linarith
  have b: "binade x = k" by (rule binade_unique [OF px assms(1,2)])
  then have u: "ulpExponent x = k - 52" using assms(3) by (simp add: ulpExponent_def)
  have "roundMagnitude x \<le> 2 powi (max (binade x) (- 1022) + 1)"
    by (rule roundMagnitude_upper [OF px])
  also have "max (binade x) (- 1022) + 1 = k + 1" using b assms(3) by simp
  also have "(2::real) powi (k + 1) \<le> 2 powi 1023" using assms(4) by (simp only: pow2_le_iff)
  also have "(2::real) powi 1023 < 2 ^ 1024" by simp
  finally have "\<not> 2 ^ 1024 \<le> roundMagnitude x" by simp
  then have "roundDouble x = Finite (roundMagnitude x)" by (simp only: roundDouble_pos [OF px] if_False)
  then show ?thesis by (simp only: roundMagnitude_def u)
qed

lemma round_nine_tenths: "roundDouble (9 / 10) = Finite doubleOfNineTenths"
proof -
  have "roundDouble (9 / 10)
      = Finite (of_int (roundHalfEven ((9 / 10) / 2 powi (- 1 - 52))) * 2 powi (- 1 - 52))"
    by (rule roundDouble_eval) simp_all
  also have "roundHalfEven ((9 / 10) / 2 powi (- 1 - 52)) = 8106479329266893"
    by (simp add: roundHalfEven_def Let_def)
  finally show ?thesis by (simp add: doubleOfNineTenths_def)
qed

lemma nine_tenths_bounds:
  "0 < doubleOfNineTenths" "doubleOfNineTenths < 1"
  "1 / 2 < 6 * (1 - doubleOfNineTenths)" "1 / 2 ^ 53 < 1 - doubleOfNineTenths"
  by (simp_all add: doubleOfNineTenths_def)

lemma isDouble_idem: "roundDouble x = Finite y \<Longrightarrow> isDouble y"
  by (simp add: isDouble_def roundDouble_idem)

lemma js_le_not_less: "js_le a b \<Longrightarrow> \<not> js_less b a"
  by (cases a; cases b) simp_all

text \<open>The product with 0.9 of a double stays between zero and the double.\<close>

lemma times_nine_tenths_pos:
  assumes "isDouble y" "0 \<le> y"
  shows "\<exists>sg. roundDouble (y * doubleOfNineTenths) = Finite sg \<and> 0 \<le> sg \<and> sg \<le> y
           \<and> isDouble sg"
proof -
  let ?p = "y * doubleOfNineTenths"
  have "0 \<le> ?p" "?p \<le> y"
    using assms(2) nine_tenths_bounds(1,2) by (simp_all add: mult_left_le)
  from roundDouble_sign(1) [OF this(1)] roundDouble_mono [OF this(2)] assms(1)
  have "js_le (Finite 0) (roundDouble ?p)" "js_le (roundDouble ?p) (Finite y)"
    by (simp_all add: isDouble_def)
  then obtain sg where "roundDouble ?p = Finite sg" "0 \<le> sg" "sg \<le> y"
    by (cases "roundDouble ?p") simp_all
  with isDouble_idem [of ?p sg] show ?thesis by blast
qed

lemma times_nine_tenths_neg:
  assumes "isDouble y" "y \<le> 0"
  shows "\<exists>sg. roundDouble (y * doubleOfNineTenths) = Finite sg \<and> y \<le> sg \<and> sg \<le> 0
           \<and> isDouble sg"
proof -
  let ?p = "y * doubleOfNineTenths"
  have "0 \<le> (- y) * (1 - doubleOfNineTenths)"
    using assms(2) nine_tenths_bounds(2) by (intro mult_nonneg_nonneg) simp_all
  then have "y \<le> ?p" by (simp add: algebra_simps)
  moreover have "?p \<le> 0"
    using assms(2) nine_tenths_bounds(1) by (simp add: mult_nonpos_nonneg)
  ultimately have "?p \<le> 0" "y \<le> ?p" by simp_all
  from roundDouble_sign(2) [OF this(1)] roundDouble_mono [OF this(2)] assms(1)
  have "js_le (roundDouble ?p) (Finite 0)" "js_le (Finite y) (roundDouble ?p)"
    by (simp_all add: isDouble_def)
  then obtain sg where "roundDouble ?p = Finite sg" "sg \<le> 0" "y \<le> sg"
    by (cases "roundDouble ?p") simp_all
  with isDouble_idem [of ?p sg] show ?thesis by blast
qed

lemma smallest_double: "roundDouble (2 powi (- 1074)) = Finite (2 powi (- 1074))"
proof -
  let ?g = "(2::real) powi (- 1074)"
  have pg: "0 < ?g" by simp
  have "?g < 2 powi (- 1074 + 1)" by (simp only: pow2_less_iff)
  then have "binade ?g = - 1074" by (intro binade_unique [OF pg]) simp_all
  then have u: "ulpExponent ?g = - 1074" by (simp add: ulpExponent_def)
  have "?g = of_int 1 * 2 powi ulpExponent ?g" by (simp only: u)
  then have rm: "roundMagnitude ?g = ?g" by (rule roundMagnitude_on_grid)
  have "?g \<le> 2 powi 0" by (simp only: pow2_le_iff; simp)
  then have "\<not> 2 ^ 1024 \<le> ?g" by simp
  with roundDouble_pos [OF pg] show ?thesis by (simp only: rm if_False)
qed

text \<open>
  The rounded difference of two doubles has the sign of the exact difference: two
  distinct doubles differ by at least the smallest double.
\<close>

lemma difference_positive:
  assumes "isDouble a" "isDouble b"
  shows "js_less (Finite 0) (roundDouble (a - b)) = (b < a)"
proof (cases "b < a")
  case True
  let ?g = "(2::real) powi (- 1074)"
  from assms obtain n n' :: int where a: "a = of_int n * ?g" and b: "b = of_int n' * ?g"
    using roundDouble_grid [of a a] roundDouble_grid [of b b] by (auto simp: isDouble_def)
  from True have "of_int n' * ?g < of_int n * ?g" unfolding a b .
  then have "(of_int n' :: real) < of_int n" by (simp only: mult_less_cancel_right_pos pow2_pos)
  then have "n' + 1 \<le> n" by simp
  then have "(of_int (n' + 1) :: real) \<le> of_int n" by (simp only: of_int_le_iff)
  then have "of_int (n' + 1) * ?g \<le> of_int n * ?g"
    by (simp only: mult_le_cancel_right_pos pow2_pos)
  then have "?g \<le> a - b" unfolding a b by (simp add: algebra_simps)
  from roundDouble_mono [OF this] have "js_le (Finite ?g) (roundDouble (a - b))"
    by (simp only: smallest_double)
  then have "js_less (Finite 0) (roundDouble (a - b))"
    using pow2_pos [of "- 1074"] by (cases "roundDouble (a - b)") simp_all
  with True show ?thesis by simp
next
  case False
  then have "a - b \<le> 0" by simp
  from js_le_not_less [OF roundDouble_sign(2) [OF this]] False show ?thesis by simp
qed

lemma js_less_negate: "js_less (js_negate a) (js_negate b) = js_less b a"
  by (cases a; cases b) simp_all

lemma difference_negative:
  assumes "isDouble a" "isDouble b"
  shows "js_less (roundDouble (a - b)) (Finite 0) = (a < b)"
proof -
  have "roundDouble (a - b) = js_negate (roundDouble (b - a))"
    using roundDouble_minus [of "b - a"] by simp
  then have "js_less (roundDouble (a - b)) (Finite 0)
      = js_less (js_negate (roundDouble (b - a))) (js_negate (Finite 0))" by simp
  also have "\<dots> = js_less (Finite 0) (roundDouble (b - a))" by (rule js_less_negate)
  also have "\<dots> = (a < b)" by (rule difference_positive [OF assms(2,1)])
  finally show ?thesis .
qed

text \<open>
  From six times the smallest double on, the product with 0.9 rounds strictly below
  the double: the rounding error is at most half a unit in the last place.
\<close>

lemma times_nine_tenths_below:
  assumes "isDouble y" "6 * 2 powi (- 1074) \<le> y"
    and "roundDouble (y * doubleOfNineTenths) = Finite sg"
  shows "sg < y"
proof -
  let ?g = "(2::real) powi (- 1074)"
  let ?c = doubleOfNineTenths
  let ?p = "y * ?c"
  have pg: "0 < ?g" by simp
  with assms(2) have py: "0 < y" by linarith
  with nine_tenths_bounds(1) have pp: "0 < ?p" by simp
  have ple: "?p \<le> y" using py nine_tenths_bounds(1,2) by (simp add: mult_left_le)
  from assms(3) have sg: "sg = roundMagnitude ?p"
    by (simp add: roundDouble_pos [OF pp] split: if_splits)
  have "roundMagnitude ?p - ?p \<le> \<bar>roundMagnitude ?p - ?p\<bar>" by simp
  also have "\<dots> \<le> 2 powi ulpExponent ?p / 2" by (rule roundMagnitude_error [OF pp])
  also have "\<dots> \<le> 2 powi ulpExponent y / 2"
    using ulpExponent_mono [OF pp ple] by (simp add: pow2_le_iff)
  also have "\<dots> < y * (1 - ?c)"
  proof (cases "- 1022 \<le> binade y")
    case True
    then have u: "ulpExponent y = binade y - 52" by (simp add: ulpExponent_def)
    have "of_int (2 ^ 52) * 2 powi ulpExponent y \<le> y"
      using binade_bounds [OF py] pow2_52 [of "binade y"] by (simp only: u)
    then have "2 powi ulpExponent y / 2 \<le> y * (1 / 2 ^ 53)" by simp
    also have "\<dots> < y * (1 - ?c)"
      using py nine_tenths_bounds(4) by (simp only: mult_less_cancel_left_pos)
    finally show ?thesis .
  next
    case False
    then have u: "ulpExponent y = - 1074" by (simp add: ulpExponent_def)
    have "?g / 2 = ?g * (1 / 2)" by simp
    also have "\<dots> < ?g * (6 * (1 - ?c))"
      using pg nine_tenths_bounds(3) by (simp only: mult_less_cancel_left_pos)
    also have "\<dots> = (6 * ?g) * (1 - ?c)" by simp
    also have "\<dots> \<le> y * (1 - ?c)"
      using assms(2) nine_tenths_bounds(2) by (intro mult_right_mono) simp_all
    finally show ?thesis by (simp only: u)
  qed
  finally have "roundMagnitude ?p < ?p + y * (1 - ?c)" by simp
  also have "?p + y * (1 - ?c) = y" by (simp add: algebra_simps)
  finally show ?thesis by (simp only: sg)
qed

lemma isRounded_roundDouble: "isRounded (roundDouble d)"
  by (cases "roundDouble d") (simp_all add: isRounded_def isDouble_idem roundDouble_not_NaN)

lemma macdFrom_fields:
  "macd (macdFrom m) = m"
  "signal (macdFrom m) = js_times m (Finite doubleOfNineTenths)"
  "histogram (macdFrom m) = js_minus m (js_times m (Finite doubleOfNineTenths))"
  by (simp_all add: macdFrom_def Let_def round_nine_tenths)

lemma signal_is_double:
  assumes "isDouble y"
  shows "\<exists>sg. js_times (Finite y) (Finite doubleOfNineTenths) = Finite sg \<and> isDouble sg
           \<and> (0 \<le> y \<longrightarrow> sg \<le> y) \<and> (y \<le> 0 \<longrightarrow> y \<le> sg)"
proof (cases "0 \<le> y")
  case True
  from times_nine_tenths_pos [OF assms True] obtain sg where
    "roundDouble (y * doubleOfNineTenths) = Finite sg" "0 \<le> sg" "sg \<le> y" "isDouble sg" by blast
  with True show ?thesis by auto
next
  case False
  then have n: "y \<le> 0" by simp
  from times_nine_tenths_neg [OF assms n] obtain sg where
    "roundDouble (y * doubleOfNineTenths) = Finite sg" "y \<le> sg" "sg \<le> 0" "isDouble sg" by blast
  with False show ?thesis by auto
qed

text \<open>The two tests of each direction agree.\<close>

lemma histogram_sign:
  assumes "isRounded m"
  shows "js_less (Finite 0) (histogram (macdFrom m)) = js_less (signal (macdFrom m)) m"
    and "js_less (histogram (macdFrom m)) (Finite 0) = js_less m (signal (macdFrom m))"
proof -
  have "js_less (Finite 0) (histogram (macdFrom m)) = js_less (signal (macdFrom m)) m
      \<and> js_less (histogram (macdFrom m)) (Finite 0) = js_less m (signal (macdFrom m))"
  proof (cases m)
    case (Finite y)
    with assms have d: "isDouble y" by (simp add: isRounded_def)
    from signal_is_double [OF d] obtain sg where
      sg: "js_times (Finite y) (Finite doubleOfNineTenths) = Finite sg" "isDouble sg" by blast
    show ?thesis
      unfolding macdFrom_fields Finite sg
      using difference_positive [OF d sg(2)] difference_negative [OF d sg(2)] by simp
  next
    case PosInfinity
    then show ?thesis using nine_tenths_bounds(1) by (simp add: macdFrom_fields)
  next
    case NegInfinity
    then show ?thesis using nine_tenths_bounds(1) by (simp add: macdFrom_fields)
  next
    case NaN
    then show ?thesis by (simp add: macdFrom_fields)
  qed
  then show "js_less (Finite 0) (histogram (macdFrom m)) = js_less (signal (macdFrom m)) m"
    and "js_less (histogram (macdFrom m)) (Finite 0) = js_less m (signal (macdFrom m))"
    by simp_all
qed

text \<open>A test that holds fixes the sign of the exact difference.\<close>

lemma signal_below_positive:
  assumes "js_less (signal (macdFrom (roundDouble d))) (roundDouble d)"
  shows "0 < d"
proof (rule ccontr)
  assume "\<not> 0 < d"
  then have "d \<le> 0" by simp
  from roundDouble_sign(2) [OF this] have le: "js_le (roundDouble d) (Finite 0)" .
  show False
  proof (cases "roundDouble d")
    case (Finite y)
    with le have y: "y \<le> 0" by simp
    from Finite have "isDouble y" by (rule isDouble_idem)
    from signal_is_double [OF this] y obtain sg where
      "js_times (Finite y) (Finite doubleOfNineTenths) = Finite sg" "y \<le> sg" by blast
    with assms Finite show False by (simp add: macdFrom_fields)
  next
    case PosInfinity
    with le show False by simp
  next
    case NegInfinity
    with assms nine_tenths_bounds(1) show False by (simp add: macdFrom_fields)
  next
    case NaN
    with le show False by simp
  qed
qed

lemma signal_above_negative:
  assumes "js_less (roundDouble d) (signal (macdFrom (roundDouble d)))"
  shows "d < 0"
proof (rule ccontr)
  assume "\<not> d < 0"
  then have "0 \<le> d" by simp
  from roundDouble_sign(1) [OF this] have le: "js_le (Finite 0) (roundDouble d)" .
  show False
  proof (cases "roundDouble d")
    case (Finite y)
    with le have y: "0 \<le> y" by simp
    from Finite have "isDouble y" by (rule isDouble_idem)
    from signal_is_double [OF this] y obtain sg where
      "js_times (Finite y) (Finite doubleOfNineTenths) = Finite sg" "sg \<le> y" by blast
    with assms Finite show False by (simp add: macdFrom_fields)
  next
    case PosInfinity
    with assms nine_tenths_bounds(1) show False by (simp add: macdFrom_fields)
  next
    case NegInfinity
    with le show False by simp
  next
    case NaN
    with le show False by simp
  qed
qed

lemma six_smallest: "roundDouble (6 * 2 powi (- 1074)) = Finite (6 * 2 powi (- 1074))"
proof -
  let ?x = "6 * (2::real) powi (- 1074)"
  have px: "0 < ?x" by simp
  have e: "(2::real) powi (- 1072) = 4 * 2 powi (- 1074)" "(2::real) powi (- 1072 + 1) = 8 * 2 powi (- 1074)"
    using pow2_split [of 2 "- 1074"] pow2_split [of 3 "- 1074"] by simp_all
  have "binade ?x = - 1072"
    by (rule binade_unique [OF px]) (simp_all only: e, simp_all)
  then have u: "ulpExponent ?x = - 1074" by (simp add: ulpExponent_def)
  have "?x = of_int 6 * 2 powi ulpExponent ?x" by (simp only: u; simp)
  then have rm: "roundMagnitude ?x = ?x" by (rule roundMagnitude_on_grid)
  have "?x \<le> 6 * 2 powi 0" by (simp only: mult_le_cancel_left_pos pow2_le_iff; simp)
  then have "\<not> 2 ^ 1024 \<le> ?x" by simp
  with roundDouble_pos [OF px] show ?thesis by (simp only: rm if_False)
qed

lemma times_nine_tenths_above:
  assumes "isDouble y" "y \<le> - (6 * 2 powi (- 1074))"
    and "roundDouble (y * doubleOfNineTenths) = Finite sg"
  shows "y < sg"
proof -
  have d: "isDouble (- y)" using assms(1) roundDouble_minus [of y] by (simp add: isDouble_def)
  have "roundDouble ((- y) * doubleOfNineTenths) = Finite (- sg)"
    using assms(3) roundDouble_minus [of "y * doubleOfNineTenths"] by simp
  from times_nine_tenths_below [OF d _ this] assms(2) show ?thesis by simp
qed

text \<open>From six times the smallest double on, the sign of the difference decides the test.\<close>

lemma aligned_from_difference:
  shows "6 * 2 powi (- 1074) \<le> d \<Longrightarrow> roundDouble d \<noteq> PosInfinity
           \<Longrightarrow> js_less (signal (macdFrom (roundDouble d))) (roundDouble d)"
    and "d \<le> - (6 * 2 powi (- 1074)) \<Longrightarrow> roundDouble d \<noteq> NegInfinity
           \<Longrightarrow> js_less (roundDouble d) (signal (macdFrom (roundDouble d)))"
proof -
  let ?s = "6 * (2::real) powi (- 1074)"
  show "js_less (signal (macdFrom (roundDouble d))) (roundDouble d)"
    if h: "?s \<le> d" "roundDouble d \<noteq> PosInfinity"
  proof -
    from roundDouble_mono [OF h(1)] have "js_le (Finite ?s) (roundDouble d)"
      by (simp only: six_smallest)
    with h(2) obtain y where y: "roundDouble d = Finite y" "?s \<le> y"
      by (cases "roundDouble d") simp_all
    from y(1) have dy: "isDouble y" by (rule isDouble_idem)
    from signal_is_double [OF dy] obtain sg where
      sg: "js_times (Finite y) (Finite doubleOfNineTenths) = Finite sg" by blast
    then have rd: "roundDouble (y * doubleOfNineTenths) = Finite sg" by simp
    from times_nine_tenths_below [OF dy y(2) rd] show ?thesis
      by (simp add: macdFrom_fields y(1) rd)
  qed
  show "js_less (roundDouble d) (signal (macdFrom (roundDouble d)))"
    if h: "d \<le> - ?s" "roundDouble d \<noteq> NegInfinity"
  proof -
    from roundDouble_mono [OF h(1)] have "js_le (roundDouble d) (js_negate (Finite ?s))"
      using roundDouble_minus [of ?s] by (simp only: six_smallest)
    with h(2) obtain y where y: "roundDouble d = Finite y" "y \<le> - ?s"
      by (cases "roundDouble d") simp_all
    from y(1) have dy: "isDouble y" by (rule isDouble_idem)
    from signal_is_double [OF dy] obtain sg where
      sg: "js_times (Finite y) (Finite doubleOfNineTenths) = Finite sg" by blast
    then have rd: "roundDouble (y * doubleOfNineTenths) = Finite sg" by simp
    from times_nine_tenths_above [OF dy y(2) rd] show ?thesis
      by (simp add: macdFrom_fields y(1) rd)
  qed
qed

text \<open>Rounding with the binade and the rounded quotient given.\<close>

lemma roundDouble_value:
  assumes "2 powi k \<le> x" "x < 2 powi (k + 1)" "- 1022 \<le> k" "k \<le> 1022"
    and "roundHalfEven (x / 2 powi (k - 52)) = n"
  shows "roundDouble x = Finite (of_int n * 2 powi (k - 52))"
  using roundDouble_eval [OF assms(1-4)] assms(5) by simp

lemma roundDouble_subnormal:
  assumes "0 < x" "x < 2 powi (- 1022)"
    and "roundHalfEven (x / 2 powi (- 1074)) = n"
  shows "roundDouble x = Finite (of_int n * 2 powi (- 1074))"
proof -
  have "(2::real) powi binade x < 2 powi (- 1022)"
    using binade_bounds [OF assms(1)] assms(2) by linarith
  then have b: "binade x < - 1022" by (simp only: pow2_less_iff)
  then have u: "ulpExponent x = - 1074" by (simp add: ulpExponent_def)
  have "roundMagnitude x \<le> 2 powi (max (binade x) (- 1022) + 1)"
    by (rule roundMagnitude_upper [OF assms(1)])
  also have "(2::real) powi (max (binade x) (- 1022) + 1) \<le> 2 powi 0"
    using b by (simp only: pow2_le_iff; simp)
  finally have "\<not> 2 ^ 1024 \<le> roundMagnitude x" by simp
  then have "roundDouble x = Finite (roundMagnitude x)"
    by (simp only: roundDouble_pos [OF assms(1)] if_False)
  then show ?thesis using assms(3) by (simp only: roundMagnitude_def u)
qed

section \<open>The aggregator's History\<close>

lemma sorted_wrt_tl: "sorted_wrt P xs \<Longrightarrow> sorted_wrt P (tl xs)"
  by (cases xs) auto

lemma pushCandle_length: "length cs \<le> maxCandles \<Longrightarrow> length (pushCandle cs c) \<le> maxCandles"
  by (auto simp: pushCandle_def Let_def)

lemma pushCandle_set: "set (pushCandle cs c) \<subseteq> insert c (set cs)"
proof -
  have "set (tl (cs @ [c])) \<subseteq> set (cs @ [c])"
    by (cases "cs @ [c]") auto
  then show ?thesis
    by (auto simp: pushCandle_def Let_def)
qed

lemma pushCandle_sorted:
  assumes "sorted_wrt (<) (map c_timestamp cs)"
    and "list_all (\<lambda>x. c_timestamp x < c_timestamp c) cs"
  shows "sorted_wrt (<) (map c_timestamp (pushCandle cs c))"
proof -
  have full: "sorted_wrt (<) (map c_timestamp (cs @ [c]))"
    using assms by (auto simp: sorted_wrt_append list_all_iff)
  then have "sorted_wrt (<) (map c_timestamp (tl (cs @ [c])))"
    using sorted_wrt_tl [of "(<)" "map c_timestamp (cs @ [c])"] by (simp add: map_tl)
  with full show ?thesis
    by (simp add: pushCandle_def Let_def)
qed

text \<open>One tick keeps the invariant: a bar is closed only when a later bucket opens.\<close>

lemma aggInv_processPrice: "aggInv s \<Longrightarrow> aggInv (processPrice s price ts)"
proof (cases "candleTimeOf ts > lastCandleTime s")
  case False
  assume "aggInv s"
  with False show ?thesis
    by (auto simp: aggInv_def processPrice_def Let_def split: option.splits)
next
  case True
  assume inv: "aggInv s"
  show ?thesis
  proof (cases "currentCandle s")
    case None
    with inv True show ?thesis
      by (simp add: aggInv_def processPrice_def Let_def)
  next
    case (Some c)
    with inv have ts: "c_timestamp c = lastCandleTime s"
      and below: "list_all (\<lambda>x. c_timestamp x < c_timestamp c) (candles s)"
      and srt: "sorted_wrt (<) (map c_timestamp (candles s))"
      and len: "length (candles s) \<le> maxCandles"
      by (simp_all add: aggInv_def)
    have "list_all (\<lambda>x. c_timestamp x < candleTimeOf ts) (pushCandle (candles s) c)"
      using pushCandle_set [of "candles s" c] below ts True
      by (fastforce simp: list_all_iff)
    with Some True pushCandle_sorted [OF srt below] pushCandle_length [OF len]
    show ?thesis
      by (simp add: aggInv_def processPrice_def Let_def)
  qed
qed

lemma aggInv_processTicks: "aggInv s \<Longrightarrow> aggInv (processTicks s ticks)"
  unfolding processTicks_def
  by (induction ticks arbitrary: s) (auto simp: aggInv_processPrice)

lemma aggInv_new: "aggInv newDetector"
  by (simp add: aggInv_def newDetector_def)

text \<open>
  C5. After any sequence of ticks processed from the empty aggregator, the closed bars
  of History have strictly increasing bucket starts and there are at most 200 of
  them. When a bar is closed onto a History of 200 bars, the oldest bar is the one
  that leaves: History becomes its tail with the closed bar appended.
\<close>

theorem history_increasing_and_bounded:
  "sorted_wrt (<) (map c_timestamp (candles (processTicks newDetector ticks)))
   \<and> length (candles (processTicks newDetector ticks)) \<le> 200
   \<and> (\<forall>s c price ts.
         currentCandle s = Some c \<and> candleTimeOf ts > lastCandleTime s
         \<and> length (candles s) = 200
         \<longrightarrow> candles (processPrice s price ts) = tl (candles s) @ [c])"
proof -
  have "aggInv (processTicks newDetector ticks)"
    by (rule aggInv_processTicks [OF aggInv_new])
  then have a: "sorted_wrt (<) (map c_timestamp (candles (processTicks newDetector ticks)))"
    and b: "length (candles (processTicks newDetector ticks)) \<le> 200"
    by (simp_all add: aggInv_def maxCandles_def)
  have c: "\<forall>s c price ts.
         currentCandle s = Some c \<and> candleTimeOf ts > lastCandleTime s
         \<and> length (candles s) = 200
         \<longrightarrow> candles (processPrice s price ts) = tl (candles s) @ [c]"
  proof (intro allI impI)
    fix s :: detector and c :: candle and price ts :: real
    assume h: "currentCandle s = Some c \<and> candleTimeOf ts > lastCandleTime s
         \<and> length (candles s) = 200"
    then have "candles s \<noteq> []" by auto
    with h show "candles (processPrice s price ts) = tl (candles s) @ [c]"
      by (simp add: processPrice_def Let_def pushCandle_def maxCandles_def)
  qed
  from a b c show ?thesis by blast
qed

theorem history_increasing_and_bounded_witness:
  "currentCandle fullState = Some (flatCandle 8 300000)
   \<and> candleTimeOf 600000 > lastCandleTime fullState
   \<and> length (candles fullState) = 200
   \<and> candles (processPrice fullState 9 600000)
       = replicate 199 (flatCandle 7 0) @ [flatCandle 8 300000]
   \<and> length (candles (processTicks newDetector [(1, 300000), (2, 600000), (3, 900000)])) \<le> 200"
proof -
  have h: "currentCandle fullState = Some (flatCandle 8 300000)
   \<and> candleTimeOf 600000 > lastCandleTime fullState
   \<and> length (candles fullState) = 200"
    by (simp add: fullState_def newDetector_def candleTimeOf_def candleInterval_def)
  have t: "tl (replicate 200 x) = replicate 199 x" for x :: candle
    by (simp add: tl_replicate)
  note inst = history_increasing_and_bounded [of "[(1, 300000), (2, 600000), (3, 900000)]"]
  have "candles (processPrice fullState 9 600000) = tl (candles fullState) @ [flatCandle 8 300000]"
    using inst h by blast
  then have e: "candles (processPrice fullState 9 600000)
      = replicate 199 (flatCandle 7 0) @ [flatCandle 8 300000]"
    by (simp add: fullState_def newDetector_def t)
  from inst h e show ?thesis by blast
qed

section \<open>Ticks dropped after seeding\<close>

text \<open>
  C10. While there is no open bar, a tick whose bucket start does not exceed
  \<open>lastCandleTime\<close> leaves the whole aggregator state as it was, and so does any
  sequence of such ticks: no bar is created, updated or closed until a tick of a later
  bucket arrives. This is the state right after historical seeding, which sets
  \<open>lastCandleTime\<close> to the start of the last seeded bar and leaves no open bar.
\<close>

theorem tick_dropped_without_open_bar:
  "currentCandle s = None
   \<Longrightarrow> list_all (\<lambda>(price, ts). candleTimeOf ts \<le> lastCandleTime s) ticks
   \<Longrightarrow> candleTimeOf ts \<le> lastCandleTime s
   \<Longrightarrow> processPrice s price ts = s \<and> processTicks s ticks = s"
proof -
  assume none: "currentCandle s = None"
    and all: "list_all (\<lambda>(price, ts). candleTimeOf ts \<le> lastCandleTime s) ticks"
    and one: "candleTimeOf ts \<le> lastCandleTime s"
  have a: "processPrice s price ts = s"
    using none one by (simp add: processPrice_def Let_def)
  have b: "processTicks s ticks = s"
    using none all unfolding processTicks_def
    by (induction ticks) (auto simp: processPrice_def Let_def)
  from a b show ?thesis by simp
qed

theorem tick_dropped_without_open_bar_witness:
  "currentCandle seededState = None
   \<and> lastCandleTime seededState = 600000
   \<and> list_all (\<lambda>(price, ts). candleTimeOf ts \<le> lastCandleTime seededState)
        [(102, 600001), (103, 899999)]
   \<and> candleTimeOf 650000 \<le> lastCandleTime seededState
   \<and> processPrice seededState 105 650000 = seededState
   \<and> processTicks seededState [(102, 600001), (103, 899999)] = seededState"
proof -
  have n: "currentCandle seededState = None" and l: "lastCandleTime seededState = 600000"
    by (simp_all add: seededState_def loadHistoricalCandles_def newDetector_def flatCandle_def)
  have f1: "\<lfloor>(600001::real) / 300000\<rfloor> = 2" and f2: "\<lfloor>(899999::real) / 300000\<rfloor> = 2"
    and f3: "\<lfloor>(650000::real) / 300000\<rfloor> = 2"
    by (simp_all add: floor_eq_iff)
  have a: "list_all (\<lambda>(price, ts). candleTimeOf ts \<le> lastCandleTime seededState)
        [(102, 600001), (103, 899999)]"
    by (simp add: l candleTimeOf_def candleInterval_def f1 f2)
  have o: "candleTimeOf 650000 \<le> lastCandleTime seededState"
    by (simp add: l candleTimeOf_def candleInterval_def f3)
  from tick_dropped_without_open_bar [OF n a o, of 105] n l a o show ?thesis
    by simp
qed

section \<open>Signal emission\<close>

lemma addFactor_type: "sc_type (addFactor sc n r) = sc_type sc"
  by (simp add: addFactor_def)

lemma scoreRSI_type: "sc_type (scoreRSI rsi sc) = sc_type sc"
  by (simp add: scoreRSI_def addFactor_type)

lemma scoreMACD_type: "sc_type (scoreMACD m sc) = sc_type sc"
  by (simp add: scoreMACD_def addFactor_type)

lemma scoreMomentum_type: "sc_type (scoreMomentum price ema20 sc) = sc_type sc"
  by (simp add: scoreMomentum_def Let_def addFactor_type)

lemma scoreStrength_type: "sc_type (scoreStrength ema20 ema50 sc) = sc_type sc"
  by (simp add: scoreStrength_def Let_def addFactor_type)

text \<open>Only the trend step sets the direction.\<close>

lemma scoreSignal_type:
  "sc_type (scoreSignal price ema20 ema50 rsi m) = sc_type (scoreTrend price ema20 ema50)"
  by (simp add: scoreSignal_def scoreStrength_type scoreMomentum_type scoreMACD_type scoreRSI_type)

lemma scoreTrend_type:
  "sc_type (scoreTrend price ema20 ema50) =
     (if price > ema20 \<and> ema20 > ema50 then Some LONG
      else if price < ema20 \<and> ema20 < ema50 then Some SHORT else None)"
  by (simp add: scoreTrend_def)

lemma detectSignal_None:
  "sc_type (scoreSignal price ema20 ema50 rsi m) = None
     \<or> sc_score (scoreSignal price ema20 ema50 rsi m) < 60
   \<Longrightarrow> detectSignal s now price ema20 ema50 rsi m = None"
  by (auto simp: detectSignal_def Let_def split: option.splits)

text \<open>
  C1. A run of the analysis delivers no signal, and leaves the engine state as it
  was, when History holds fewer than 50 bars, or when less than the minimum signal
  interval (5 minutes) has passed since \<open>lastSignalTime\<close>, or when neither directional
  EMA ordering holds (price > EMA20 > EMA50, price < EMA20 < EMA50), or when the
  composite score is below 60.
\<close>

theorem no_signal_delivered:
  assumes "length (candles s) < 50 \<or> now - lastSignalTime s < 5 * 60 * 1000
     \<or> \<not> emaOrderingHolds s \<or> compositeScore s < 60"
  shows "snd (analyzeMarket s now) = [] \<and> fst (analyzeMarket s now) = s"
proof (cases "length (candles s) < 50 \<or> now - lastSignalTime s < minSignalInterval")
  case True
  then show ?thesis by (auto simp: analyzeMarket_def)
next
  case False
  with assms have hyp: "\<not> emaOrderingHolds s \<or> compositeScore s < 60"
    by (simp add: minSignalInterval_def)
  show ?thesis
  proof (cases "i_ema20 (computeIndicators s)")
    case None
    with False show ?thesis by (simp add: analyzeMarket_def Let_def)
  next
    case e20: (Some ema20)
    show ?thesis
    proof (cases "i_ema50 (computeIndicators s)")
      case None
      with False e20 show ?thesis by (simp add: analyzeMarket_def Let_def)
    next
      case e50: (Some ema50)
      show ?thesis
      proof (cases "i_macd (computeIndicators s)")
        case None
        with False e20 e50 show ?thesis by (simp add: analyzeMarket_def Let_def)
      next
        case m: (Some m)
        from hyp e20 e50 m
        have "sc_type (scoreSignal (currentPriceOf s) ema20 ema50 (i_rsi (computeIndicators s)) m)
                = None
          \<or> sc_score (scoreSignal (currentPriceOf s) ema20 ema50 (i_rsi (computeIndicators s)) m)
                < 60"
          by (auto simp: emaOrderingHolds_def compositeScore_def Let_def scoreSignal_type
              scoreTrend_type)
        then have "detectSignal s now (currentPriceOf s) ema20 ema50
                     (i_rsi (computeIndicators s)) m = None"
          by (rule detectSignal_None)
        with False e20 e50 m show ?thesis by (simp add: analyzeMarket_def Let_def)
      qed
    qed
  qed
qed

text \<open>The EMA of a constant series is the constant.\<close>

lemma foldl_ema_const: "foldl (\<lambda>ema x. x * k + ema * (1 - k)) v (replicate n v) = (v::real)"
  by (induction n) (simp_all add: algebra_simps)

lemma foldl_add_replicate: "foldl (\<lambda>a b. a + b) a (replicate n v) = a + real n * (v::real)"
  by (induction n arbitrary: a) (simp_all add: algebra_simps)

lemma ema_const: "0 < p \<Longrightarrow> p \<le> n \<Longrightarrow> calculateEMA (replicate n v) p = Some v"
  by (simp add: calculateEMA_def Let_def foldl_add_replicate foldl_ema_const min_def)

lemma flat50_closes: "analysisCloses flat50 = replicate 50 1"
  by (simp add: analysisCloses_def flat50_def newDetector_def flatCandle_def)

lemma flat50_e20: "i_ema20 (computeIndicators flat50) = Some 1"
  and flat50_e50: "i_ema50 (computeIndicators flat50) = Some 1"
  by (simp_all add: computeIndicators_def Let_def flat50_closes ema_const)

theorem no_signal_delivered_witness:
  "\<not> length (candles flat50) < 50 \<and> \<not> 1000000 - lastSignalTime flat50 < 5 * 60 * 1000
   \<and> \<not> emaOrderingHolds flat50
   \<and> snd (analyzeMarket flat50 1000000) = [] \<and> fst (analyzeMarket flat50 1000000) = flat50"
proof -
  have a: "\<not> length (candles flat50) < 50"
    and b: "\<not> 1000000 - lastSignalTime flat50 < 5 * 60 * 1000"
    by (simp_all add: flat50_def newDetector_def)
  have c: "\<not> emaOrderingHolds flat50"
    by (simp add: emaOrderingHolds_def flat50_e20 flat50_e50)
  from no_signal_delivered [of flat50 1000000] a b c show ?thesis by blast
qed

section \<open>MACD\<close>

lemma calculateEMA_empty: "calculateEMA [] p = None"
  by (simp add: calculateEMA_def)

lemma ema_some: "data \<noteq> [] \<Longrightarrow> 0 < p \<Longrightarrow> \<exists>e. calculateEMA data p = Some e"
  by (simp add: calculateEMA_def Let_def)

lemma calculateMACD_from:
  assumes "calculateEMA data 12 = Some ema12" "calculateEMA data 26 = Some ema26"
  shows "calculateMACD data = Some (macdFrom (roundDouble (ema12 - ema26)))"
  unfolding calculateMACD_def assms macdFrom_def Let_def
  by (simp only: prod.case option.case js_minus.simps)

lemma macdFrom_parts:
  "signal (macdFrom m) = js_times (macd (macdFrom m)) (roundDouble 0.9)"
  "histogram (macdFrom m) = js_minus (macd (macdFrom m)) (signal (macdFrom m))"
  by (simp_all add: macdFrom_def Let_def)

lemma zero_signal: "signal (macdFrom (Finite 0)) = Finite 0"
  by (simp add: macdFrom_fields roundDouble_zero)

lemma signal_below_sign:
  assumes "js_less (signal (macdFrom (roundDouble d))) (roundDouble d)"
  shows "js_less (Finite 0) (roundDouble d)"
proof -
  from assms have "0 < d" by (rule signal_below_positive)
  then have le: "js_le (Finite 0) (roundDouble d)" by (simp add: roundDouble_sign)
  have "roundDouble d \<noteq> Finite 0"
  proof
    assume z: "roundDouble d = Finite 0"
    with assms show False by (simp add: zero_signal)
  qed
  with le show ?thesis by (cases "roundDouble d") auto
qed

lemma signal_above_sign:
  assumes "js_less (roundDouble d) (signal (macdFrom (roundDouble d)))"
  shows "js_less (roundDouble d) (Finite 0)"
proof -
  from assms have "d < 0" by (rule signal_above_negative)
  then have le: "js_le (roundDouble d) (Finite 0)" by (simp add: roundDouble_sign)
  have "roundDouble d \<noteq> Finite 0"
  proof
    assume z: "roundDouble d = Finite 0"
    with assms show False by (simp add: zero_signal)
  qed
  with le show ?thesis by (cases "roundDouble d") auto
qed

lemma aligned_long:
  assumes "6 * 2 powi (- 1074) \<le> d" "roundDouble d \<noteq> PosInfinity"
  shows "macdAligned LONG (macdFrom (roundDouble d))"
proof -
  from assms have a: "js_less (signal (macdFrom (roundDouble d))) (roundDouble d)"
    by (rule aligned_from_difference(1))
  with histogram_sign(1) [OF isRounded_roundDouble, of d]
  have "js_less (Finite 0) (histogram (macdFrom (roundDouble d)))" by simp
  with a show ?thesis by (simp add: macdAligned_def macdFrom_fields(1))
qed

text \<open>The doubles of the two examples.\<close>

lemma round_eleven: "roundDouble 11 = Finite 11"
  using roundDouble_value [where k = 3 and n = "11 * 2 ^ 49" and x = 11]
  by (simp add: roundHalfEven_def Let_def)

lemma round_tenth: "roundDouble (1 / 10) = Finite (3602879701896397 / 2 ^ 55)"
  using roundDouble_value [where k = "- 4" and n = 7205759403792794 and x = "1 / 10"]
  by (simp add: roundHalfEven_def Let_def)

lemma signal_eleven:
  "roundDouble (11 * doubleOfNineTenths) = Finite (5573204538870989 / 2 ^ 49)"
  using roundDouble_value [where k = 3 and n = 5573204538870989
      and x = "11 * (8106479329266893 / 2 ^ 53)"]
  by (simp add: roundHalfEven_def Let_def doubleOfNineTenths_def)

lemma histogram_eleven:
  "roundDouble (11 - 5573204538870989 / 2 ^ 49) = Finite (619244948763443 / 2 ^ 49)"
  using roundDouble_value [where k = 0 and n = 4953959590107544
      and x = "11 - 5573204538870989 / 2 ^ 49"]
  by (simp add: roundHalfEven_def Let_def)

lemma tenth_eleven:
  "roundDouble (11 * (3602879701896397 / 2 ^ 55)) = Finite (2476979795053773 / 2 ^ 51)"
  using roundDouble_value [where k = 0 and n = 4953959590107546
      and x = "11 * (3602879701896397 / 2 ^ 55)"]
  by (simp add: roundHalfEven_def Let_def)

lemma macd_eleven:
  "macdFrom (Finite 11) =
     \<lparr>macd = Finite 11, signal = Finite (5573204538870989 / 2 ^ 49),
      histogram = Finite (619244948763443 / 2 ^ 49)\<rparr>"
  by (simp only: macdFrom_def Let_def round_nine_tenths js_times.simps js_minus.simps
      signal_eleven histogram_eleven)

lemma macd_minus_eleven:
  "macdFrom (Finite (- 11)) =
     \<lparr>macd = Finite (- 11), signal = Finite (- (5573204538870989 / 2 ^ 49)),
      histogram = Finite (- (619244948763443 / 2 ^ 49))\<rparr>"
proof -
  have a: "- 11 * doubleOfNineTenths = - (11 * doubleOfNineTenths)" by simp
  have b: "- 11 - - (5573204538870989 / 2 ^ 49) = - (11 - 5573204538870989 / 2 ^ 49 :: real)"
    by simp
  show ?thesis
    by (simp only: macdFrom_def Let_def round_nine_tenths js_times.simps js_minus.simps
        a b roundDouble_minus signal_eleven histogram_eleven js_negate.simps)
qed

lemma below_ema12: "calculateEMA seriesBelow 12 = Some 100"
  by (simp add: seriesBelow_def calculateEMA_def Let_def foldl_add_replicate)

lemma below_ema26: "calculateEMA seriesBelow 26 = Some 111"
  by (simp add: seriesBelow_def calculateEMA_def)

lemma above_ema12: "calculateEMA seriesAbove 12 = Some 100"
  by (simp add: seriesAbove_def calculateEMA_def Let_def foldl_add_replicate)

lemma above_ema26: "calculateEMA seriesAbove 26 = Some 89"
  by (simp add: seriesAbove_def calculateEMA_def)

lemma below_macd: "calculateMACD seriesBelow = Some (macdFrom (Finite (- 11)))"
proof -
  have "roundDouble (100 - 111) = Finite (- 11)"
    using roundDouble_minus [of 11] by (simp add: round_eleven)
  with calculateMACD_from [OF below_ema12 below_ema26] show ?thesis by simp
qed

lemma above_macd: "calculateMACD seriesAbove = Some (macdFrom (Finite 11))"
proof -
  have "roundDouble (100 - 89) = Finite 11"
    by (simp add: round_eleven)
  with calculateMACD_from [OF above_ema12 above_ema26] show ?thesis by simp
qed

lemma tiny_ema12: "calculateEMA tinySeries 12 = Some smallestDouble"
  by (simp add: tinySeries_def calculateEMA_def Let_def foldl_add_replicate)

lemma tiny_ema26: "calculateEMA tinySeries 26 = Some (2 * smallestDouble)"
  by (simp add: tinySeries_def calculateEMA_def)

lemma tiny_signal:
  "roundDouble (smallestDouble * doubleOfNineTenths) = Finite smallestDouble"
proof -
  have p: "0 < smallestDouble * doubleOfNineTenths"
    by (simp add: smallestDouble_def doubleOfNineTenths_def)
  have "smallestDouble * doubleOfNineTenths < smallestDouble * 1"
    unfolding smallestDouble_def using nine_tenths_bounds(2)
    by (intro mult_strict_left_mono pow2_pos)
  also have "smallestDouble \<le> 2 powi (- 1022)"
    by (simp add: smallestDouble_def pow2_le_iff)
  finally have u: "smallestDouble * doubleOfNineTenths < 2 powi (- 1022)" by simp
  have r: "roundHalfEven (smallestDouble * doubleOfNineTenths / 2 powi (- 1074)) = 1"
    by (simp add: smallestDouble_def roundHalfEven_def Let_def doubleOfNineTenths_def)
  from roundDouble_subnormal [OF p u r] show ?thesis by (simp add: smallestDouble_def)
qed

lemma tiny_macd:
  "calculateMACD tinySeries =
     Some \<lparr>macd = Finite (- smallestDouble), signal = Finite (- smallestDouble),
           histogram = Finite 0\<rparr>"
proof -
  have m: "roundDouble (smallestDouble - 2 * smallestDouble) = Finite (- smallestDouble)"
    using roundDouble_minus [of smallestDouble] smallest_double
    by (simp add: smallestDouble_def)
  have a: "- smallestDouble * doubleOfNineTenths = - (smallestDouble * doubleOfNineTenths)"
    by simp
  have b: "- smallestDouble - - smallestDouble = 0" by simp
  have "macdFrom (Finite (- smallestDouble)) =
     \<lparr>macd = Finite (- smallestDouble), signal = Finite (- smallestDouble),
      histogram = Finite 0\<rparr>"
    by (simp only: macdFrom_def Let_def round_nine_tenths js_times.simps js_minus.simps
        a b roundDouble_minus tiny_signal js_negate.simps roundDouble_zero)
  with calculateMACD_from [OF tiny_ema12 tiny_ema26] m show ?thesis by simp
qed

text \<open>
  C9, as the specification states it, fails: the histogram is not the tenth of the
  MACD line, and the MACD condition is not the sign of EMA(12) - EMA(26). On eleven
  closes at 99 and a last one at 111 the MACD line is -11, the signal the double
  nearest to -9.9 and the histogram the double -619244948763443 / 2^49
  (-1.0999999999999996), which is neither -1.1 nor the double nearest to it, the value
  of \<open>macd * 0.1\<close>. On the series of closes 10, 0, ..., 0, 2 in units of the smallest
  positive double, EMA(12) is one unit and EMA(26) two units; the MACD line is minus
  one unit and so is the signal, its product with 0.9 rounded; the histogram is 0 and
  the SHORT condition does not hold, though EMA(12) < EMA(26).
\<close>

theorem macd_histogram_counterexample:
  "(\<exists>m. calculateMACD seriesBelow = Some m \<and> macd m = Finite (- 11)
        \<and> signal m = js_times (macd m) (roundDouble 0.9)
        \<and> histogram m = Finite (- (619244948763443 / 2 ^ 49))
        \<and> histogram m \<noteq> Finite (- 11 * 0.1)
        \<and> js_times (macd m) (roundDouble 0.1) = Finite (- (2476979795053773 / 2 ^ 51))
        \<and> histogram m \<noteq> js_times (macd m) (roundDouble 0.1))
   \<and> (\<exists>m. calculateMACD tinySeries = Some m
        \<and> calculateEMA tinySeries 12 = Some smallestDouble
        \<and> calculateEMA tinySeries 26 = Some (2 * smallestDouble)
        \<and> smallestDouble < 2 * smallestDouble
        \<and> macd m = Finite (- smallestDouble) \<and> signal m = Finite (- smallestDouble)
        \<and> histogram m = Finite 0
        \<and> \<not> macdAligned SHORT m)"
proof -
  have t: "js_times (Finite (- 11)) (roundDouble 0.1) = Finite (- (2476979795053773 / 2 ^ 51))"
  proof -
    have a: "- 11 * (3602879701896397 / 2 ^ 55) = - (11 * (3602879701896397 / 2 ^ 55) :: real)"
      by simp
    have "roundDouble 0.1 = Finite (3602879701896397 / 2 ^ 55)"
      using round_tenth by simp
    then show ?thesis
      by (simp only: js_times.simps a roundDouble_minus tenth_eleven js_negate.simps)
  qed
  have s: "signal (macdFrom (Finite (- 11))) = js_times (macd (macdFrom (Finite (- 11)))) (roundDouble 0.9)"
    by (rule macdFrom_parts)
  have f: "macd (macdFrom (Finite (- 11))) = Finite (- 11)"
    "histogram (macdFrom (Finite (- 11))) = Finite (- (619244948763443 / 2 ^ 49))"
    by (simp_all only: macd_minus_eleven macd_result.select_convs)
  have n1: "Finite (- (619244948763443 / 2 ^ 49)) \<noteq> Finite (- 11 * 0.1)"
    by simp
  have n2: "Finite (- (619244948763443 / 2 ^ 49)) \<noteq> Finite (- (2476979795053773 / 2 ^ 51))"
    by simp
  have first: "\<exists>m. calculateMACD seriesBelow = Some m \<and> macd m = Finite (- 11)
        \<and> signal m = js_times (macd m) (roundDouble 0.9)
        \<and> histogram m = Finite (- (619244948763443 / 2 ^ 49))
        \<and> histogram m \<noteq> Finite (- 11 * 0.1)
        \<and> js_times (macd m) (roundDouble 0.1) = Finite (- (2476979795053773 / 2 ^ 51))
        \<and> histogram m \<noteq> js_times (macd m) (roundDouble 0.1)"
    using below_macd s f n1 n2 t by (simp only: exI [of _ "macdFrom (Finite (- 11))"] simp_thms)
  have g: "smallestDouble < 2 * smallestDouble"
    by (simp add: smallestDouble_def)
  have "\<not> macdAligned SHORT \<lparr>macd = Finite (- smallestDouble),
     signal = Finite (- smallestDouble), histogram = Finite 0\<rparr>"
    by (simp add: macdAligned_def)
  with tiny_macd tiny_ema12 tiny_ema26 g
  have second: "\<exists>m. calculateMACD tinySeries = Some m
        \<and> calculateEMA tinySeries 12 = Some smallestDouble
        \<and> calculateEMA tinySeries 26 = Some (2 * smallestDouble)
        \<and> smallestDouble < 2 * smallestDouble
        \<and> macd m = Finite (- smallestDouble) \<and> signal m = Finite (- smallestDouble)
        \<and> histogram m = Finite 0
        \<and> \<not> macdAligned SHORT m"
    by simp
  from first second show ?thesis by (rule conjI)
qed

text \<open>
  C9, amended. The MACD triple is computed in double arithmetic. For the empty series
  it is not a number. For every other closing-price series, macd is EMA(12) - EMA(26)
  rounded, signal is macd * 0.9 rounded and histogram is macd - signal rounded. The two
  tests of a direction are equivalent: histogram > 0 exactly when macd > signal, and
  histogram < 0 exactly when macd < signal; macd > signal implies macd > 0 and
  macd < signal implies macd < 0. The MACD condition of a direction implies the sign
  of EMA(12) - EMA(26): it holds for LONG only if EMA(12) > EMA(26) and for SHORT only
  if EMA(12) < EMA(26). Conversely it holds for LONG when EMA(12) - EMA(26) is at
  least six times the smallest positive double and macd is not infinite, and for SHORT
  when EMA(26) - EMA(12) is.
\<close>

theorem macd_alignment_is_sign:
  "(data = [] \<and> calculateMACD data = None)
   \<or> (\<exists>m ema12 ema26. calculateMACD data = Some m
        \<and> calculateEMA data 12 = Some ema12 \<and> calculateEMA data 26 = Some ema26
        \<and> macd m = roundDouble (ema12 - ema26)
        \<and> signal m = js_times (macd m) (roundDouble 0.9)
        \<and> histogram m = js_minus (macd m) (signal m)
        \<and> (js_less (Finite 0) (histogram m) = js_less (signal m) (macd m))
        \<and> (js_less (histogram m) (Finite 0) = js_less (macd m) (signal m))
        \<and> (js_less (signal m) (macd m) \<longrightarrow> js_less (Finite 0) (macd m))
        \<and> (js_less (macd m) (signal m) \<longrightarrow> js_less (macd m) (Finite 0))
        \<and> (macdAligned LONG m \<longrightarrow> ema12 > ema26)
        \<and> (macdAligned SHORT m \<longrightarrow> ema12 < ema26)
        \<and> (6 * 2 powi (- 1074) \<le> ema12 - ema26 \<and> macd m \<noteq> PosInfinity
              \<longrightarrow> macdAligned LONG m)
        \<and> (6 * 2 powi (- 1074) \<le> ema26 - ema12 \<and> macd m \<noteq> NegInfinity
              \<longrightarrow> macdAligned SHORT m))"
proof (cases "data = []")
  case True
  then show ?thesis by (simp add: calculateMACD_def calculateEMA_empty)
next
  case False
  then obtain ema12 where e12: "calculateEMA data 12 = Some ema12"
    using ema_some [of data 12] by auto
  from False obtain ema26 where e26: "calculateEMA data 26 = Some ema26"
    using ema_some [of data 26] by auto
  define d where "d = ema12 - ema26"
  define m where "m = macdFrom (roundDouble d)"
  have c: "calculateMACD data = Some m"
    unfolding m_def d_def using e12 e26 by (rule calculateMACD_from)
  have mm: "macd m = roundDouble d"
    by (simp add: m_def macdFrom_fields)
  have p1: "macd m = roundDouble (ema12 - ema26)"
    using mm by (simp only: d_def)
  have p2: "signal m = js_times (macd m) (roundDouble 0.9)"
    unfolding m_def by (rule macdFrom_parts)
  have p3: "histogram m = js_minus (macd m) (signal m)"
    unfolding m_def by (rule macdFrom_parts)
  have q: "js_less (Finite 0) (histogram m) = js_less (signal m) (macd m)"
    "js_less (histogram m) (Finite 0) = js_less (macd m) (signal m)"
    unfolding mm unfolding m_def
    by (rule histogram_sign [OF isRounded_roundDouble])+
  have sl: "js_less (signal m) (macd m) \<longrightarrow> js_less (Finite 0) (macd m)"
    unfolding mm unfolding m_def by (rule impI) (rule signal_below_sign)
  have sa: "js_less (macd m) (signal m) \<longrightarrow> js_less (macd m) (Finite 0)"
    unfolding mm unfolding m_def by (rule impI) (rule signal_above_sign)
  have r1: "macdAligned LONG m \<longrightarrow> ema12 > ema26"
  proof
    assume "macdAligned LONG m"
    then have "js_less (signal (macdFrom (roundDouble d))) (roundDouble d)"
      by (simp add: macdAligned_def mm m_def [symmetric])
    then have "0 < d" by (rule signal_below_positive)
    then show "ema12 > ema26" by (simp add: d_def)
  qed
  have r2: "macdAligned SHORT m \<longrightarrow> ema12 < ema26"
  proof
    assume "macdAligned SHORT m"
    then have "js_less (roundDouble d) (signal (macdFrom (roundDouble d)))"
      by (simp add: macdAligned_def mm m_def [symmetric])
    then have "d < 0" by (rule signal_above_negative)
    then show "ema12 < ema26" by (simp add: d_def)
  qed
  have r3: "6 * 2 powi (- 1074) \<le> ema12 - ema26 \<and> macd m \<noteq> PosInfinity
              \<longrightarrow> macdAligned LONG m"
  proof
    assume a: "6 * 2 powi (- 1074) \<le> ema12 - ema26 \<and> macd m \<noteq> PosInfinity"
    from a have a1: "6 * 2 powi (- 1074) \<le> d"
      unfolding d_def by (rule conjunct1)
    from a have a2: "roundDouble d \<noteq> PosInfinity"
      unfolding mm by (rule conjunct2)
    from a1 a2 have "js_less (signal (macdFrom (roundDouble d))) (roundDouble d)"
      by (rule aligned_from_difference(1))
    then have "js_less (signal m) (macd m)" by (simp add: m_def macdFrom_fields(1))
    with q show "macdAligned LONG m" by (simp add: macdAligned_def)
  qed
  have r4: "6 * 2 powi (- 1074) \<le> ema26 - ema12 \<and> macd m \<noteq> NegInfinity
              \<longrightarrow> macdAligned SHORT m"
  proof
    assume a: "6 * 2 powi (- 1074) \<le> ema26 - ema12 \<and> macd m \<noteq> NegInfinity"
    have flip: "c \<le> y - x \<Longrightarrow> x - y \<le> - c" for c x y :: real
      by linarith
    from a have "6 * 2 powi (- 1074) \<le> ema26 - ema12"
      by (rule conjunct1)
    then have a1: "d \<le> - (6 * 2 powi (- 1074))"
      unfolding d_def by (rule flip)
    from a have a2: "roundDouble d \<noteq> NegInfinity"
      unfolding mm by (rule conjunct2)
    from a1 a2 have "js_less (roundDouble d) (signal (macdFrom (roundDouble d)))"
      by (rule aligned_from_difference(2))
    then have "js_less (macd m) (signal m)" by (simp add: m_def macdFrom_fields(1))
    with q show "macdAligned SHORT m" by (simp add: macdAligned_def)
  qed
  from c e12 e26 p1 p2 p3 q sl sa r1 r2 r3 r4 show ?thesis by blast
qed

theorem macd_alignment_is_sign_witness:
  "(\<exists>m. calculateMACD seriesBelow = Some m \<and> macd m = Finite (- 11)
        \<and> macdAligned SHORT m \<and> \<not> macdAligned LONG m
        \<and> js_less (histogram m) (Finite 0) \<and> js_less (macd m) (signal m))
   \<and> (\<exists>m. calculateMACD seriesAbove = Some m \<and> macd m = Finite 11
        \<and> macdAligned LONG m \<and> \<not> macdAligned SHORT m
        \<and> js_less (Finite 0) (histogram m) \<and> js_less (signal m) (macd m))"
proof -
  have small: "6 * 2 powi (- 1074) \<le> (11::real)"
  proof -
    have "(2::real) powi (- 1074) \<le> 2 powi 0" by (simp only: pow2_le_iff)
    then show ?thesis by simp
  qed
  have nb: "seriesBelow \<noteq> []" by (simp add: seriesBelow_def)
  have na: "seriesAbove \<noteq> []" by (simp add: seriesAbove_def)
  from macd_alignment_is_sign [of seriesBelow] nb obtain m ema12 ema26 where
    f: "calculateMACD seriesBelow = Some m"
      "calculateEMA seriesBelow 12 = Some ema12" "calculateEMA seriesBelow 26 = Some ema26"
      "macd m = roundDouble (ema12 - ema26)"
      "js_less (histogram m) (Finite 0) = js_less (macd m) (signal m)"
      "macdAligned LONG m \<longrightarrow> ema12 > ema26"
      "6 * 2 powi (- 1074) \<le> ema26 - ema12 \<and> macd m \<noteq> NegInfinity \<longrightarrow> macdAligned SHORT m"
    by blast
  from f(2,3) have e: "ema12 = 100" "ema26 = 111"
    by (simp_all add: below_ema12 below_ema26)
  have "roundDouble (100 - 111) = Finite (- 11)"
    using roundDouble_minus [of 11] by (simp add: round_eleven)
  with f(4) e have v: "macd m = Finite (- 11)" by simp
  with f(7) e small have s: "macdAligned SHORT m" by simp
  from f(6) e have l: "\<not> macdAligned LONG m" by auto
  from s f(5) have t: "js_less (histogram m) (Finite 0)" "js_less (macd m) (signal m)"
    by (simp_all add: macdAligned_def)
  from f(1) v s l t have first: "\<exists>m. calculateMACD seriesBelow = Some m
        \<and> macd m = Finite (- 11) \<and> macdAligned SHORT m \<and> \<not> macdAligned LONG m
        \<and> js_less (histogram m) (Finite 0) \<and> js_less (macd m) (signal m)"
    by blast
  from macd_alignment_is_sign [of seriesAbove] na obtain m' ema12' ema26' where
    g: "calculateMACD seriesAbove = Some m'"
      "calculateEMA seriesAbove 12 = Some ema12'" "calculateEMA seriesAbove 26 = Some ema26'"
      "macd m' = roundDouble (ema12' - ema26')"
      "js_less (Finite 0) (histogram m') = js_less (signal m') (macd m')"
      "macdAligned SHORT m' \<longrightarrow> ema12' < ema26'"
      "6 * 2 powi (- 1074) \<le> ema12' - ema26' \<and> macd m' \<noteq> PosInfinity \<longrightarrow> macdAligned LONG m'"
    by blast
  from g(2,3) have e': "ema12' = 100" "ema26' = 89"
    by (simp_all add: above_ema12 above_ema26)
  with g(4) have v': "macd m' = Finite 11" by (simp add: round_eleven)
  with g(7) e' small have s': "macdAligned LONG m'" by simp
  from g(6) e' have l': "\<not> macdAligned SHORT m'" by auto
  from s' g(5) have t': "js_less (Finite 0) (histogram m')" "js_less (signal m') (macd m')"
    by (simp_all add: macdAligned_def)
  from g(1) v' s' l' t' have second: "\<exists>m. calculateMACD seriesAbove = Some m
        \<and> macd m = Finite 11 \<and> macdAligned LONG m \<and> \<not> macdAligned SHORT m
        \<and> js_less (Finite 0) (histogram m) \<and> js_less (signal m) (macd m)"
    by blast
  from first second show ?thesis by (rule conjI)
qed

section \<open>ATR\<close>

lemma foldl_add_sum:
  "foldl (\<lambda>acc i. acc + f i) a [m ..< n] = a + (\<Sum>i = m ..< n. (f i :: real))"
proof (induction n)
  case 0
  then show ?case by simp
next
  case (Suc n)
  then show ?case by (cases "m \<le> n") (simp_all add: algebra_simps)
qed

text \<open>The loop of \<open>calculateATR\<close> over the last 15 bars, as a sum over History's indices.\<close>

lemma atr_full:
  assumes "15 \<le> length (candles s)"
  shows "calculateATR s 14 =
    (\<Sum>i = length (candles s) - 14 ..< length (candles s).
        trueRange (candles s ! i) (candles s ! (i - 1))) / 14"
proof -
  let ?cs = "candles s"
  let ?n = "length ?cs"
  let ?k = "?n - 15"
  let ?recent = "drop ?k ?cs"
  have nth: "trueRange (?recent ! i) (?recent ! (i - 1))
      = trueRange (?cs ! (i + ?k)) (?cs ! (i + ?k - 1))" if "i \<in> {1 ..< 15}" for i
  proof -
    from that have "1 \<le> i" "i < 15" by simp_all
    then have "i + ?k - 1 = ?k + (i - 1)" by simp
    with assms that show ?thesis by (simp add: add.commute)
  qed
  have "calculateATR s 14 =
      (\<Sum>i = 1 ..< 15. trueRange (?recent ! i) (?recent ! (i - 1))) / 14"
    using assms by (simp add: calculateATR_def Let_def foldl_add_sum)
  also have "(\<Sum>i = 1 ..< 15. trueRange (?recent ! i) (?recent ! (i - 1)))
      = (\<Sum>i = 1 ..< 15. trueRange (?cs ! (i + ?k)) (?cs ! (i + ?k - 1)))"
    by (rule sum.cong [OF refl]) (rule nth)
  also have "\<dots> = (\<Sum>i = 1 + ?k ..< 15 + ?k. trueRange (?cs ! i) (?cs ! (i - 1)))"
    by (rule sum.shift_bounds_nat_ivl [symmetric])
  also have "1 + ?k = ?n - 14" using assms by simp
  also have "15 + ?k = ?n" using assms by simp
  finally show ?thesis .
qed

lemma atr_fallback:
  assumes "length (candles s) < 15"
  shows "calculateATR s 14 =
     (case currentCandle s of
        None \<Rightarrow> 50000
      | Some c \<Rightarrow> if c_close c \<noteq> 0 then c_close c else 50000) * 0.01"
  using assms by (simp add: calculateATR_def Let_def)

lemma trueRange_Max:
  "trueRange cur prev =
     Max {c_high cur - c_low cur, \<bar>c_high cur - c_close prev\<bar>, \<bar>c_low cur - c_close prev\<bar>}"
  by (simp add: trueRange_def max.commute max.left_commute)

text \<open>
  C8, as stated, fails in its second half: with fewer than 15 closed bars and no open
  bar, \<open>calculateATR\<close> returns 500, whatever the prices are. After seeding with two bars
  (closes 100 and 101) the current price of the analysis is 101 and the ATR is 500,
  not 1.01.
\<close>

theorem atr_fallback_counterexample:
  "length (candles seededState) < 15 \<and> currentCandle seededState = None
   \<and> currentPriceOf seededState = 101
   \<and> calculateATR seededState 14 = 500
   \<and> calculateATR seededState 14 \<noteq> currentPriceOf seededState * 0.01"
  by (simp add: seededState_def loadHistoricalCandles_def newDetector_def flatCandle_def
      currentPriceOf_def analysisCloses_def calculateATR_def Let_def)

text \<open>
  C8, amended. In every state with at least 15 closed bars, \<open>calculateATR\<close> returns the
  mean, over the last 14 closed bars, of the true range
  max(high - low, |high - prevClose|, |low - prevClose|), where prevClose is the close
  of the bar before. In every state with fewer closed bars it returns 1% of the close
  of the current open bar, or 500 (1% of the constant 50000) when there is no open
  bar or its close is 0.
\<close>

theorem atr_mean_true_range:
  "(15 \<le> length (candles s) \<longrightarrow>
      calculateATR s 14 =
        (\<Sum>i = length (candles s) - 14 ..< length (candles s).
            trueRange (candles s ! i) (candles s ! (i - 1))) / 14)
   \<and> (length (candles s) < 15 \<longrightarrow>
        calculateATR s 14 =
          (case currentCandle s of
             None \<Rightarrow> 50000
           | Some c \<Rightarrow> if c_close c \<noteq> 0 then c_close c else 50000) * 0.01)
   \<and> trueRange cur prev =
        Max {c_high cur - c_low cur, \<bar>c_high cur - c_close prev\<bar>, \<bar>c_low cur - c_close prev\<bar>}"
  using atr_full [of s] atr_fallback [of s] trueRange_Max [of cur prev] by blast

theorem atr_mean_true_range_witness:
  "15 \<le> length (candles atr15) \<and> calculateATR atr15 14 = 2
   \<and> length (candles firstTick) < 15 \<and> calculateATR firstTick 14 = 2
   \<and> length (candles newDetector) < 15 \<and> calculateATR newDetector 14 = 500"
proof -
  let ?c = "\<lambda>i. \<lparr>c_open = 2, c_high = 3, c_low = 1, c_close = 2, c_volume = 0,
                   c_timestamp = 300000 * real i\<rparr>"
  have cs: "candles atr15 = map ?c [1 ..< 16]"
    by (simp add: atr15_def newDetector_def)
  have l15: "15 \<le> length (candles atr15)" and len: "length (candles atr15) = 15"
    by (simp_all add: cs)
  have tr: "trueRange (candles atr15 ! i) (candles atr15 ! (i - 1)) = 2" if "i \<in> {1 ..< 15}" for i
  proof -
    from that have "i < 15" "i - 1 < 15" by auto
    then show ?thesis by (simp add: cs trueRange_def)
  qed
  have "(\<Sum>i = 1 ..< 15. trueRange (candles atr15 ! i) (candles atr15 ! (i - 1)))
      = (\<Sum>i = 1 ..< (15::nat). (2::real))"
    by (rule sum.cong [OF refl]) (rule tr)
  then have sum: "(\<Sum>i = 1 ..< 15. trueRange (candles atr15 ! i) (candles atr15 ! (i - 1))) = 28"
    by simp
  have "calculateATR atr15 14 =
      (\<Sum>i = length (candles atr15) - 14 ..< length (candles atr15).
          trueRange (candles atr15 ! i) (candles atr15 ! (i - 1))) / 14"
    using atr_mean_true_range [of atr15] l15 by blast
  also have "length (candles atr15) - 14 = 1" by (simp add: len)
  also have "length (candles atr15) = 15" by (rule len)
  finally have a: "calculateATR atr15 14 = 2"
    by (simp only: sum)
  have f: "length (candles firstTick) < 15" "currentCandle firstTick = Some (flatCandle 200 300000)"
    by (simp_all add: firstTick_def processPrice_def newDetector_def candleTimeOf_def
        candleInterval_def Let_def flatCandle_def)
  have "calculateATR firstTick 14 =
          (case currentCandle firstTick of
             None \<Rightarrow> 50000
           | Some c \<Rightarrow> if c_close c \<noteq> 0 then c_close c else 50000) * 0.01"
    using atr_mean_true_range [of firstTick] f(1) by blast
  then have b: "calculateATR firstTick 14 = 2"
    by (simp add: f(2) flatCandle_def)
  have n: "length (candles newDetector) < 15" "currentCandle newDetector = None"
    by (simp_all add: newDetector_def)
  have "calculateATR newDetector 14 =
          (case currentCandle newDetector of
             None \<Rightarrow> 50000
           | Some c \<Rightarrow> if c_close c \<noteq> 0 then c_close c else 50000) * 0.01"
    using atr_mean_true_range [of newDetector] n(1) by blast
  then have c: "calculateATR newDetector 14 = 500"
    by (simp add: n(2))
  from l15 a f(1) b n(1) c show ?thesis by blast
qed

section \<open>A delivered signal\<close>

text \<open>
  The analysis does deliver: on the rally (30 bars at 100, 20 bars at 102, price 103)
  the trend, MACD, momentum and strength factors give the score 80 and the subscriber
  receives a LONG signal at 103 with the stop at 100.
\<close>

lemma foldl_ema_replicate:
  "foldl (\<lambda>ema x. x * k + ema * (1 - k)) e (replicate n v) = v + (e - v) * (1 - k) ^ n"
  for k e v :: real
proof (induction n arbitrary: e)
  case 0
  then show ?case by simp
next
  case (Suc n)
  have "foldl (\<lambda>ema x. x * k + ema * (1 - k)) e (replicate (Suc n) v)
      = foldl (\<lambda>ema x. x * k + ema * (1 - k)) (v * k + e * (1 - k)) (replicate n v)"
    by simp
  also have "\<dots> = v + ((v * k + e * (1 - k)) - v) * (1 - k) ^ n"
    by (rule Suc.IH)
  also have "(v * k + e * (1 - k)) - v = (e - v) * (1 - k)"
    by (simp add: algebra_simps)
  finally show ?case by (simp add: mult.assoc)
qed

lemma closes_rangeBar: "map (c_close \<circ> rangeBar c) xs = replicate (length xs) c"
  by (simp add: rangeBar_def o_def map_replicate_const)

lemma rally_closes: "analysisCloses rally = replicate 30 100 @ replicate 20 102"
  by (simp add: analysisCloses_def rally_def newDetector_def closes_rangeBar del: upt_rec_numeral)

lemma rally_ema20: "calculateEMA (analysisCloses rally) 20 = Some (102 - 2 * (19 / 21) ^ 20)"
  by (simp add: rally_closes calculateEMA_def Let_def foldl_add_replicate foldl_ema_replicate
      min_def)

lemma rally_ema50: "calculateEMA (analysisCloses rally) 50 = Some (504 / 5)"
  by (simp add: rally_closes calculateEMA_def Let_def foldl_add_replicate)

lemma rally_ema12: "calculateEMA (analysisCloses rally) 12 = Some (102 - 2 * (11 / 13) ^ 20)"
  by (simp add: rally_closes calculateEMA_def Let_def foldl_add_replicate foldl_ema_replicate
      min_def)

lemma rally_ema26: "calculateEMA (analysisCloses rally) 26 = Some (102 - 2 * (25 / 27) ^ 20)"
  by (simp add: rally_closes calculateEMA_def Let_def foldl_add_replicate foldl_ema_replicate
      min_def)


lemma rsi_flat_tail:
  assumes "\<forall>i \<in> {a ..< b}. data ! i = data ! (i - 1)"
  shows "foldl (rsiStep data) acc [a ..< b] = acc"
  using assms
proof (induction b)
  case 0
  then show ?case by simp
next
  case (Suc b)
  show ?case
  proof (cases "a \<le> b")
    case True
    from Suc.prems have "\<forall>i \<in> {a ..< b}. data ! i = data ! (i - 1)" by simp
    then have ih: "foldl (rsiStep data) acc [a ..< b] = acc" by (rule Suc.IH)
    from Suc.prems True have "data ! b = data ! (b - 1)" by simp
    then have "rsiStep data acc b = acc" by (simp add: rsiStep_def)
    with True ih show ?thesis by simp
  next
    case False
    then show ?thesis by simp
  qed
qed

lemma rally_rsi: "calculateRSI (analysisCloses rally) 14 = 100"
proof -
  have "\<forall>i \<in> {36 ..< 50}. (replicate 30 100 @ replicate 20 (102::real)) ! i
       = (replicate 30 100 @ replicate 20 102) ! (i - 1)"
  proof
    fix i :: nat
    assume "i \<in> {36 ..< 50}"
    then have "30 \<le> i" "i - 30 < 20" "30 \<le> i - 1" "i - 1 - 30 < 20" by auto
    then show "(replicate 30 100 @ replicate 20 (102::real)) ! i
       = (replicate 30 100 @ replicate 20 102) ! (i - 1)"
      by (simp add: nth_append)
  qed
  then have "foldl (rsiStep (replicate 30 100 @ replicate 20 102)) (0, 0) [36 ..< 50] = (0, 0)"
    by (rule rsi_flat_tail)
  then show ?thesis
    by (simp add: rally_closes calculateRSI_def Let_def del: upt_rec_numeral)
qed


lemma rally_candles_nth:
  assumes "30 \<le> i" "i < 50"
  shows "candles rally ! i = rangeBar 102 (i + 1)"
proof -
  have "candles rally = map (rangeBar 100) [1 ..< 31] @ map (rangeBar 102) [31 ..< 51]"
    by (simp add: rally_def newDetector_def del: upt_rec_numeral)
  with assms show ?thesis
    by (simp add: nth_append del: upt_rec_numeral)
qed

lemma rally_length: "length (candles rally) = 50"
  by (simp add: rally_def newDetector_def del: upt_rec_numeral)

lemma rally_atr: "calculateATR rally 14 = 2"
proof -
  have tr: "trueRange (candles rally ! i) (candles rally ! (i - 1)) = 2"
    if "i \<in> {36 ..< 50}" for i
  proof -
    from that have "30 \<le> i" "i < 50" "30 \<le> i - 1" "i - 1 < 50" by auto
    then show ?thesis
      by (simp add: rally_candles_nth rangeBar_def trueRange_def)
  qed
  have "(\<Sum>i = 36 ..< 50. trueRange (candles rally ! i) (candles rally ! (i - 1)))
      = (\<Sum>i = 36 ..< (50::nat). (2::real))"
    by (rule sum.cong [OF refl]) (rule tr)
  then have "(\<Sum>i = 36 ..< 50. trueRange (candles rally ! i) (candles rally ! (i - 1))) = 28"
    by simp
  then show ?thesis
    using atr_full [of rally] by (simp add: rally_length)
qed

lemma rally_price: "currentPriceOf rally = 103"
  by (simp add: currentPriceOf_def rally_def newDetector_def flatCandle_def)

lemma rally_macd: "calculateMACD (analysisCloses rally) = Some rallyMacd"
  unfolding rallyMacd_def using rally_ema12 rally_ema26 by (rule calculateMACD_from)

lemma rally_trend:
  "scoreTrend 103 (102 - 2 * (19 / 21) ^ 20) (504 / 5)
     = \<lparr>sc_type = Some LONG, sc_score = 25, sc_reasons = [TrendUp]\<rparr>"
  by (simp add: scoreTrend_def power_divide)

lemma round_one: "roundDouble 1 = Finite 1"
  using roundDouble_value [where k = 0 and n = "2 ^ 52" and x = 1]
  by (simp add: roundHalfEven_def Let_def)

lemma rally_aligned: "macdAligned LONG rallyMacd"
proof -
  define d :: real where "d = (102 - 2 * (11 / 13) ^ 20) - (102 - 2 * (25 / 27) ^ 20)"
  have lo: "1 / 4 \<le> d" by (simp add: d_def power_divide)
  have hi: "d \<le> 1" by (simp add: d_def power_divide)
  have "(2::real) powi (- 1074) \<le> 2 powi (- 5)" by (simp only: pow2_le_iff)
  also have "(2::real) powi (- 5) = 1 / 32" by (simp add: power_int_minus)
  finally have "6 * 2 powi (- 1074) \<le> (1 / 4 :: real)" by linarith
  with lo have a: "6 * 2 powi (- 1074) \<le> d" by linarith
  from roundDouble_mono [OF hi] have "js_le (roundDouble d) (Finite 1)"
    by (simp only: round_one)
  then have b: "roundDouble d \<noteq> PosInfinity" by (cases "roundDouble d") simp_all
  from a b have "macdAligned LONG (macdFrom (roundDouble d))" by (rule aligned_long)
  then show ?thesis by (simp only: rallyMacd_def d_def)
qed

lemma rally_score:
  "scoreSignal 103 (102 - 2 * (19 / 21) ^ 20) (504 / 5) 100 rallyMacd
     = \<lparr>sc_type = Some LONG, sc_score = 80,
        sc_reasons = [TrendUp, MacdBullish, MomentumPositive, StrongTrend]\<rparr>"
  unfolding scoreSignal_def rally_trend
  by (simp add: scoreRSI_def scoreMACD_def rally_aligned scoreMomentum_def scoreStrength_def
      addFactor_def Let_def power_divide)


lemma rally_indicators:
  "computeIndicators rally =
     \<lparr>i_ema20 = Some (102 - 2 * (19 / 21) ^ 20), i_ema50 = Some (504 / 5), i_rsi = 100,
      i_macd = Some rallyMacd\<rparr>"
  by (simp add: computeIndicators_def Let_def rally_ema20 rally_ema50 rally_rsi rally_macd)

lemma rally_detect:
  "detectSignal rally 20000000 103 (102 - 2 * (19 / 21) ^ 20) (504 / 5) 100 rallyMacd
     = Some rallySignal"
  by (simp add: detectSignal_def rally_score rally_atr rallySignal_def Let_def)

lemma rally_gates:
  "\<not> length (candles rally) < 50"
  "\<not> 20000000 - lastSignalTime rally < minSignalInterval"
  "callbacks rally = [7]"
  by (simp_all add: rally_length minSignalInterval_def rally_def newDetector_def
      del: upt_rec_numeral)

lemma rally_delivers_signal:
  "analyzeMarket rally 20000000
     = (rally\<lparr>lastSignalTime := 20000000\<rparr>, [(7, rallySignal)])"
  by (simp add: analyzeMarket_def rally_gates rally_price rally_indicators rally_detect Let_def
      rallySignal_def)

section \<open>The series of the indicators\<close>

text \<open>
  C6, as the specification states it, fails: the indicators are not computed over
  History's closes with the open bar's close appended. With 50 closed bars at 1 and
  an open bar at 2, the EMA20 of the analysis is 1, the EMA20 of the appended series
  is 23/21.
\<close>

theorem indicators_series_counterexample:
  "i_ema20 (computeIndicators flat50) = Some 1
   \<and> calculateEMA (specCloses flat50) 20 = Some (23 / 21)
   \<and> i_ema20 (computeIndicators flat50) \<noteq> calculateEMA (specCloses flat50) 20"
proof -
  have "specCloses flat50 = replicate 50 1 @ [2]"
    by (simp add: specCloses_def flat50_def newDetector_def flatCandle_def)
  then have "calculateEMA (specCloses flat50) 20 = Some (23 / 21)"
    by (simp add: calculateEMA_def Let_def foldl_add_replicate foldl_ema_const min_def)
  then show ?thesis by (simp add: flat50_e20)
qed

lemma atr_ignores_open_bar:
  "15 \<le> length (candles s) \<Longrightarrow> calculateATR (s\<lparr>currentCandle := cur\<rparr>) 14 = calculateATR s 14"
  by (simp add: calculateATR_def)

lemma detect_ignores_open_bar:
  assumes "15 \<le> length (candles s)"
  shows "detectSignal (s\<lparr>currentCandle := cur\<rparr>) now price ema20 ema50 rsi m
           = detectSignal s now price ema20 ema50 rsi m"
  unfolding detectSignal_def atr_ignores_open_bar [OF assms] by (rule refl)

lemma indicators_ignore_open_bar:
  "computeIndicators (s\<lparr>currentCandle := cur\<rparr>) = computeIndicators s"
  by (simp add: computeIndicators_def analysisCloses_def Let_def)

lemma deliveries_ignore_open_bar:
  assumes "currentPriceOf (s\<lparr>currentCandle := cur\<rparr>) = currentPriceOf s"
  shows "snd (analyzeMarket (s\<lparr>currentCandle := cur\<rparr>) now) = snd (analyzeMarket s now)"
proof (cases "length (candles s) < 50")
  case True
  then show ?thesis by (simp add: analyzeMarket_def)
next
  case False
  then have l: "15 \<le> length (candles s)" by simp
  show ?thesis
    unfolding analyzeMarket_def Let_def indicators_ignore_open_bar assms
    by (simp add: detect_ignores_open_bar [OF l]
        split: option.splits)
qed

lemma state_ignores_open_bar:
  assumes "currentPriceOf (s\<lparr>currentCandle := cur\<rparr>) = currentPriceOf s"
  shows "fst (analyzeMarket (s\<lparr>currentCandle := cur\<rparr>) now)
           = (fst (analyzeMarket s now))\<lparr>currentCandle := cur\<rparr>"
proof (cases "length (candles s) < 50")
  case True
  then show ?thesis by (simp add: analyzeMarket_def)
next
  case False
  then have l: "15 \<le> length (candles s)" by simp
  show ?thesis
    unfolding analyzeMarket_def Let_def indicators_ignore_open_bar assms
    by (simp add: detect_ignores_open_bar [OF l]
        split: option.splits)
qed

text \<open>
  C6, amended. In every analysis run the indicators (EMA20, EMA50, RSI, MACD) are
  computed over the closes of History's closed bars alone; the current open bar does
  not enter them: replacing it changes no indicator. Its close is the current price of
  the run (the last close of History stands in when there is no open bar or its close
  is 0), and the run reads the open bar for nothing else: a run past the two guards is
  the scoring applied to that price and to the indicators of History's closes, and two
  states that differ in the open bar only and have the same current price deliver the
  same signals to the same subscribers and make the same change to the state.
\<close>

theorem indicators_over_history:
  "computeIndicators s =
     \<lparr>i_ema20 = calculateEMA (map c_close (candles s)) 20,
      i_ema50 = calculateEMA (map c_close (candles s)) 50,
      i_rsi = calculateRSI (map c_close (candles s)) 14,
      i_macd = calculateMACD (map c_close (candles s))\<rparr>
   \<and> computeIndicators (s\<lparr>currentCandle := cur\<rparr>) = computeIndicators s
   \<and> currentPriceOf s =
       (case currentCandle s of
          None \<Rightarrow> last (map c_close (candles s))
        | Some c \<Rightarrow> if c_close c \<noteq> 0 then c_close c else last (map c_close (candles s)))
   \<and> analyzeMarket s now =
       (if length (candles s) < 50 \<or> now - lastSignalTime s < minSignalInterval then (s, [])
        else
          (case (calculateEMA (map c_close (candles s)) 20,
                 calculateEMA (map c_close (candles s)) 50,
                 calculateMACD (map c_close (candles s))) of
             (Some ema20, Some ema50, Some m) \<Rightarrow>
               (case detectSignal s now (currentPriceOf s) ema20 ema50
                       (calculateRSI (map c_close (candles s)) 14) m of
                  None \<Rightarrow> (s, [])
                | Some sg \<Rightarrow>
                    (s\<lparr>lastSignalTime := now\<rparr>,
                     map (\<lambda>cb. (cb, sg\<lparr>sig_timestamp := now\<rparr>)) (callbacks s)))
           | _ \<Rightarrow> (s, [])))
   \<and> (currentPriceOf (s\<lparr>currentCandle := cur\<rparr>) = currentPriceOf s \<longrightarrow>
        snd (analyzeMarket (s\<lparr>currentCandle := cur\<rparr>) now) = snd (analyzeMarket s now)
        \<and> fst (analyzeMarket (s\<lparr>currentCandle := cur\<rparr>) now)
            = (fst (analyzeMarket s now))\<lparr>currentCandle := cur\<rparr>)"
proof -
  have a: "computeIndicators s =
     \<lparr>i_ema20 = calculateEMA (map c_close (candles s)) 20,
      i_ema50 = calculateEMA (map c_close (candles s)) 50,
      i_rsi = calculateRSI (map c_close (candles s)) 14,
      i_macd = calculateMACD (map c_close (candles s))\<rparr>"
    by (simp add: computeIndicators_def analysisCloses_def Let_def)
  have b: "computeIndicators (s\<lparr>currentCandle := cur\<rparr>) = computeIndicators s"
    by (rule indicators_ignore_open_bar)
  have c: "currentPriceOf s =
       (case currentCandle s of
          None \<Rightarrow> last (map c_close (candles s))
        | Some c \<Rightarrow> if c_close c \<noteq> 0 then c_close c else last (map c_close (candles s)))"
    unfolding currentPriceOf_def analysisCloses_def by (rule refl)
  have d: "analyzeMarket s now =
       (if length (candles s) < 50 \<or> now - lastSignalTime s < minSignalInterval then (s, [])
        else
          (case (calculateEMA (map c_close (candles s)) 20,
                 calculateEMA (map c_close (candles s)) 50,
                 calculateMACD (map c_close (candles s))) of
             (Some ema20, Some ema50, Some m) \<Rightarrow>
               (case detectSignal s now (currentPriceOf s) ema20 ema50
                       (calculateRSI (map c_close (candles s)) 14) m of
                  None \<Rightarrow> (s, [])
                | Some sg \<Rightarrow>
                    (s\<lparr>lastSignalTime := now\<rparr>,
                     map (\<lambda>cb. (cb, sg\<lparr>sig_timestamp := now\<rparr>)) (callbacks s)))
           | _ \<Rightarrow> (s, [])))"
    unfolding analyzeMarket_def Let_def a indicators.select_convs by simp
  have e: "currentPriceOf (s\<lparr>currentCandle := cur\<rparr>) = currentPriceOf s \<longrightarrow>
        snd (analyzeMarket (s\<lparr>currentCandle := cur\<rparr>) now) = snd (analyzeMarket s now)
        \<and> fst (analyzeMarket (s\<lparr>currentCandle := cur\<rparr>) now)
            = (fst (analyzeMarket s now))\<lparr>currentCandle := cur\<rparr>"
    using deliveries_ignore_open_bar state_ignores_open_bar by blast
  from a b c d e show ?thesis by (intro conjI)
qed

theorem indicators_over_history_witness:
  "currentPriceOf (rally\<lparr>currentCandle := Some (flatCandle 103 15600000)\<rparr>) = currentPriceOf rally
   \<and> currentCandle rally \<noteq> Some (flatCandle 103 15600000)
   \<and> currentPriceOf rally = 103
   \<and> computeIndicators rallyLater = computeIndicators rally
   \<and> snd (analyzeMarket rally 20000000) = [(7, rallySignal)]
   \<and> snd (analyzeMarket rallyLater 20000000) = [(7, rallySignal)]
   \<and> fst (analyzeMarket rallyLater 20000000) = rallyLater\<lparr>lastSignalTime := 20000000\<rparr>"
proof -
  have p: "currentPriceOf (rally\<lparr>currentCandle := Some (flatCandle 103 15600000)\<rparr>)
      = currentPriceOf rally"
    by (simp add: currentPriceOf_def rally_def newDetector_def flatCandle_def)
  have n: "currentCandle rally \<noteq> Some (flatCandle 103 15600000)"
    by (simp add: rally_def newDetector_def flatCandle_def)
  have r: "snd (analyzeMarket rally 20000000) = [(7, rallySignal)]"
    by (simp add: rally_delivers_signal)
  note inst = indicators_over_history [of rally "Some (flatCandle 103 15600000)" 20000000]
  from inst p r have l: "snd (analyzeMarket rallyLater 20000000) = [(7, rallySignal)]"
    by (simp only: rallyLater_def)
  from inst have i: "computeIndicators rallyLater = computeIndicators rally"
    by (simp only: rallyLater_def)
  from inst p have "fst (analyzeMarket rallyLater 20000000)
      = (fst (analyzeMarket rally 20000000))\<lparr>currentCandle := Some (flatCandle 103 15600000)\<rparr>"
    by (simp only: rallyLater_def)
  then have f: "fst (analyzeMarket rallyLater 20000000) = rallyLater\<lparr>lastSignalTime := 20000000\<rparr>"
    by (simp add: rally_delivers_signal rallyLater_def)
  from p n rally_price i r l f show ?thesis by (intro conjI)
qed

section \<open>Order execution\<close>

text \<open>
  C2. Whenever the open-positions list that \<open>executeSignal\<close> reads contains a position
  for BTCUSDT, \<open>executeSignal\<close> returns a failure whose error is the message of a
  position already open, and no order-placement request is among the requests it
  sent.
\<close>

theorem existing_position_blocks_order:
  assumes "list_ex (\<lambda>p. p_symbol p = ''BTCUSDT'') (fst (getOpenPositions cfg v))"
  shows "fst (executeSignal cfg v sg) =
           \<lparr>success = False, orderId = None, error = Some msgPositionOpen,
            executedQty = None, avgPrice = None\<rparr>
         \<and> \<not> list_ex isOrderRequest (snd (executeSignal cfg v sg))"
proof -
  obtain positions r1 where g: "getOpenPositions cfg v = (positions, r1)"
    by (cases "getOpenPositions cfg v")
  with assms have "list_ex (\<lambda>p. p_symbol p = ''BTCUSDT'') positions" by simp
  then obtain p where f: "find (\<lambda>p. p_symbol p = ''BTCUSDT'') positions = Some p"
    by (cases "find (\<lambda>p. p_symbol p = ''BTCUSDT'') positions")
      (auto simp: find_None_iff list_ex_iff)
  have e: "executeSignal cfg v sg = (failure msgPositionOpen, r1)"
    by (simp add: executeSignal_def Let_def g f)
  have "\<not> list_ex isOrderRequest r1"
    using g
    by (auto simp: getOpenPositions_def request_def isOrderRequest_def orderEndpoint_def
        split: option.splits sum.splits)
  with e show ?thesis by (simp add: failure_def)
qed

theorem existing_position_blocks_order_witness:
  "list_ex (\<lambda>p. p_symbol p = ''BTCUSDT'') (fst (getOpenPositions cfgOk venueHeld))
   \<and> fst (executeSignal cfgOk venueHeld (toExecSignal botPolicy longSignal))
       = failure msgPositionOpen
   \<and> \<not> list_ex isOrderRequest
         (snd (executeSignal cfgOk venueHeld (toExecSignal botPolicy longSignal)))"
proof -
  have h: "list_ex (\<lambda>p. p_symbol p = ''BTCUSDT'') (fst (getOpenPositions cfgOk venueHeld))"
    by (simp add: getOpenPositions_def request_def cfgOk_def venueHeld_def venueFree_def
        btcPosition_def)
  from existing_position_blocks_order [OF h] h show ?thesis by (simp add: failure_def)
qed

lemma js_divide_finite: "b \<noteq> 0 \<Longrightarrow> js_divide (Finite a) (Finite b) = roundDouble (a / b)"
  by simp

lemma divisors_nonzero: "(100::real) \<noteq> 0" "(50000::real) \<noteq> 0" "(1000::real) \<noteq> 0"
  by simp_all

lemma positionSize_chain:
  assumes "fst (getBalance cfg v) = Finite balance"
  shows "fst (calculatePositionSize cfg v accountPercentage entryPrice leverage) =
           js_divide (js_floor (scaledQuantity balance accountPercentage leverage entryPrice))
             (Finite 1000)"
proof -
  obtain b rs where g: "getBalance cfg v = (b, rs)" by (cases "getBalance cfg v")
  with assms have "b = Finite balance" by simp
  with g show ?thesis
    by (simp only: calculatePositionSize_def scaledQuantity_def Let_def prod.case fst_conv)
qed

text \<open>The roundings of the scenario: balance 1000, 10 percent, leverage 15, price 50000.\<close>

lemma scenario_percentage: "roundDouble (10 / 100) = Finite (3602879701896397 / 2 ^ 55)"
  using roundDouble_value [where k = "- 4" and n = 7205759403792794 and x = "10 / 100"]
  by (simp add: roundHalfEven_def Let_def)

lemma scenario_value:
  "roundDouble (1000 * (3602879701896397 / 2 ^ 55)) = Finite 100"
  using roundDouble_value [where k = 6 and n = 7036874417766400
      and x = "1000 * (3602879701896397 / 2 ^ 55)"]
  by (simp add: roundHalfEven_def Let_def)

lemma scenario_leveraged: "roundDouble (100 * 15) = Finite 1500"
  using roundDouble_value [where k = 10 and n = 6597069766656000 and x = "100 * 15"]
  by (simp add: roundHalfEven_def Let_def)

lemma scenario_quantity: "roundDouble (1500 / 50000) = Finite (1080863910568919 / 2 ^ 55)"
  using roundDouble_value [where k = "- 6" and n = 8646911284551352 and x = "1500 / 50000"]
  by (simp add: roundHalfEven_def Let_def)

lemma scenario_scaled: "roundDouble (1080863910568919 / 2 ^ 55 * 1000) = Finite 30"
  using roundDouble_value [where k = 4 and n = 8444249301319680
      and x = "1080863910568919 / 2 ^ 55 * 1000"]
  by (simp add: roundHalfEven_def Let_def)

lemma scenario_result: "roundDouble (30 / 1000) = Finite (1080863910568919 / 2 ^ 55)"
  using roundDouble_value [where k = "- 6" and n = 8646911284551352 and x = "30 / 1000"]
  by (simp add: roundHalfEven_def Let_def)

lemma scenario_scaledQuantity: "scaledQuantity 1000 10 15 50000 = Finite 30"
  unfolding scaledQuantity_def
  by (simp only: js_divide_finite [OF divisors_nonzero(1)] js_divide_finite [OF divisors_nonzero(2)]
      js_times.simps scenario_percentage scenario_value scenario_leveraged scenario_quantity
      scenario_scaled)

lemma scenario_size:
  "js_divide (js_floor (scaledQuantity 1000 10 15 50000)) (Finite 1000)
     = Finite (1080863910568919 / 2 ^ 55)"
proof -
  have "of_int \<lfloor>30::real\<rfloor> / 1000 = (30 / 1000 :: real)" by simp
  then show ?thesis
    by (simp only: scenario_scaledQuantity js_floor.simps
        js_divide_finite [OF divisors_nonzero(3)] scenario_result)
qed

text \<open>The roundings at balance 3000, 29 percent, leverage 15, price 50000.\<close>

lemma c3000_percentage: "roundDouble (29 / 100) = Finite (5224175567749775 / 2 ^ 54)"
  using roundDouble_value [where k = "- 2" and n = 5224175567749775 and x = "29 / 100"]
  by (simp add: roundHalfEven_def Let_def)

lemma c3000_value:
  "roundDouble (3000 * (5224175567749775 / 2 ^ 54)) = Finite (7652600929320959 / 2 ^ 43)"
  using roundDouble_value [where k = 9 and n = 7652600929320959
      and x = "3000 * (5224175567749775 / 2 ^ 54)"]
  by (simp add: roundHalfEven_def Let_def)

lemma c3000_leveraged:
  "roundDouble (7652600929320959 / 2 ^ 43 * 15) = Finite (7174313371238399 / 2 ^ 39)"
  using roundDouble_value [where k = 13 and n = 7174313371238399
      and x = "7652600929320959 / 2 ^ 43 * 15"]
  by (simp add: roundHalfEven_def Let_def)

lemma c3000_quantity:
  "roundDouble (7174313371238399 / 2 ^ 39 / 50000) = Finite (4701758010974797 / 2 ^ 54)"
  using roundDouble_value [where k = "- 2" and n = 4701758010974797
      and x = "7174313371238399 / 2 ^ 39 / 50000"]
  by (simp add: roundHalfEven_def Let_def)

lemma c3000_scaled:
  "roundDouble (4701758010974797 / 2 ^ 54 * 1000) = Finite (4591560557592575 / 2 ^ 44)"
  using roundDouble_value [where k = 8 and n = 4591560557592575
      and x = "4701758010974797 / 2 ^ 54 * 1000"]
  by (simp add: roundHalfEven_def Let_def)

lemma c3000_scaledQuantity:
  "scaledQuantity 3000 29 15 50000 = Finite (4591560557592575 / 2 ^ 44)"
  unfolding scaledQuantity_def
  by (simp only: js_divide_finite [OF divisors_nonzero(1)] js_divide_finite [OF divisors_nonzero(2)]
      js_times.simps c3000_percentage c3000_value c3000_leveraged c3000_quantity c3000_scaled)

lemma c3000_floor: "\<lfloor>4591560557592575 / 2 ^ 44 :: real\<rfloor> = 260"
  by (rule floor_unique) simp_all

lemma c3000_size:
  "js_divide (js_floor (scaledQuantity 3000 29 15 50000)) (Finite 1000)
     = roundDouble (260 / 1000)"
  by (simp only: c3000_scaledQuantity js_floor.simps c3000_floor
      js_divide_finite [OF divisors_nonzero(3)] of_int_numeral)

lemma round_260: "roundDouble (260 / 1000) = Finite (1170935903116329 / 2 ^ 52)"
  using roundDouble_value [where k = "- 2" and n = 4683743612465316 and x = "260 / 1000"]
  by (simp add: roundHalfEven_def Let_def)

lemma round_261: "roundDouble (261 / 1000) = Finite (2350879005487399 / 2 ^ 53)"
  using roundDouble_value [where k = "- 2" and n = 4701758010974798 and x = "261 / 1000"]
  by (simp add: roundHalfEven_def Let_def)

text \<open>The formula of the specification at the same input, evaluated from left to right.\<close>

lemma s3000_product: "roundDouble (3000 * 29) = Finite 87000"
  using roundDouble_value [where k = 16 and n = 5978594476032000 and x = "3000 * 29"]
  by (simp add: roundHalfEven_def Let_def)

lemma s3000_value: "roundDouble (87000 / 100) = Finite 870"
  using roundDouble_value [where k = 9 and n = 7652600929320960 and x = "87000 / 100"]
  by (simp add: roundHalfEven_def Let_def)

lemma s3000_leveraged: "roundDouble (870 * 15) = Finite 13050"
  using roundDouble_value [where k = 13 and n = 7174313371238400 and x = "870 * 15"]
  by (simp add: roundHalfEven_def Let_def)

lemma s3000_quantity: "roundDouble (13050 / 50000) = Finite (2350879005487399 / 2 ^ 53)"
  using roundDouble_value [where k = "- 2" and n = 4701758010974798 and x = "13050 / 50000"]
  by (simp add: roundHalfEven_def Let_def)

lemma s3000_scaled: "roundDouble (2350879005487399 / 2 ^ 53 * 1000) = Finite 261"
  using roundDouble_value [where k = 8 and n = 4591560557592576
      and x = "2350879005487399 / 2 ^ 53 * 1000"]
  by (simp add: roundHalfEven_def Let_def)

lemma s3000_specQuantity: "specScaledQuantity 3000 29 15 50000 = Finite 261"
  unfolding specScaledQuantity_def
  by (simp only: js_divide_finite [OF divisors_nonzero(1)] js_divide_finite [OF divisors_nonzero(2)]
      js_times.simps s3000_product s3000_value s3000_leveraged s3000_quantity s3000_scaled)

lemma balance_3000: "fst (getBalance cfgOk venue3000) = Finite 3000"
  by (simp add: getBalance_def request_def cfgOk_def venue3000_def venueFree_def)

lemma balance_1000: "fst (getBalance cfgOk venueFree) = Finite 1000"
  by (simp add: getBalance_def request_def cfgOk_def venueFree_def)

text \<open>
  C4, as the specification states it, fails. With a balance of 3000, accountPercentage
  29, leverage 15 and entryPrice 50000 the formula of the specification gives
  floor(261) / 1000 = 0.261, in exact arithmetic and also when it is evaluated from
  left to right in double arithmetic. \<open>calculatePositionSize\<close> multiplies the balance
  by the rounded quotient 29 / 100: its scaled quantity is the double
  4591560557592575 / 2^44, just below 261, the floor is 260, and it returns 0.26.
\<close>

theorem position_size_counterexample:
  "fst (getBalance cfgOk venue3000) = Finite 3000
   \<and> \<lfloor>3000 * 29 / 100 * 15 / 50000 * 1000 :: real\<rfloor> = 261
   \<and> js_floor (specScaledQuantity 3000 29 15 50000) = Finite 261
   \<and> scaledQuantity 3000 29 15 50000 = Finite (4591560557592575 / 2 ^ 44)
   \<and> js_floor (scaledQuantity 3000 29 15 50000) = Finite 260
   \<and> fst (calculatePositionSize cfgOk venue3000 29 50000 15) = roundDouble (260 / 1000)
   \<and> fst (calculatePositionSize cfgOk venue3000 29 50000 15) \<noteq> roundDouble (261 / 1000)
   \<and> fst (calculatePositionSize cfgOk venue3000 29 50000 15) \<noteq> Finite (261 / 1000)"
proof -
  have a: "\<lfloor>3000 * 29 / 100 * 15 / 50000 * 1000 :: real\<rfloor> = 261" by simp
  have b: "js_floor (specScaledQuantity 3000 29 15 50000) = Finite 261"
    by (simp add: s3000_specQuantity)
  have c: "js_floor (scaledQuantity 3000 29 15 50000) = Finite 260"
    by (simp only: c3000_scaledQuantity js_floor.simps c3000_floor of_int_numeral)
  have d: "fst (calculatePositionSize cfgOk venue3000 29 50000 15) = roundDouble (260 / 1000)"
    by (simp only: positionSize_chain [OF balance_3000] c3000_size)
  have e: "roundDouble (260 / 1000) \<noteq> roundDouble (261 / 1000)"
    unfolding round_260 round_261 by simp
  have f: "roundDouble (260 / 1000) \<noteq> Finite (261 / 1000)"
    unfolding round_260 by simp
  from balance_3000 a b c3000_scaledQuantity c d e f show ?thesis by (simp only: simp_thms)
qed

text \<open>
  C4, amended. When the balance read from the venue is a finite number and
  \<open>entryPrice > 0\<close>, \<open>calculatePositionSize\<close> returns floor(q) / 1000, where q is
  balance * (accountPercentage / 100) * leverage / entryPrice * 1000 computed in double
  arithmetic in this order, every operation rounded to the nearest double, and the
  last division rounded as well. For balance 1000, accountPercentage 10, leverage 15
  and entryPrice 50000, q is 30 and the result is 0.03, the double nearest to it.
\<close>

theorem position_size_formula:
  assumes "fst (getBalance cfg v) = Finite balance" and "entryPrice > 0"
  shows "scaledQuantity balance accountPercentage leverage entryPrice =
           js_times
             (js_divide
               (js_times (js_times (Finite balance) (roundDouble (accountPercentage / 100)))
                  (Finite leverage))
               (Finite entryPrice))
             (Finite 1000)
         \<and> fst (calculatePositionSize cfg v accountPercentage entryPrice leverage) =
             js_divide (js_floor (scaledQuantity balance accountPercentage leverage entryPrice))
               (Finite 1000)
         \<and> (\<forall>q. scaledQuantity balance accountPercentage leverage entryPrice = Finite q \<longrightarrow>
               fst (calculatePositionSize cfg v accountPercentage entryPrice leverage)
                 = roundDouble (of_int \<lfloor>q\<rfloor> / 1000))
         \<and> (balance = 1000 \<and> accountPercentage = 10 \<and> leverage = 15 \<and> entryPrice = 50000
              \<longrightarrow> scaledQuantity balance accountPercentage leverage entryPrice = Finite 30
                  \<and> fst (calculatePositionSize cfg v accountPercentage entryPrice leverage)
                      = roundDouble 0.030
                  \<and> roundDouble 0.030 = Finite (1080863910568919 / 2 ^ 55))"
proof -
  have a: "scaledQuantity balance accountPercentage leverage entryPrice =
           js_times
             (js_divide
               (js_times (js_times (Finite balance) (roundDouble (accountPercentage / 100)))
                  (Finite leverage))
               (Finite entryPrice))
             (Finite 1000)"
    by (simp only: scaledQuantity_def js_divide_finite [OF divisors_nonzero(1)])
  have b: "fst (calculatePositionSize cfg v accountPercentage entryPrice leverage) =
             js_divide (js_floor (scaledQuantity balance accountPercentage leverage entryPrice))
               (Finite 1000)"
    using assms(1) by (rule positionSize_chain)
  have c: "\<forall>q. scaledQuantity balance accountPercentage leverage entryPrice = Finite q \<longrightarrow>
               fst (calculatePositionSize cfg v accountPercentage entryPrice leverage)
                 = roundDouble (of_int \<lfloor>q\<rfloor> / 1000)"
    by (simp add: b)
  have r: "roundDouble 0.030 = Finite (1080863910568919 / 2 ^ 55)"
    using scenario_result by simp
  have d: "balance = 1000 \<and> accountPercentage = 10 \<and> leverage = 15 \<and> entryPrice = 50000
              \<longrightarrow> scaledQuantity balance accountPercentage leverage entryPrice = Finite 30
                  \<and> fst (calculatePositionSize cfg v accountPercentage entryPrice leverage)
                      = roundDouble 0.030
                  \<and> roundDouble 0.030 = Finite (1080863910568919 / 2 ^ 55)"
  proof
    assume h: "balance = 1000 \<and> accountPercentage = 10 \<and> leverage = 15 \<and> entryPrice = 50000"
    then have s: "scaledQuantity balance accountPercentage leverage entryPrice = Finite 30"
      by (simp only: scenario_scaledQuantity)
    from h have "fst (calculatePositionSize cfg v accountPercentage entryPrice leverage)
        = Finite (1080863910568919 / 2 ^ 55)"
      unfolding b by (simp only: scenario_size)
    with s r show "scaledQuantity balance accountPercentage leverage entryPrice = Finite 30
                  \<and> fst (calculatePositionSize cfg v accountPercentage entryPrice leverage)
                      = roundDouble 0.030
                  \<and> roundDouble 0.030 = Finite (1080863910568919 / 2 ^ 55)"
      by (simp only: simp_thms)
  qed
  from a b c d show ?thesis by (intro conjI)
qed

theorem position_size_formula_witness:
  "fst (getBalance cfgOk venueFree) = Finite 1000 \<and> (50000::real) > 0
   \<and> scaledQuantity 1000 10 15 50000 = Finite 30
   \<and> fst (calculatePositionSize cfgOk venueFree 10 50000 15) = roundDouble (of_int \<lfloor>30::real\<rfloor> / 1000)
   \<and> fst (calculatePositionSize cfgOk venueFree 10 50000 15) = Finite (1080863910568919 / 2 ^ 55)"
proof -
  have p: "(50000::real) > 0" by simp
  from position_size_formula [OF balance_1000 p, of 10 15]
  have c: "\<forall>q. scaledQuantity 1000 10 15 50000 = Finite q \<longrightarrow>
             fst (calculatePositionSize cfgOk venueFree 10 50000 15)
               = roundDouble (of_int \<lfloor>q\<rfloor> / 1000)"
    and d: "(1000::real) = 1000 \<and> (10::real) = 10 \<and> (15::real) = 15 \<and> (50000::real) = 50000
             \<longrightarrow> scaledQuantity 1000 10 15 50000 = Finite 30
                 \<and> fst (calculatePositionSize cfgOk venueFree 10 50000 15) = roundDouble 0.030
                 \<and> roundDouble 0.030 = Finite (1080863910568919 / 2 ^ 55)"
    by blast+
  from d have s: "scaledQuantity 1000 10 15 50000 = Finite 30"
    and t: "fst (calculatePositionSize cfgOk venueFree 10 50000 15) = roundDouble 0.030"
    and u: "roundDouble 0.030 = Finite (1080863910568919 / 2 ^ 55)"
    by blast+
  from c s have q: "fst (calculatePositionSize cfgOk venueFree 10 50000 15)
      = roundDouble (of_int \<lfloor>30::real\<rfloor> / 1000)"
    by blast
  from t u have r: "fst (calculatePositionSize cfgOk venueFree 10 50000 15)
      = Finite (1080863910568919 / 2 ^ 55)"
    by (rule trans)
  from balance_1000 p s q r show ?thesis by (intro conjI)
qed

section \<open>The bot's order bookkeeping\<close>

lemma addLog_fields:
  "lastOrderTime (addLog b ty msg) = lastOrderTime b"
  "totalOrders (addLog b ty msg) = totalOrders b"
  "b_isRunning (addLog b ty msg) = b_isRunning b"
  "b_config (addLog b ty msg) = b_config b"
  by (simp_all add: addLog_def Let_def)

text \<open>
  C3. For a signal that passes the policy gate of \<open>handleSignal\<close> (policy enabled, score
  not below the minimum, the order interval elapsed, executor configured): when the
  execution attempt fails, \<open>lastOrderTime\<close> and \<open>totalOrders\<close> are unchanged; when it
  succeeds, \<open>lastOrderTime\<close> is the current time and \<open>totalOrders\<close> is one more. In both
  cases the running flag is unchanged, so a running bot stays running.
\<close>

theorem order_bookkeeping:
  assumes "passesGate b ex now sg cfg"
  shows "(\<not> success (fst (executeSignal ex v (toExecSignal cfg sg))) \<longrightarrow>
            lastOrderTime (fst (handleSignal b ex v now sg)) = lastOrderTime b
            \<and> totalOrders (fst (handleSignal b ex v now sg)) = totalOrders b)
         \<and> (success (fst (executeSignal ex v (toExecSignal cfg sg))) \<longrightarrow>
              lastOrderTime (fst (handleSignal b ex v now sg)) = now
              \<and> totalOrders (fst (handleSignal b ex v now sg)) = totalOrders b + 1)
         \<and> b_isRunning (fst (handleSignal b ex v now sg)) = b_isRunning b"
proof -
  obtain result rs where e: "executeSignal ex v (toExecSignal cfg sg) = (result, rs)"
    by (cases "executeSignal ex v (toExecSignal cfg sg)")
  from assms have g: "b_config b = Some cfg" "enabled cfg"
    "\<not> real (sig_score sg) < (if minScore cfg \<noteq> 0 then minScore cfg else 60)"
    "\<not> now - lastOrderTime b < minOrderInterval" "isConfigured ex"
    by (simp_all add: passesGate_def)
  show ?thesis
  proof (cases "success result")
    case True
    with g e show ?thesis
      by (simp add: handleSignal_def Let_def addLog_fields)
  next
    case False
    with g e show ?thesis
      by (simp add: handleSignal_def Let_def addLog_fields)
  qed
qed

lemma executeSignal_places_order:
  assumes "fst (getOpenPositions cfg v) = []"
    and "fst (calculatePositionSize cfg v (es_accountPercentage sg) (es_entryPrice sg)
               (es_leverage sg)) = q"
    and "\<not> js_le q (Finite 0)"
  shows "fst (executeSignal cfg v sg) =
           fst (openMarketOrder cfg v ''BTCUSDT'' (if es_type sg = LONG then BUY else SELL) q)"
proof -
  obtain positions r1 where g: "getOpenPositions cfg v = (positions, r1)"
    by (cases "getOpenPositions cfg v")
  obtain ok1 r2 where l: "setLeverage cfg v ''BTCUSDT'' (es_leverage sg) = (ok1, r2)"
    by (cases "setLeverage cfg v ''BTCUSDT'' (es_leverage sg)")
  obtain ok2 r3 where m: "setMarginType cfg v ''BTCUSDT'' ''ISOLATED'' = (ok2, r3)"
    by (cases "setMarginType cfg v ''BTCUSDT'' ''ISOLATED''")
  obtain q' r4 where c: "calculatePositionSize cfg v (es_accountPercentage sg)
      (es_entryPrice sg) (es_leverage sg) = (q', r4)"
    by (cases "calculatePositionSize cfg v (es_accountPercentage sg) (es_entryPrice sg)
          (es_leverage sg)")
  from assms(1) g have e: "positions = []" by simp
  from assms(2) c have f: "q' = q" by simp
  from assms(3) show ?thesis
    by (simp add: executeSignal_def Let_def g l m c e f split: prod.splits)
qed

lemma exec_free:
  "fst (executeSignal cfgOk venueFree (toExecSignal botPolicy longSignal)) =
     \<lparr>success = True, orderId = Some ''12345'', error = None,
      executedQty = Some (Finite 0.03), avgPrice = Some (Finite 50000)\<rparr>"
proof -
  have f: "es_accountPercentage (toExecSignal botPolicy longSignal) = 10"
    "es_entryPrice (toExecSignal botPolicy longSignal) = 50000"
    "es_leverage (toExecSignal botPolicy longSignal) = 15"
    "es_type (toExecSignal botPolicy longSignal) = LONG"
    by (simp_all add: toExecSignal_def botPolicy_def longSignal_def)
  have p: "fst (getOpenPositions cfgOk venueFree) = []"
    by (simp add: getOpenPositions_def request_def cfgOk_def venueFree_def)
  have q: "fst (calculatePositionSize cfgOk venueFree
                 (es_accountPercentage (toExecSignal botPolicy longSignal))
                 (es_entryPrice (toExecSignal botPolicy longSignal))
                 (es_leverage (toExecSignal botPolicy longSignal)))
             = Finite (1080863910568919 / 2 ^ 55)"
    unfolding f by (simp only: positionSize_chain [OF balance_1000] scenario_size)
  have n: "\<not> js_le (Finite (1080863910568919 / 2 ^ 55)) (Finite 0)"
    by simp
  have o: "fst (openMarketOrder cfgOk venueFree ''BTCUSDT'' BUY
                 (Finite (1080863910568919 / 2 ^ 55))) =
     \<lparr>success = True, orderId = Some ''12345'', error = None,
      executedQty = Some (Finite 0.03), avgPrice = Some (Finite 50000)\<rparr>"
    by (simp add: openMarketOrder_def request_def cfgOk_def venueFree_def orderFilled_def)
  from executeSignal_places_order [OF p q n] o show ?thesis by (simp add: f)
qed

lemma exec_held:
  "fst (executeSignal cfgOk venueHeld (toExecSignal botPolicy longSignal)) =
     failure msgPositionOpen"
  by (simp add: executeSignal_def Let_def getOpenPositions_def request_def cfgOk_def
      venueHeld_def venueFree_def btcPosition_def)

theorem order_bookkeeping_witness:
  "passesGate botOn cfgOk 1000000 longSignal botPolicy
   \<and> success (fst (executeSignal cfgOk venueFree (toExecSignal botPolicy longSignal)))
   \<and> lastOrderTime (fst (handleSignal botOn cfgOk venueFree 1000000 longSignal)) = 1000000
   \<and> totalOrders (fst (handleSignal botOn cfgOk venueFree 1000000 longSignal)) = 1
   \<and> \<not> success (fst (executeSignal cfgOk venueHeld (toExecSignal botPolicy longSignal)))
   \<and> lastOrderTime (fst (handleSignal botOn cfgOk venueHeld 1000000 longSignal)) = 0
   \<and> totalOrders (fst (handleSignal botOn cfgOk venueHeld 1000000 longSignal)) = 0
   \<and> b_isRunning (fst (handleSignal botOn cfgOk venueHeld 1000000 longSignal))"
proof -
  have g: "passesGate botOn cfgOk 1000000 longSignal botPolicy"
    by (simp add: passesGate_def botOn_def botPolicy_def longSignal_def cfgOk_def
        isConfigured_def minOrderInterval_def)
  have s: "success (fst (executeSignal cfgOk venueFree (toExecSignal botPolicy longSignal)))"
    by (simp add: exec_free)
  have f: "\<not> success (fst (executeSignal cfgOk venueHeld (toExecSignal botPolicy longSignal)))"
    by (simp add: exec_held failure_def)
  have b0: "lastOrderTime botOn = 0" "totalOrders botOn = 0" "b_isRunning botOn"
    by (simp_all add: botOn_def)
  from order_bookkeeping [OF g, of venueFree] s b0
  have a: "lastOrderTime (fst (handleSignal botOn cfgOk venueFree 1000000 longSignal)) = 1000000"
    "totalOrders (fst (handleSignal botOn cfgOk venueFree 1000000 longSignal)) = 1"
    by simp_all
  from order_bookkeeping [OF g, of venueHeld] f b0
  have c: "lastOrderTime (fst (handleSignal botOn cfgOk venueHeld 1000000 longSignal)) = 0"
    "totalOrders (fst (handleSignal botOn cfgOk venueHeld 1000000 longSignal)) = 0"
    "b_isRunning (fst (handleSignal botOn cfgOk venueHeld 1000000 longSignal))"
    by simp_all
  from g s a f c show ?thesis by blast
qed

section \<open>Timers at shutdown\<close>

lemma clearTimer_gone: "\<not> list_ex (\<lambda>t. t_handle t = h) (clearTimer ts h)"
  by (simp add: clearTimer_def list_ex_iff)

lemma pm_stop_fields:
  "pingInterval (pm_stop m) = None" "\<not> pm_isRunning (pm_stop m)" "ws (pm_stop m) = None"
  "pm_sockets (pm_stop m) = pm_sockets m"
  by (simp_all add: pm_stop_def Let_def split: option.splits)

lemma pm_stop_timers:
  "pingInterval m = Some h \<Longrightarrow> pm_timers (pm_stop m) = clearTimer (pm_timers m) h"
  by (simp add: pm_stop_def Let_def split: option.splits)

text \<open>While the monitor is not running, a timer that fires opens nothing and sets no timer.\<close>

lemma pm_fire_stopped:
  assumes "\<not> pm_isRunning m"
  shows "ws (pm_fire m h) = ws m" "pm_sockets (pm_fire m h) = pm_sockets m"
    "\<not> pm_isRunning (pm_fire m h)" "set (pm_timers (pm_fire m h)) \<subseteq> set (pm_timers m)"
  using assms
  by (auto simp: pm_fire_def pm_connect_def clearTimer_def split: option.splits)

text \<open>
  C7, as stated, fails: \<open>stop\<close> leaves timers pending. The detector's first-analysis
  timeout is still pending after \<open>start\<close> and \<open>stop\<close>, and the monitor's reconnect
  backoff timeout is still pending when \<open>stop\<close> is called after the socket has closed.
\<close>

theorem stop_leaves_timers_counterexample:
  "list_ex (\<lambda>t. t_kind t = FirstAnalysis) (sd_timers (sd_stop detectorStarted))
   \<and> list_ex (\<lambda>t. t_kind t = ReconnectBackoff) (pm_timers (pm_stop monitorReconnecting))"
  by (simp add: detectorStarted_def sd_start_def sd_stop_def loadHistoricalCandles_def
      newDetector_def setTimer_def clearTimer_def Let_def monitorReconnecting_def
      monitorOpen_def pm_onClose_def pm_onOpen_def pm_start_def pm_connect_def pm_stop_def
      scheduleReconnect_def newMonitor_def maxReconnectAttempts_def)

text \<open>
  C7, amended. When \<open>stop\<close> returns on the price monitor or the signal detector, the
  interval timer whose handle the component holds (the heartbeat, the periodic
  analysis) is no longer pending and the handle is cleared, and the component is not
  running. \<open>stop\<close> does not cancel a pending reconnect backoff or reconnect cooldown
  timeout of the monitor; when a timer of the stopped monitor fires, no socket is
  opened and no timer is set.
\<close>

theorem stop_cancels_held_intervals:
  "pingInterval (pm_stop m) = None \<and> \<not> pm_isRunning (pm_stop m) \<and> ws (pm_stop m) = None
   \<and> (\<forall>h. pingInterval m = Some h
          \<longrightarrow> \<not> list_ex (\<lambda>t. t_handle t = h) (pm_timers (pm_stop m)))
   \<and> (\<forall>h. ws (pm_fire (pm_stop m) h) = None
          \<and> pm_sockets (pm_fire (pm_stop m) h) = pm_sockets m
          \<and> \<not> pm_isRunning (pm_fire (pm_stop m) h)
          \<and> set (pm_timers (pm_fire (pm_stop m) h)) \<subseteq> set (pm_timers (pm_stop m)))
   \<and> analysisInterval (sd_stop s) = None \<and> \<not> isRunning (sd_stop s)
   \<and> (\<forall>h. analysisInterval s = Some h
          \<longrightarrow> \<not> list_ex (\<lambda>t. t_handle t = h) (sd_timers (sd_stop s)))"
proof -
  have a: "pingInterval (pm_stop m) = None \<and> \<not> pm_isRunning (pm_stop m) \<and> ws (pm_stop m) = None"
    by (simp add: pm_stop_fields)
  have b: "\<forall>h. pingInterval m = Some h
          \<longrightarrow> \<not> list_ex (\<lambda>t. t_handle t = h) (pm_timers (pm_stop m))"
    by (simp add: pm_stop_timers clearTimer_gone)
  have c: "\<forall>h. ws (pm_fire (pm_stop m) h) = None
          \<and> pm_sockets (pm_fire (pm_stop m) h) = pm_sockets m
          \<and> \<not> pm_isRunning (pm_fire (pm_stop m) h)
          \<and> set (pm_timers (pm_fire (pm_stop m) h)) \<subseteq> set (pm_timers (pm_stop m))"
    using pm_fire_stopped [OF pm_stop_fields(2), of m] by (simp add: pm_stop_fields)
  have d: "analysisInterval (sd_stop s) = None \<and> \<not> isRunning (sd_stop s)"
    by (simp add: sd_stop_def Let_def split: option.splits)
  have e: "\<forall>h. analysisInterval s = Some h
          \<longrightarrow> \<not> list_ex (\<lambda>t. t_handle t = h) (sd_timers (sd_stop s))"
    by (simp add: sd_stop_def Let_def clearTimer_gone)
  from a b c d e show ?thesis by blast
qed

theorem stop_cancels_held_intervals_witness:
  "pingInterval monitorOpen = Some 0
   \<and> list_ex (\<lambda>t. t_handle t = 0) (pm_timers monitorOpen)
   \<and> \<not> list_ex (\<lambda>t. t_handle t = 0) (pm_timers (pm_stop monitorOpen))
   \<and> analysisInterval detectorStarted = Some 0
   \<and> list_ex (\<lambda>t. t_handle t = 0) (sd_timers detectorStarted)
   \<and> \<not> list_ex (\<lambda>t. t_handle t = 0) (sd_timers (sd_stop detectorStarted))"
proof -
  have p: "pingInterval monitorOpen = Some 0"
    "list_ex (\<lambda>t. t_handle t = 0) (pm_timers monitorOpen)"
    by (simp_all add: monitorOpen_def pm_onOpen_def pm_start_def pm_connect_def newMonitor_def
        setTimer_def Let_def)
  have q: "analysisInterval detectorStarted = Some 0"
    "list_ex (\<lambda>t. t_handle t = 0) (sd_timers detectorStarted)"
    by (simp_all add: detectorStarted_def sd_start_def loadHistoricalCandles_def
        newDetector_def setTimer_def Let_def)
  from stop_cancels_held_intervals [of monitorOpen detectorStarted] p q
  show ?thesis by blast
qed

end
